(* ===== verification/Go_Prelude.thy ===== *)
theory Go_Prelude
  imports Main "HOL-Library.Multiset" "HOL-Library.List_Lexorder" "HOL-Library.Char_ord"
begin

text \<open>
  What every component of the model shares: Go's error values, panics and optional pointers,
  the functions of the packages \<open>strings\<close>, \<open>slices\<close> and \<open>strconv\<close> that the program calls,
  the generic lemmas about them, reachability for step relations and the locale in which a
  step relation's invariant is proved once.

  Conventions. A Go string is a \<open>string\<close> (a list of bytes). A Go \<open>error\<close> that comes out of an
  \<open>erc.Collector\<close> is the list of the non-nil errors that the code handed to the collector, in
  that order; the nil error is the empty list (\<open>Resolve()\<close> returns nil exactly when nothing
  was pushed). A call that can panic returns an \<open>outcome\<close>. A pointer that may be nil is an
  \<open>option\<close>. The generic combinators of the iterator library (\<open>Convert\<close>, \<open>Keep\<close>, \<open>Remove\<close>,
  \<open>Slice\<close>, \<open>Collect\<close>) are the list functions \<open>map\<close> and \<open>filter\<close> and the identity.
\<close>

named_theorems go_str \<open>facts on the string functions\<close>
named_theorems go_err \<open>facts on collected errors\<close>

section \<open>Errors, panics, nil\<close>

datatype go_arg = S string | I int | L "string list"

datatype go_error =
    Errf string "go_arg list"
  | Wrapf "go_error list" string "go_arg list"

type_synonym errors = "go_error list"

datatype 'a outcome = Return 'a | Panic go_error

definition nil_deref :: go_error where
  "nil_deref = Errf ''invalid memory address or nil pointer dereference'' []"

definition index_out_of_range :: go_error where
  "index_out_of_range = Errf ''index out of range'' []"

text \<open>\<open>ec.If(cond, err)\<close>, \<open>ec.Whenf(cond, ...)\<close>: push when the condition holds;
  \<open>ec.Wrapf(err, ...)\<close>: push an annotated error when there is one.\<close>

definition when_err :: "bool \<Rightarrow> go_error \<Rightarrow> errors" where
  "when_err b e = (if b then [e] else [])"

definition wrap_errs :: "errors \<Rightarrow> string \<Rightarrow> go_arg list \<Rightarrow> errors" where
  "wrap_errs es f as = (if es = [] then [] else [Wrapf es f as])"

lemma when_err_nil [simp, go_err]: "when_err b e = [] \<longleftrightarrow> \<not> b"
  by (simp add: when_err_def)

lemma when_err_True [simp]: "when_err True e = [e]" and when_err_False [simp]: "when_err False e = []"
  by (simp_all add: when_err_def)

lemma set_when_err [simp]: "set (when_err b e) = (if b then {e} else {})"
  by (simp add: when_err_def)

lemma wrap_errs_nil [simp, go_err]: "wrap_errs es f as = [] \<longleftrightarrow> es = []"
  by (simp add: wrap_errs_def)

fun opt_err :: "go_error option \<Rightarrow> errors" where
  "opt_err None = []"
| "opt_err (Some e) = [e]"

text \<open>\<open>stw.DerefZ(p)\<close>: the zero value for a nil pointer.\<close>

definition deref_z :: "'a \<Rightarrow> 'a option \<Rightarrow> 'a" where
  "deref_z z p = (case p of None \<Rightarrow> z | Some v \<Rightarrow> v)"

lemma deref_z_simps [simp]: "deref_z z None = z" "deref_z z (Some v) = v"
  by (simp_all add: deref_z_def)

section \<open>Strings\<close>

definition has_prefix :: "string \<Rightarrow> string \<Rightarrow> bool" where
  "has_prefix s p \<longleftrightarrow> take (length p) s = p"

definition has_suffix :: "string \<Rightarrow> string \<Rightarrow> bool" where
  "has_suffix s p \<longleftrightarrow> has_prefix (rev s) (rev p)"

fun str_contains :: "string \<Rightarrow> string \<Rightarrow> bool" where
  "str_contains [] t \<longleftrightarrow> t = []"
| "str_contains (c # s) t \<longleftrightarrow> has_prefix (c # s) t \<or> str_contains s t"

text \<open>\<open>strings.ContainsAny(s, chars)\<close>\<close>

definition contains_any :: "string \<Rightarrow> string \<Rightarrow> bool" where
  "contains_any s cs \<longleftrightarrow> (\<exists>c \<in> set s. c \<in> set cs)"

text \<open>\<open>strings.Split(s, c)\<close> for a separator of one byte; \<open>strings.Join(parts, sep)\<close>.\<close>

fun split_on :: "char \<Rightarrow> string \<Rightarrow> string list" where
  "split_on c [] = [[]]"
| "split_on c (x # xs) =
     (if x = c then [] # split_on c xs
      else (case split_on c xs of [] \<Rightarrow> [[x]] | p # ps \<Rightarrow> (x # p) # ps))"

fun join_with :: "string \<Rightarrow> string list \<Rightarrow> string" where
  "join_with sep [] = []"
| "join_with sep [x] = x"
| "join_with sep (x # y # ys) = x @ sep @ join_with sep (y # ys)"

text \<open>\<open>strings.ReplaceAll(s, old, new)\<close>: replace the occurrences from the left, without
  overlap; an empty \<open>old\<close> matches before every byte and at the end.\<close>

function replace_all :: "string \<Rightarrow> string \<Rightarrow> string \<Rightarrow> string" where
  "replace_all [] old new = (if old = [] then new else [])"
| "replace_all (c # s) old new =
     (if old = [] then new @ [c] @ replace_all s old new
      else if has_prefix (c # s) old
        then new @ replace_all (drop (length old) (c # s)) old new
        else c # replace_all s old new)"
  by pat_completeness auto
termination
proof (relation "measure (\<lambda>(s, old, new). length s)", goal_cases)
  case (3 c s old new)
  then show ?case by (cases old) auto
qed auto

text \<open>\<open>strings.Replace(s, old, new, 1)\<close>: the first occurrence only.\<close>

fun replace_first :: "string \<Rightarrow> string \<Rightarrow> string \<Rightarrow> string" where
  "replace_first [] old new = (if old = [] then new else [])"
| "replace_first (c # s) old new =
     (if has_prefix (c # s) old then new @ drop (length old) (c # s)
      else c # replace_first s old new)"

text \<open>\<open>strings.TrimSpace\<close>, \<open>strings.TrimLeft\<close>, \<open>strings.Trim\<close> and \<open>strings.Fields\<close>
  on ASCII text.\<close>

definition is_space :: "char \<Rightarrow> bool" where
  "is_space c \<longleftrightarrow> c \<in> set [CHR 0x20, CHR 0x09, CHR 0x0A, CHR 0x0B, CHR 0x0C, CHR 0x0D]"

definition trim_left :: "string \<Rightarrow> string \<Rightarrow> string" where
  "trim_left s cs = dropWhile (\<lambda>c. c \<in> set cs) s"

definition trim :: "string \<Rightarrow> string \<Rightarrow> string" where
  "trim s cs = rev (trim_left (rev (trim_left s cs)) cs)"

definition trim_space :: "string \<Rightarrow> string" where
  "trim_space s = rev (dropWhile is_space (rev (dropWhile is_space s)))"

function str_fields :: "string \<Rightarrow> string list" where
  "str_fields s =
     (let t = dropWhile is_space s
      in if t = [] then []
         else takeWhile (\<lambda>c. \<not> is_space c) t # str_fields (dropWhile (\<lambda>c. \<not> is_space c) t))"
  by pat_completeness auto
termination
proof (relation "measure length", goal_cases)
  case (2 s t)
  then obtain a r where t: "t = a # r" by (meson neq_Nil_conv)
  have "length t \<le> length s" using 2 by (simp add: length_dropWhile_le)
  moreover have "\<not> is_space a" using 2 t hd_dropWhile[of is_space s] by force
  moreover have "length (dropWhile (\<lambda>c. \<not> is_space c) r) \<le> length r"
    by (rule length_dropWhile_le)
  ultimately show ?case using t by simp
qed auto

declare str_fields.simps [simp del]

subsection \<open>Facts\<close>

lemma has_prefix_Nil [simp, go_str]: "has_prefix s []"
  by (simp add: has_prefix_def)

lemma has_prefix_append [simp, go_str]: "has_prefix (p @ s) p"
  by (simp add: has_prefix_def)

lemma has_prefix_iff [go_str]: "has_prefix s p \<longleftrightarrow> (\<exists>r. s = p @ r)"
  by (metis append_take_drop_id has_prefix_append has_prefix_def)

lemma has_suffix_iff [go_str]: "has_suffix s p \<longleftrightarrow> (\<exists>r. s = r @ p)"
  unfolding has_suffix_def has_prefix_iff
  by (metis rev_append rev_rev_ident)

lemma str_contains_iff [go_str]: "str_contains s t \<longleftrightarrow> (\<exists>a b. s = a @ t @ b)"
proof (induction s)
  case Nil
  then show ?case by auto
next
  case (Cons c s)
  show ?case
  proof
    assume "str_contains (c # s) t"
    then consider "has_prefix (c # s) t" | "str_contains s t" by auto
    then show "\<exists>a b. c # s = a @ t @ b"
    proof cases
      case 1
      then show ?thesis by (metis append_Nil has_prefix_iff)
    next
      case 2
      with Cons show ?thesis by (metis append_Cons)
    qed
  next
    assume "\<exists>a b. c # s = a @ t @ b"
    then obtain a b where ab: "c # s = a @ t @ b" by blast
    show "str_contains (c # s) t"
    proof (cases a)
      case Nil
      with ab have "has_prefix (c # s) t" by (simp add: has_prefix_iff)
      then show ?thesis by simp
    next
      case (Cons d a')
      with ab have "s = a' @ t @ b" by simp
      with Cons.IH show ?thesis by auto
    qed
  qed
qed

lemma split_on_not_Nil [simp, go_str]: "split_on c s \<noteq> []"
  by (induction s) (auto split: list.splits)

lemma join_split [simp, go_str]: "join_with [c] (split_on c s) = s"
proof (induction s)
  case Nil
  then show ?case by simp
next
  case (Cons x s)
  obtain p ps where ps: "split_on c s = p # ps" by (meson neq_Nil_conv split_on_not_Nil)
  with Cons show ?case by (cases ps) auto
qed

lemma split_on_no_sep [simp, go_str]: "c \<notin> set s \<Longrightarrow> split_on c s = [s]"
  by (induction s) auto

lemma split_on_append [go_str]:
  "c \<notin> set s \<Longrightarrow> split_on c (s @ c # t) = s # split_on c t"
  by (induction s) auto

lemma split_on_append_gen [go_str]:
  "split_on c (s @ c # t) = split_on c s @ split_on c t"
  by (induction s) (auto split: list.splits)

lemma split_on_elem: "p \<in> set (split_on c s) \<Longrightarrow> c \<notin> set p"
  by (induction s arbitrary: p) (auto split: if_splits list.splits)

lemma split_join [go_str]:
  "xs \<noteq> [] \<Longrightarrow> \<forall>x \<in> set xs. c \<notin> set x \<Longrightarrow> split_on c (join_with [c] xs) = xs"
  by (induction "[c]" xs rule: join_with.induct) (auto simp: split_on_append)

lemma split_join_gen [go_str]:
  "xs \<noteq> [] \<Longrightarrow> split_on c (join_with [c] xs) = concat (map (split_on c) xs)"
  by (induction "[c]" xs rule: join_with.induct) (auto simp: split_on_append_gen)

lemma replace_all_absent [go_str]:
  "old \<noteq> [] \<Longrightarrow> \<not> str_contains s old \<Longrightarrow> replace_all s old new = s"
  by (induction s old new rule: replace_all.induct) (auto simp: has_prefix_def)

lemma trim_space_Nil [simp]: "trim_space [] = []"
  by (simp add: trim_space_def)

lemma trim_space_eq_Nil: "trim_space s = [] \<longleftrightarrow> (\<forall>c \<in> set s. is_space c)"
proof -
  have "dropWhile is_space s = [] \<or> \<not> is_space (hd (dropWhile is_space s))"
    by (metis hd_dropWhile)
  then have "(\<forall>c \<in> set (dropWhile is_space s). is_space c) \<longleftrightarrow> dropWhile is_space s = []"
    by (metis emptyE empty_set hd_in_set)
  then show ?thesis by (simp add: trim_space_def dropWhile_eq_Nil_conv)
qed

section \<open>Decimal numbers\<close>

text \<open>\<open>fmt.Fprint\<close> of an integer and \<open>strconv.ParseInt(s, 10, 64)\<close>.\<close>

definition digit_char :: "nat \<Rightarrow> char" where
  "digit_char d = char_of (48 + d)"

definition is_digit :: "char \<Rightarrow> bool" where
  "is_digit c \<longleftrightarrow> 48 \<le> (of_char c :: nat) \<and> (of_char c :: nat) \<le> 57"

definition digit_val :: "char \<Rightarrow> nat" where
  "digit_val c = of_char c - 48"

fun show_nat :: "nat \<Rightarrow> string" where
  "show_nat n = (if n < 10 then [digit_char n] else show_nat (n div 10) @ [digit_char (n mod 10)])"

declare show_nat.simps [simp del]

definition show_int :: "int \<Rightarrow> string" where
  "show_int i = (if i < 0 then CHR ''-'' # show_nat (nat (- i)) else show_nat (nat i))"

text \<open>The value of a signed 64 bit integer after an operation on integers: it wraps around.\<close>

definition wrap64 :: "int \<Rightarrow> int" where
  "wrap64 i = (i + 9223372036854775808) mod 18446744073709551616 - 9223372036854775808"

lemma wrap64_id: "- (2 ^ 63) \<le> i \<Longrightarrow> i < 2 ^ 63 \<Longrightarrow> wrap64 i = i"
  by (simp add: wrap64_def)

definition digits_val :: "string \<Rightarrow> nat" where
  "digits_val s = foldl (\<lambda>n c. 10 * n + digit_val c) 0 s"

definition parse_digits :: "string \<Rightarrow> nat option" where
  "parse_digits s = (if s \<noteq> [] \<and> list_all is_digit s then Some (digits_val s) else None)"

definition parse_int64 :: "string \<Rightarrow> go_error + int" where
  "parse_int64 s =
     (let (neg, ds) = (case s of
          c # r \<Rightarrow> if c = CHR ''-'' then (True, r) else if c = CHR ''+'' then (False, r) else (False, s)
        | [] \<Rightarrow> (False, s))
      in case parse_digits ds of
           None \<Rightarrow> Inl (Errf ''invalid syntax'' [S s])
         | Some n \<Rightarrow>
             (if \<not> neg \<and> 2 ^ 63 \<le> n \<or> neg \<and> 2 ^ 63 < n
              then Inl (Errf ''value out of range'' [S s])
              else Inr (if neg then - int n else int n)))"

lemma of_char_digit [simp]: "d < 10 \<Longrightarrow> (of_char (digit_char d) :: nat) = 48 + d"
  by (simp add: digit_char_def)

lemma digit_char_props [simp]:
  "d < 10 \<Longrightarrow> is_digit (digit_char d)" "d < 10 \<Longrightarrow> digit_val (digit_char d) = d"
  by (simp_all add: is_digit_def digit_val_def)

lemma digits_val_snoc: "digits_val (s @ [c]) = 10 * digits_val s + digit_val c"
  by (simp add: digits_val_def)

lemma show_nat_digits [simp]: "list_all is_digit (show_nat n)"
  by (induction n rule: show_nat.induct) (subst show_nat.simps, simp)

lemma show_nat_not_Nil [simp]: "show_nat n \<noteq> []"
  by (subst show_nat.simps) simp

lemma digits_val_show [simp]: "digits_val (show_nat n) = n"
proof (induction n rule: show_nat.induct)
  case (1 n)
  show ?case
  proof (cases "n < 10")
    case True
    then show ?thesis by (subst show_nat.simps) (simp add: digits_val_def)
  next
    case False
    with 1 show ?thesis by (subst show_nat.simps) (simp add: digits_val_snoc)
  qed
qed

lemma parse_digits_show [simp]: "parse_digits (show_nat n) = Some n"
  by (simp add: parse_digits_def)

lemma is_digit_not_sign [simp]: "\<not> is_digit (CHR ''-'')" "\<not> is_digit (CHR ''+'')"
  by (simp_all add: is_digit_def)

lemma parse_int64_show:
  assumes "- (2 ^ 63) \<le> i" and "i < 2 ^ 63"
  shows "parse_int64 (show_int i) = Inr i"
proof (cases "i < 0")
  case True
  with assms show ?thesis by (auto simp: parse_int64_def show_int_def Let_def)
next
  case False
  obtain c r where cr: "show_nat (nat i) = c # r" by (meson neq_Nil_conv show_nat_not_Nil)
  then have "is_digit c" using show_nat_digits[of "nat i"] by simp
  then have "c \<noteq> CHR ''-''" "c \<noteq> CHR ''+''" by auto
  with cr False assms parse_digits_show[of "nat i"] show ?thesis
    by (auto simp: parse_int64_def show_int_def Let_def)
qed

lemma show_nat_set: "c \<in> set (show_nat n) \<Longrightarrow> is_digit c"
  using show_nat_digits[of n] by (simp add: list_all_iff)

lemma show_int_no_dash: "0 \<le> i \<Longrightarrow> CHR ''-'' \<notin> set (show_int i)"
  using show_nat_set[of "CHR ''-''"] by (auto simp: show_int_def)

section \<open>Sorting by a comparison function\<close>

text \<open>\<open>slices.SortStableFunc(xs, cmp)\<close>. For a comparison that is a total preorder the stable
  sort of a list is unique, so that insertion computes it.\<close>

fun insort_cmp :: "('a \<Rightarrow> 'a \<Rightarrow> int) \<Rightarrow> 'a \<Rightarrow> 'a list \<Rightarrow> 'a list" where
  "insort_cmp cmp x [] = [x]"
| "insort_cmp cmp x (y # ys) = (if cmp x y \<le> 0 then x # y # ys else y # insort_cmp cmp x ys)"

definition sort_cmp :: "('a \<Rightarrow> 'a \<Rightarrow> int) \<Rightarrow> 'a list \<Rightarrow> 'a list" where
  "sort_cmp cmp xs = foldr (insort_cmp cmp) xs []"

text \<open>\<open>cmp.Compare\<close> on an ordered type.\<close>

definition compare :: "'a::linorder \<Rightarrow> 'a \<Rightarrow> int" where
  "compare a b = (if a < b then - 1 else if b < a then 1 else 0)"

definition cmp_ok :: "('a \<Rightarrow> 'a \<Rightarrow> int) \<Rightarrow> bool" where
  "cmp_ok cmp \<longleftrightarrow> (\<forall>x y. cmp x y \<le> 0 \<or> cmp y x \<le> 0) \<and>
     (\<forall>x y z. cmp x y \<le> 0 \<longrightarrow> cmp y z \<le> 0 \<longrightarrow> cmp x z \<le> 0)"

lemma mset_insort_cmp [simp]: "mset (insort_cmp cmp x xs) = add_mset x (mset xs)"
  by (induction xs) auto

lemma mset_sort_cmp [simp]: "mset (sort_cmp cmp xs) = mset xs"
  unfolding sort_cmp_def by (induction xs) auto

lemma set_sort_cmp [simp]: "set (sort_cmp cmp xs) = set xs"
  by (metis mset_sort_cmp set_mset_mset)

lemma length_sort_cmp [simp]: "length (sort_cmp cmp xs) = length xs"
  by (metis mset_sort_cmp size_mset)

lemma sorted_sort_cmp:
  assumes "cmp_ok cmp"
  shows "sorted_wrt (\<lambda>x y. cmp x y \<le> 0) (sort_cmp cmp xs)"
proof -
  have trans: "cmp x y \<le> 0 \<Longrightarrow> cmp y z \<le> 0 \<Longrightarrow> cmp x z \<le> 0"
    and total: "cmp x y \<le> 0 \<or> cmp y x \<le> 0" for x y z
    using assms unfolding cmp_ok_def by blast+
  have "sorted_wrt (\<lambda>x y. cmp x y \<le> 0) (insort_cmp cmp x ys)"
    if "sorted_wrt (\<lambda>x y. cmp x y \<le> 0) ys" for x ys
    using that
  proof (induction ys)
    case (Cons y ys)
    have set_ins: "set (insort_cmp cmp x ys) = insert x (set ys)"
      by (metis mset_insort_cmp set_mset_add_mset_insert set_mset_mset)
    show ?case
    proof (cases "cmp x y \<le> 0")
      case True
      with Cons.prems show ?thesis by (auto intro: trans)
    next
      case False
      then have "cmp y x \<le> 0" using total by blast
      with False Cons show ?thesis by (auto simp: set_ins)
    qed
  qed simp
  then show ?thesis unfolding sort_cmp_def by (induction xs) auto
qed

text \<open>Sorting what is sorted, and sorting by a function of the elements.\<close>

lemma insort_cmp_least: "\<forall>y \<in> set ys. cmp x y \<le> 0 \<Longrightarrow> insort_cmp cmp x ys = x # ys"
  by (cases ys) auto

lemma sort_cmp_sorted: "sorted_wrt (\<lambda>x y. cmp x y \<le> 0) xs \<Longrightarrow> sort_cmp cmp xs = xs"
  unfolding sort_cmp_def by (induction xs) (auto simp: insort_cmp_least)

lemma sort_cmp_idem: "cmp_ok cmp \<Longrightarrow> sort_cmp cmp (sort_cmp cmp xs) = sort_cmp cmp xs"
  using sort_cmp_sorted sorted_sort_cmp by blast

lemma map_insort_cmp: "map f (insort_cmp (\<lambda>a b. cmp (f a) (f b)) x xs) = insort_cmp cmp (f x) (map f xs)"
  by (induction xs) auto

lemma map_sort_cmp: "map f (sort_cmp (\<lambda>a b. cmp (f a) (f b)) xs) = sort_cmp cmp (map f xs)"
  unfolding sort_cmp_def by (induction xs) (auto simp: map_insort_cmp)

lemma compare_le [simp]: "compare a b \<le> 0 \<longleftrightarrow> a \<le> b"
  by (auto simp: compare_def)

lemma compare_eq [simp]: "compare a b = 0 \<longleftrightarrow> a = b"
  by (auto simp: compare_def)

section \<open>Maps, lookups and lists\<close>

text \<open>A Go map whose keys are listed: the pairs in some order, the later store of a key
  replacing the earlier one.\<close>

fun upd :: "'k \<Rightarrow> 'v \<Rightarrow> ('k \<times> 'v) list \<Rightarrow> ('k \<times> 'v) list" where
  "upd k v [] = [(k, v)]"
| "upd k v ((k', v') # ps) = (if k = k' then (k, v) # ps else (k', v') # upd k v ps)"

lemma map_of_upd [simp]: "map_of (upd k v ps) = (map_of ps)(k \<mapsto> v)"
  by (induction ps) auto

lemma fst_set_upd [simp]: "fst ` set (upd k v ps) = insert k (fst ` set ps)"
  by (induction k v ps rule: upd.induct) auto

lemma distinct_upd [simp]: "distinct (map fst ps) \<Longrightarrow> distinct (map fst (upd k v ps))"
proof (induction k v ps rule: upd.induct)
  case (2 k v k' v' ps)
  then show ?case by (cases "k = k'") (simp_all add: image_iff [symmetric])
qed simp

lemma map_of_rev_distinct: "distinct (map fst ps) \<Longrightarrow> map_of (rev ps) = map_of ps"
proof (induction ps)
  case (Cons p ps)
  then have "map_of ps (fst p) = None" by (simp add: map_of_eq_None_iff)
  with Cons show ?case by (cases p) (auto simp: fun_eq_iff map_add_def split: option.splits)
qed simp

lemma find_SomeD: "find P xs = Some x \<Longrightarrow> P x \<and> x \<in> set xs"
  by (induction xs) (auto split: if_splits)

section \<open>Step relations and their invariants\<close>

inductive reach :: "('s \<Rightarrow> bool) \<Rightarrow> ('s \<Rightarrow> 's \<Rightarrow> bool) \<Rightarrow> 's \<Rightarrow> bool"
  for init step where
  reach_init: "init s \<Longrightarrow> reach init step s"
| reach_step: "reach init step s \<Longrightarrow> step s t \<Longrightarrow> reach init step t"

text \<open>An invariant holds at the start and is kept by every step; then it holds in every
  state that can be reached, and along every run.\<close>

locale step_invariant =
  fixes init :: "'s \<Rightarrow> bool"
    and step :: "'s \<Rightarrow> 's \<Rightarrow> bool"
    and inv :: "'s \<Rightarrow> bool"
  assumes inv_init: "init s \<Longrightarrow> inv s"
    and inv_step: "inv s \<Longrightarrow> step s t \<Longrightarrow> inv t"
begin

lemma inv_reach: "reach init step s \<Longrightarrow> inv s"
  by (induction rule: reach.induct) (auto intro: inv_init inv_step)

lemma inv_steps: "step\<^sup>*\<^sup>* s t \<Longrightarrow> inv s \<Longrightarrow> inv t"
  by (induction rule: rtranclp_induct) (auto intro: inv_step)

lemma reach_steps: "reach init step s \<Longrightarrow> step\<^sup>*\<^sup>* s t \<Longrightarrow> inv t"
  by (blast intro: inv_steps inv_reach)

end

text \<open>Merging of configurations: a zero configuration changes nothing and merging is
  associative. Reading the linked files one after another is then the same as reading their
  merge, whatever the grouping.\<close>

locale config_join =
  fixes join :: "'c \<Rightarrow> 'c \<Rightarrow> 'c"
    and zero :: 'c
  assumes join_zero_right: "join c zero = c"
    and join_zero_left: "join zero c = c"
    and join_assoc: "join (join a b) c = join a (join b c)"
begin

lemma foldl_join: "foldl join c xs = join c (foldl join zero xs)"
proof (induction xs rule: rev_induct)
  case Nil
  show ?case by (simp add: join_zero_right)
next
  case (snoc x xs)
  then show ?case by (simp add: join_assoc)
qed

lemma foldl_join_append:
  "foldl join zero (xs @ ys) = join (foldl join zero xs) (foldl join zero ys)"
  by (simp add: foldl_join [of "foldl join zero xs"])

lemma foldl_join_replicate_zero: "foldl join c (replicate n zero) = c"
  by (induction n) (simp_all add: join_zero_right)

end

section \<open>Registries\<close>

text \<open>A table that registers a value under an acceptable key once: a later registration of the
  key is refused and changes nothing.\<close>

locale registry =
  fixes empty :: 's
    and lookup :: "'s \<Rightarrow> 'k \<Rightarrow> 'v option"
    and register :: "'s \<Rightarrow> 'k \<Rightarrow> 'v \<Rightarrow> bool \<times> 's"
    and ok :: "'k \<Rightarrow> bool"
  assumes lookup_empty: "lookup empty k = None"
    and register_ok: "fst (register s k v) \<longleftrightarrow> ok k \<and> lookup s k = None"
    and lookup_register:
      "lookup (snd (register s k v)) k' = (if fst (register s k v) \<and> k' = k then Some v else lookup s k')"
begin

definition register_all :: "('k \<times> 'v) list \<Rightarrow> 's \<Rightarrow> 's" where
  "register_all kvs s = fold (\<lambda>(k, v) s. snd (register s k v)) kvs s"

lemma lookup_register_all:
  "lookup (register_all kvs s) k =
     (case lookup s k of Some v \<Rightarrow> Some v | None \<Rightarrow> if ok k then map_of kvs k else None)"
proof (induction kvs arbitrary: s)
  case Nil
  show ?case by (simp add: register_all_def split: option.splits)
next
  case (Cons kv kvs)
  obtain k' v' where kv: "kv = (k', v')" by fastforce
  have "register_all (kv # kvs) s = register_all kvs (snd (register s k' v'))"
    by (simp add: register_all_def kv)
  with Cons show ?case by (auto simp: kv lookup_register register_ok split: option.splits)
qed

lemma lookup_all_empty: "lookup (register_all kvs empty) k = (if ok k then map_of kvs k else None)"
  by (simp add: lookup_register_all lookup_empty)

lemma register_again: "\<not> fst (register (snd (register s k v)) k w)"
  by (auto simp: register_ok lookup_register split: if_splits)

end

text \<open>The elements up to the first one that satisfies a predicate, that one included.\<close>

fun upto_first :: "('a \<Rightarrow> bool) \<Rightarrow> 'a list \<Rightarrow> 'a list" where
  "upto_first P [] = []"
| "upto_first P (x # xs) = (if P x then [x] else x # upto_first P xs)"

lemma upto_first_none: "\<forall>x \<in> set xs. \<not> P x \<Longrightarrow> upto_first P xs = xs"
  by (induction xs) auto

end
