(* ===== verification/Go_Path.thy ===== *)
theory Go_Path
  imports Go_Prelude
begin

text \<open>
  The functions of \<open>path/filepath\<close> that the program calls (on a system whose separator is the
  slash), and what the program can observe of a file system through \<open>os.Stat\<close>.
\<close>

named_theorems go_path \<open>facts on file paths\<close>

section \<open>Paths\<close>

fun clean_parts :: "bool \<Rightarrow> string list \<Rightarrow> string list \<Rightarrow> string list" where
  "clean_parts rooted acc [] = rev acc"
| "clean_parts rooted acc (p # ps) =
     (if p = [] \<or> p = ''.'' then clean_parts rooted acc ps
      else if p = ''..'' then
        (case acc of
           [] \<Rightarrow> clean_parts rooted (if rooted then [] else [''..'']) ps
         | a # as \<Rightarrow>
             if a = ''..'' then clean_parts rooted (''..'' # acc) ps
             else clean_parts rooted as ps)
      else clean_parts rooted (p # acc) ps)"

definition is_abs :: "string \<Rightarrow> bool" where
  "is_abs s = has_prefix s ''/''"

definition path_clean :: "string \<Rightarrow> string" where
  "path_clean s =
     (if s = [] then ''.''
      else let out = join_with ''/'' (clean_parts (is_abs s) [] (split_on (CHR ''/'') s))
           in if is_abs s then CHR ''/'' # out else if out = [] then ''.'' else out)"

text \<open>\<open>filepath.Join\<close> drops empty elements at the front and cleans the rest.\<close>

definition path_join :: "string list \<Rightarrow> string" where
  "path_join es =
     (let r = dropWhile (\<lambda>e. e = []) es in if r = [] then [] else path_clean (join_with ''/'' r))"

definition last_elem :: "string \<Rightarrow> string" where
  "last_elem s = rev (takeWhile (\<lambda>c. c \<noteq> CHR ''/'') (rev s))"

definition path_base :: "string \<Rightarrow> string" where
  "path_base s =
     (if s = [] then ''.''
      else let t = rev (dropWhile (\<lambda>c. c = CHR ''/'') (rev s))
           in if t = [] then ''/'' else last_elem t)"

definition path_dir :: "string \<Rightarrow> string" where
  "path_dir s = path_clean (rev (dropWhile (\<lambda>c. c \<noteq> CHR ''/'') (rev s)))"

text \<open>\<open>filepath.Ext\<close>: from the last dot of the last element, the dot included; empty when
  there is none.\<close>

definition path_ext :: "string \<Rightarrow> string" where
  "path_ext s =
     (let b = last_elem s
      in if CHR ''.'' \<in> set b then CHR ''.'' # rev (takeWhile (\<lambda>c. c \<noteq> CHR ''.'') (rev b)) else [])"

lemma path_ext_dot [go_path]: "path_ext s = [] \<or> (\<exists>r. path_ext s = CHR ''.'' # r)"
  by (simp add: path_ext_def Let_def)

lemma path_clean_not_Nil [simp, go_path]: "path_clean s \<noteq> []"
  by (simp add: path_clean_def Let_def)

lemma path_dir_not_Nil [simp, go_path]: "path_dir s \<noteq> []"
  by (simp add: path_dir_def)

lemma path_base_not_Nil [simp, go_path]: "path_base s \<noteq> []"
proof -
  define t where "t = rev (dropWhile (\<lambda>c. c = CHR ''/'') (rev s))"
  have "last_elem t \<noteq> []" if "t \<noteq> []"
  proof -
    from that have "hd (rev t) \<noteq> CHR ''/''"
      unfolding t_def using hd_dropWhile[of "\<lambda>c. c = CHR ''/''" "rev s"] by simp
    with that show ?thesis unfolding last_elem_def by (cases "rev t") auto
  qed
  then show ?thesis by (simp add: path_base_def t_def Let_def)
qed

lemma is_abs_clean [simp, go_path]: "is_abs s \<Longrightarrow> is_abs (path_clean s)"
  by (auto simp: path_clean_def is_abs_def has_prefix_def Let_def)

lemma clean_parts_plain:
  "\<forall>p \<in> set ps. p \<noteq> [] \<and> p \<noteq> ''.'' \<and> p \<noteq> ''..'' \<Longrightarrow>
     clean_parts rooted acc ps = rev acc @ ps"
  by (induction ps arbitrary: acc) auto

text \<open>A path that is already clean is left alone.\<close>

lemma path_clean_plain [go_path]:
  assumes "\<forall>p \<in> set ps. p \<noteq> [] \<and> p \<noteq> ''.'' \<and> p \<noteq> ''..'' \<and> CHR ''/'' \<notin> set p"
    and "ps \<noteq> []"
  shows "path_clean (CHR ''/'' # join_with ''/'' ps) = CHR ''/'' # join_with ''/'' ps"
proof -
  have "split_on (CHR ''/'') (CHR ''/'' # join_with ''/'' ps) = [] # ps"
    using assms by (simp add: split_join)
  then show ?thesis
    using assms by (simp add: path_clean_def is_abs_def has_prefix_def clean_parts_plain)
qed

section \<open>What a program sees of the file system\<close>

text \<open>The result of \<open>os.Stat\<close>: a file or directory, \<open>os.ErrNotExist\<close>, another error (the
  information is nil in the last two cases).\<close>

datatype stat_result = Found bool | Not_Exist | Stat_Error go_error

definition is_not_exist :: "stat_result \<Rightarrow> bool" where
  "is_not_exist r = (case r of Not_Exist \<Rightarrow> True | _ \<Rightarrow> False)"

lemma is_not_exist_iff [simp]: "is_not_exist r \<longleftrightarrow> r = Not_Exist"
  by (cases r) (simp_all add: is_not_exist_def)

end
