(* ===== verification/Util.thy ===== *)
theory Util
  imports Go_Path
begin

text \<open>
  The package \<open>util\<close>: dotted names (\<open>dots.go\<close>), defaults (\<open>heplers.go\<close>), paths (\<open>path.go\<close>)
  and file formats (\<open>marshal.go\<close>). Nil and empty slices are both the empty list here.
\<close>

section \<open>heplers.go, dots.go\<close>

definition Default :: "'a \<Rightarrow> 'a \<Rightarrow> 'a \<Rightarrow> 'a" where
  "Default zero value defaultValue = (if value = zero then defaultValue else value)"

definition IsZero :: "'a \<Rightarrow> 'a \<Rightarrow> bool" where
  "IsZero z i \<longleftrightarrow> i = z"

definition IsWhitespace :: "string \<Rightarrow> bool" where
  "IsWhitespace s \<longleftrightarrow> trim_space s = []"

definition NilWhenEmpty :: "'a list \<Rightarrow> 'a list" where
  "NilWhenEmpty xs = (if 0 < length xs then xs else [])"

text \<open>\<open>slices.DeleteFunc\<close> compacts its argument in place: the result, and what the caller's
  slice holds afterwards (the freed tail is zeroed).\<close>

definition DeleteFunc :: "'a \<Rightarrow> 'a list \<Rightarrow> ('a \<Rightarrow> bool) \<Rightarrow> 'a list \<times> 'a list" where
  "DeleteFunc z xs del =
     (let ys = filter (\<lambda>x. \<not> del x) xs in (ys, ys @ replicate (length xs - length ys) z))"

definition MakeSparse :: "'a \<Rightarrow> 'a list \<Rightarrow> 'a list" where
  "MakeSparse z xs = NilWhenEmpty (fst (DeleteFunc z xs (IsZero z)))"

definition DotJoinParts :: "string list \<Rightarrow> string" where
  "DotJoinParts elems = join_with ''.'' (MakeSparse [] elems)"

definition DotJoin :: "string list \<Rightarrow> string" where
  "DotJoin elems = DotJoinParts elems"

definition DotSplit :: "string \<Rightarrow> string list" where
  "DotSplit s = split_on (CHR ''.'') s"

fun JoinAnd :: "('a \<Rightarrow> bool) list \<Rightarrow> 'a \<Rightarrow> bool" where
  "JoinAnd [] x = True"
| "JoinAnd (fn # fns) x = (if \<not> fn x then False else JoinAnd fns x)"

fun JoinOr :: "('a \<Rightarrow> bool) list \<Rightarrow> 'a \<Rightarrow> bool" where
  "JoinOr [] x = False"
| "JoinOr (fn # fns) x = (if fn x then True else JoinOr fns x)"

definition SparseString :: "string list \<Rightarrow> string list" where
  "SparseString xs = NilWhenEmpty (fst (DeleteFunc [] xs (JoinAnd [IsZero [], IsWhitespace])))"

text \<open>\<open>Narrow\<close> indexes the source, which panics out of range.\<close>

fun Narrow :: "int list \<Rightarrow> 'a list \<Rightarrow> 'a list outcome" where
  "Narrow [] source = Return []"
| "Narrow (i # is) source =
     (if 0 \<le> i \<and> i < int (length source) then
        (case Narrow is source of
           Return out \<Rightarrow> Return (source ! nat i # out)
         | Panic e \<Rightarrow> Panic e)
      else Panic index_out_of_range)"

text \<open>A push iterator (\<open>iter.Seq\<close>) runs a loop body on each value until the body says stop;
  the body carries the state of the loop.\<close>

type_synonym ('a, 's) seq = "('a \<Rightarrow> 's \<Rightarrow> bool \<times> 's) \<Rightarrow> 's \<Rightarrow> 's"

fun Values :: "'a list \<Rightarrow> ('a, 's) seq" where
  "Values [] yield s = s"
| "Values (x # xs) yield s = (case yield x s of (go, s') \<Rightarrow> if go then Values xs yield s' else s')"

definition Filter :: "('a, 's) seq \<Rightarrow> ('a \<Rightarrow> bool) \<Rightarrow> ('a, 's) seq" where
  "Filter it pfn = (\<lambda>yield. it (\<lambda>v s. if pfn v then yield v s else (True, s)))"

definition Convert :: "('a \<Rightarrow> 'b) \<Rightarrow> ('a, 's) seq \<Rightarrow> ('b, 's) seq" where
  "Convert mpf it = (\<lambda>yield. it (\<lambda>v. yield (mpf v)))"

definition MakeSparseRefs :: "('a option, 's) seq \<Rightarrow> ('a, 's) seq" where
  "MakeSparseRefs it = Convert the (Filter it (\<lambda>i. i \<noteq> None))"

subsection \<open>Facts\<close>

lemma Default_simps [simp]: "Default z z d = d" "v \<noteq> z \<Longrightarrow> Default z v d = v"
  by (simp_all add: Default_def)

lemma Default_zero_right [simp]: "Default z v z = v"
  by (simp add: Default_def)

lemma Default_assoc [simp]: "Default z a (Default z b c) = Default z (Default z a b) c"
  by (simp add: Default_def)

lemma JoinAnd_list_all [simp]: "JoinAnd fns x \<longleftrightarrow> (\<forall>fn \<in> set fns. fn x)"
  by (induction fns) auto

lemma JoinOr_list_ex [simp]: "JoinOr fns x \<longleftrightarrow> (\<exists>fn \<in> set fns. fn x)"
  by (induction fns) auto

lemma MakeSparse_filter [simp]: "MakeSparse z xs = filter (\<lambda>x. x \<noteq> z) xs"
  by (simp add: MakeSparse_def NilWhenEmpty_def DeleteFunc_def IsZero_def Let_def)

lemma SparseString_filter [simp]: "SparseString xs = filter (\<lambda>x. x \<noteq> []) xs"
proof -
  have "(\<lambda>x. \<not> JoinAnd [IsZero [], IsWhitespace] x) = (\<lambda>x. x \<noteq> [])"
    by (auto simp: IsZero_def IsWhitespace_def)
  then show ?thesis by (simp add: SparseString_def NilWhenEmpty_def DeleteFunc_def Let_def)
qed

definition dotted_path :: "string \<Rightarrow> string list" where
  "dotted_path s = SparseString (DotSplit s)"

lemma dotted_path_Nil [simp]: "dotted_path [] = []"
  by (simp add: dotted_path_def DotSplit_def)

lemma dotted_path_plain: "s \<noteq> [] \<Longrightarrow> CHR ''.'' \<notin> set s \<Longrightarrow> dotted_path s = [s]"
  by (simp add: dotted_path_def DotSplit_def)

lemma dotted_path_eq: "dotted_path = (\<lambda>s. filter (\<lambda>x. x \<noteq> []) (split_on (CHR ''.'') s))"
  by (simp add: fun_eq_iff dotted_path_def DotSplit_def)

lemma dotted_path_DotJoin: "dotted_path (DotJoin xs) = concat (map dotted_path xs)"
proof -
  have skip: "concat (map dotted_path (filter (\<lambda>x. x \<noteq> []) xs)) = concat (map dotted_path xs)"
    by (induction xs) auto
  show ?thesis
  proof (cases "filter (\<lambda>x. x \<noteq> []) xs = []")
    case True
    with skip show ?thesis by (simp add: DotJoin_def DotJoinParts_def)
  next
    case False
    then have "dotted_path (DotJoin xs) = concat (map dotted_path (filter (\<lambda>x. x \<noteq> []) xs))"
      by (simp add: dotted_path_eq DotJoin_def DotJoinParts_def split_join_gen filter_concat comp_def)
    with skip show ?thesis by simp
  qed
qed

text \<open>Splitting a joined dotted name and dropping empty parts gives back the non-empty
  parts that were joined, when no part holds a dot itself.\<close>

theorem dots_roundtrip:
  assumes "\<forall>x \<in> set xs. CHR ''.'' \<notin> set x"
  shows "SparseString (DotSplit (DotJoin xs)) = MakeSparse [] xs"
proof -
  have "concat (map dotted_path xs) = filter (\<lambda>x. x \<noteq> []) xs"
    using assms by (induction xs) (auto simp: dotted_path_plain split: if_splits)
  then show ?thesis using dotted_path_DotJoin[of xs] by (simp add: dotted_path_def)
qed

theorem dots_roundtrip_witness:
  "SparseString (DotSplit (DotJoin [''repo'', [], ''pull'', ''sardis'']))
     = [''repo'', ''pull'', ''sardis'']"
  using dots_roundtrip [of "[''repo'', [], ''pull'', ''sardis'']"] by simp

lemma Filter_Values: "Filter (Values xs) pfn = Values (filter pfn xs)"
proof (intro ext)
  show "Filter (Values xs) pfn yield s = Values (filter pfn xs) yield s" for yield s
    by (induction xs arbitrary: s) (auto simp: Filter_def split: prod.splits)
qed

lemma Convert_Values: "Convert mpf (Values xs) = Values (map mpf xs)"
proof (intro ext)
  show "Convert mpf (Values xs) yield s = Values (map mpf xs) yield s" for yield s
    by (induction xs arbitrary: s) (auto simp: Convert_def split: prod.splits)
qed

text \<open>The push iterators of \<open>dots.go\<close> hand the loop body exactly the elements that the
  list functions select, in order, for every body, one that stops early included; dropping
  the nil references never dereferences one.\<close>

theorem seq_combinators_are_list_functions:
  "Filter (Values xs) pfn = Values (filter pfn xs) \<and>
   Convert mpf (Values ys) = Values (map mpf ys) \<and>
   MakeSparseRefs (Values (map Some zs @ None # map Some ws)) = Values (zs @ ws)"
  by (simp add: Filter_Values Convert_Values MakeSparseRefs_def comp_def)

section \<open>path.go\<close>

definition FileExists :: "(string \<Rightarrow> stat_result) \<Rightarrow> string \<Rightarrow> bool" where
  "FileExists stat path \<longleftrightarrow> \<not> is_not_exist (stat path)"

definition Apply :: "('a \<Rightarrow> 'a) \<Rightarrow> 'a list \<Rightarrow> 'a list" where
  "Apply fn xs = map fn xs"

definition TryExpandHomeDir :: "string \<Rightarrow> string \<Rightarrow> string" where
  "TryExpandHomeDir home s =
     (let s = trim_space s
      in if length s = 0 \<or> s ! 0 \<noteq> CHR ''~'' then s
         else if 1 < length s \<and> s ! 1 \<noteq> CHR ''/'' \<and> s ! 1 \<noteq> CHR 0x5C then s
         else path_join [home, drop 1 s])"

definition TryExpandHomeDirs :: "string \<Rightarrow> string list \<Rightarrow> string list" where
  "TryExpandHomeDirs home xs = Apply (TryExpandHomeDir home) xs"

definition TryCollapseHomeDir :: "string \<Rightarrow> string \<Rightarrow> string" where
  "TryCollapseHomeDir home s = (if has_prefix s home then replace_first s home ''~'' else s)"

text \<open>\<open>filepath.Abs\<close> against the working directory, after the expansion of the home
  directory by the process library (a parameter).\<close>

definition path_abs :: "string \<Rightarrow> string \<Rightarrow> string" where
  "path_abs cwd s = (if is_abs s then path_clean s else path_join [cwd, s])"

definition TryCollapsePwd :: "(string \<Rightarrow> string) \<Rightarrow> string \<Rightarrow> string \<Rightarrow> string" where
  "TryCollapsePwd jexpand cwd s =
     (let dir = path_abs cwd (jexpand s)
      in if has_prefix dir cwd then replace_first dir cwd ''.'' else s)"

text \<open>\<open>filepath.Walk\<close> calls the function on each visited path, in lexical order, with the
  error met at that path if there was one, and stops at the first error the function returns.\<close>

record visit =
  v_path :: string
  v_is_dir :: bool
  v_err :: "go_error option"

definition io_EOF :: go_error where
  "io_EOF = Errf ''EOF'' []"

fun walk :: "(visit \<Rightarrow> 's \<Rightarrow> go_error option \<times> 's) \<Rightarrow> visit list \<Rightarrow> 's \<Rightarrow> go_error option \<times> 's" where
  "walk f [] s = (None, s)"
| "walk f (v # vs) s =
     (case f v s of (None, s') \<Rightarrow> walk f vs s' | (Some e, s') \<Rightarrow> (Some e, s'))"

definition alacritty_visit :: "string \<Rightarrow> visit \<Rightarrow> string \<Rightarrow> go_error option \<times> string" where
  "alacritty_visit socketPrefix v out =
     (if v_err v \<noteq> None then (v_err v, out)
      else if v_is_dir v then (None, out)
      else if \<not> has_prefix (v_path v) socketPrefix then (None, out)
      else (Some io_EOF, v_path v))"

definition GetAlacrittySocketPath ::
    "string option \<Rightarrow> go_error + string \<Rightarrow> (string \<Rightarrow> visit list) \<Rightarrow> go_error + string" where
  "GetAlacrittySocketPath env uid tree =
     (case env of
        Some path \<Rightarrow> Inr path
      | None \<Rightarrow>
          (case uid of
             Inl e \<Rightarrow> Inl e
           | Inr uid \<Rightarrow>
               let base = path_join [''/run/user'', uid];
                   socketPrefix = path_join [base, ''Alacritty-:''];
                   (err, out) = walk (alacritty_visit socketPrefix) (tree base) []
               in if out = [] \<or> (err \<noteq> None \<and> err \<noteq> Some io_EOF)
                  then Inl (Wrapf (opt_err err) ''no socket [%s] found: %w'' [S out])
                  else Inr out))"

definition ssh_agent_visit :: "visit \<Rightarrow> string \<Rightarrow> go_error option \<times> string" where
  "ssh_agent_visit v out =
     (if v_err v \<noteq> None then (None, out)
      else if v_is_dir v then (None, out)
      else if \<not> has_prefix (v_path v) ''/tmp/ssh-'' then (None, out)
      else (Some io_EOF, v_path v))"

definition GetSSHAgentPath ::
    "string option \<Rightarrow> go_error + string \<Rightarrow> (string \<Rightarrow> bool) \<Rightarrow> (string \<Rightarrow> visit list) \<Rightarrow>
     go_error + string" where
  "GetSSHAgentPath env uid jexists tree =
     (case env of
        Some path \<Rightarrow> Inr path
      | None \<Rightarrow>
          (case uid of
             Inl e \<Rightarrow> Inl e
           | Inr uid \<Rightarrow>
               let path = path_join [''/run/user'', uid, ''ssh-agent.socket'']
               in if jexists path then Inr path
                  else
                    let (err, out) = walk ssh_agent_visit (tree ''/tmp'') []
                    in if out = [] \<or> err = None
                       then Inl (Errf ''could not find ssh socket'' [])
                       else Inr out))"

subsection \<open>Facts\<close>

lemma replace_first_prefix [simp]: "replace_first (p @ s) p new = new @ s"
proof (cases "p @ s")
  case Nil
  then show ?thesis by simp
next
  case (Cons c r)
  then have "has_prefix (c # r) p" by (metis has_prefix_append)
  with Cons show ?thesis by (metis append_eq_conv_conj replace_first.simps(2))
qed

lemma trim_space_id:
  assumes "s \<noteq> []" and "\<not> is_space (hd s)" and "\<not> is_space (last s)"
  shows "trim_space s = s"
proof -
  have "dropWhile is_space s = s" using assms by (cases s) auto
  moreover have "dropWhile is_space (rev s) = rev s"
    using assms by (cases "rev s") (auto simp: hd_rev [symmetric] dest: arg_cong[of _ _ hd])
  ultimately show ?thesis by (simp add: trim_space_def)
qed

definition plain_part :: "string \<Rightarrow> bool" where
  "plain_part p \<longleftrightarrow> p \<noteq> [] \<and> p \<noteq> ''.'' \<and> p \<noteq> ''..'' \<and> CHR ''/'' \<notin> set p"

definition abs_path :: "string list \<Rightarrow> string" where
  "abs_path ps = CHR ''/'' # join_with ''/'' ps"

lemma join_with_append:
  "xs \<noteq> [] \<Longrightarrow> ys \<noteq> [] \<Longrightarrow> join_with sep (xs @ ys) = join_with sep xs @ sep @ join_with sep ys"
  by (induction sep xs rule: join_with.induct) (auto simp: neq_Nil_conv)

lemma clean_parts_sparse:
  "\<forall>p \<in> set ps. p = [] \<or> plain_part p \<Longrightarrow>
     clean_parts r acc ps = rev acc @ filter (\<lambda>p. p \<noteq> []) ps"
  by (induction ps arbitrary: acc) (auto simp: plain_part_def)

lemma path_clean_sparse:
  assumes "\<forall>p \<in> set (split_on (CHR ''/'') t). p = [] \<or> plain_part p"
  shows "path_clean (CHR ''/'' # t) = abs_path (filter (\<lambda>p. p \<noteq> []) (split_on (CHR ''/'') t))"
  using assms clean_parts_sparse[of "[] # split_on (CHR ''/'') t"]
  by (simp add: path_clean_def abs_path_def is_abs_def has_prefix_def)

lemma last_join_with:
  "ps \<noteq> [] \<Longrightarrow> \<forall>p \<in> set ps. p \<noteq> [] \<Longrightarrow> join_with sep ps \<noteq> [] \<and> last (join_with sep ps) = last (last ps)"
  by (induction sep ps rule: join_with.induct) auto

lemma split_on_parts:
  "\<forall>p \<in> set ps. plain_part p \<Longrightarrow> ps \<noteq> [] \<Longrightarrow> split_on (CHR ''/'') (join_with ''/'' ps) = ps"
  by (rule split_join) (auto simp: plain_part_def)

lemma filter_plain: "\<forall>p \<in> set ps. plain_part p \<Longrightarrow> filter (\<lambda>p. p \<noteq> []) ps = ps"
  by (induction ps) (auto simp: plain_part_def)

lemma expand_home:
  assumes "\<forall>p \<in> set (hs @ rs). plain_part p" and "hs \<noteq> []" and "rs \<noteq> []" and "\<not> is_space (last (last rs))"
  shows "TryExpandHomeDir (abs_path hs) (CHR ''~'' # abs_path rs) = abs_path (hs @ rs)"
proof -
  let ?rest = "abs_path rs"
  have lj: "join_with ''/'' rs \<noteq> [] \<and> last (join_with ''/'' rs) = last (last rs)"
    using assms by (intro last_join_with) (auto simp: plain_part_def)
  with assms(4) have "trim_space (CHR ''~'' # ?rest) = CHR ''~'' # ?rest"
    by (intro trim_space_id) (auto simp: abs_path_def is_space_def)
  moreover have "split_on (CHR ''/'') (join_with ''/'' hs @ ''/'' @ ?rest) = hs @ [] # rs"
    using assms by (simp add: abs_path_def split_on_append_gen split_on_parts)
  then have "path_clean (abs_path hs @ ''/'' @ ?rest) = abs_path (hs @ rs)"
    using assms path_clean_sparse[of "join_with ''/'' hs @ ''/'' @ ?rest"]
    by (simp add: abs_path_def[of hs] filter_plain ball_Un)
  ultimately show ?thesis
    by (simp add: TryExpandHomeDir_def path_join_def abs_path_def)
qed

lemma expand_home_itself:
  assumes "\<forall>p \<in> set hs. plain_part p" and "hs \<noteq> []"
  shows "TryExpandHomeDir (abs_path hs) ''~'' = abs_path hs"
proof -
  have "split_on (CHR ''/'') (join_with ''/'' hs @ ''/'') = hs @ [[]]"
    using assms by (simp add: split_on_append_gen split_on_parts)
  then have "path_clean (abs_path hs @ ''/'') = abs_path hs"
    using assms path_clean_sparse[of "join_with ''/'' hs @ ''/''"]
    by (simp add: abs_path_def filter_plain)
  then show ?thesis
    by (simp add: TryExpandHomeDir_def path_join_def abs_path_def trim_space_def is_space_def)
qed

text \<open>Expanding an expanded path again can still change it: \<open>~/a /..\<close> ends in a space after cleaning. But
  from then on nothing changes.\<close>

lemma trim_space_idem [simp]: "trim_space (trim_space s) = trim_space s"
proof (cases "trim_space s = []")
  case False
  define u where "u = dropWhile is_space s"
  define v where "v = dropWhile is_space (rev u)"
  have t: "trim_space s = rev v" by (simp add: trim_space_def u_def v_def)
  have v: "v \<noteq> []" using False t by simp
  then have lv: "\<not> is_space (hd v)" unfolding v_def by (rule hd_dropWhile)
  have "rev u = takeWhile is_space (rev u) @ v" by (simp add: v_def)
  then have "u = rev v @ rev (takeWhile is_space (rev u))" by (metis rev_append rev_rev_ident)
  then have "hd u = hd (rev v)" "u \<noteq> []" using v by (metis hd_append2 rev_is_Nil_conv, metis append_is_Nil_conv rev_is_Nil_conv)
  then have "\<not> is_space (hd (rev v))" using hd_dropWhile[of is_space s] by (simp add: u_def)
  then show ?thesis unfolding t using v lv
    by (intro trim_space_id) (auto simp: last_rev)
qed simp

lemma trim_space_abs: "is_abs s \<Longrightarrow> is_abs (trim_space s)"
proof -
  assume "is_abs s"
  then obtain r where s: "s = CHR ''/'' # r" by (cases s) (auto simp: is_abs_def has_prefix_def)
  have "dropWhile is_space (rev r @ [CHR ''/'']) = dropWhile is_space (rev r) @ [CHR ''/'']"
    by (induction r rule: rev_induct) (auto simp: is_space_def)
  then show ?thesis using s by (simp add: trim_space_def is_space_def is_abs_def has_prefix_def)
qed

lemma expand_abs: "is_abs s \<Longrightarrow> TryExpandHomeDir home s = trim_space s"
  using trim_space_abs[of s]
  by (cases "trim_space s") (auto simp: TryExpandHomeDir_def Let_def is_abs_def has_prefix_def)

lemma expand_home_stable:
  assumes "is_abs home"
  shows "TryExpandHomeDir home (TryExpandHomeDir home (TryExpandHomeDir home s)) =
    TryExpandHomeDir home (TryExpandHomeDir home s)"
proof (cases "TryExpandHomeDir home s = trim_space s")
  case True
  then show ?thesis by (simp add: TryExpandHomeDir_def)
next
  case False
  then have "TryExpandHomeDir home s = path_join [home, drop 1 (trim_space s)]"
    by (auto simp: TryExpandHomeDir_def Let_def split: if_splits)
  moreover have "home \<noteq> []" using assms by (auto simp: is_abs_def has_prefix_def)
  moreover have "is_abs (home @ r)" for r using assms by (cases home) (auto simp: is_abs_def has_prefix_def)
  ultimately have "is_abs (TryExpandHomeDir home s)" by (simp add: path_join_def)
  then show ?thesis using trim_space_abs by (simp add: expand_abs)
qed

text \<open>C30: collapsing the home directory of a clean absolute path to a tilde and expanding it again
  gives the path back, for the home directory and for every path below it that does not end in
  white space (which expanding trims); white space anywhere else is kept. A clean path is one whose parts
  are not empty, not one or two dots and hold no slash, and the home directory is not the root.\<close>

theorem home_dir_roundtrip:
  assumes "\<forall>p \<in> set (hs @ rs). plain_part p" and "hs \<noteq> []" and "rs = [] \<or> \<not> is_space (last (last rs))"
  shows "TryExpandHomeDir (abs_path hs) (TryCollapseHomeDir (abs_path hs) (abs_path (hs @ rs)))
           = abs_path (hs @ rs)"
proof (cases "rs = []")
  case True
  then show ?thesis
    using assms expand_home_itself replace_first_prefix[of "abs_path hs" "[]"]
    by (simp add: TryCollapseHomeDir_def has_prefix_def)
next
  case False
  then have "abs_path (hs @ rs) = abs_path hs @ abs_path rs"
    using assms by (simp add: abs_path_def join_with_append)
  then show ?thesis
    using assms False expand_home by (simp add: TryCollapseHomeDir_def)
qed

theorem home_dir_roundtrip_witness:
  "TryExpandHomeDir ''/home/me'' (TryCollapseHomeDir ''/home/me'' ''/home/me/my src/sardis'')
     = ''/home/me/my src/sardis''"
proof -
  have "\<forall>p \<in> set ([''home'', ''me''] @ [''my src'', ''sardis'']). plain_part p"
    by (simp add: plain_part_def)
  from home_dir_roundtrip [OF this] show ?thesis by (simp add: abs_path_def is_space_def)
qed

lemma walk_find:
  assumes "\<And>v. fst (f v s) = None \<Longrightarrow> f v s = (None, s)"
  shows "walk f vs s =
    (case find (\<lambda>v. fst (f v s) \<noteq> None) vs of None \<Rightarrow> (None, s) | Some v \<Rightarrow> f v s)"
proof (induction vs)
  case (Cons v vs)
  show ?case
  proof (cases "fst (f v s) = None")
    case True
    with assms[OF True] Cons show ?thesis by simp
  next
    case False
    then obtain e s' where "f v s = (Some e, s')" by (metis not_Some_eq prod.collapse)
    with False show ?thesis by simp
  qed
qed simp

definition socket_hit :: "string \<Rightarrow> visit \<Rightarrow> bool" where
  "socket_hit p v \<longleftrightarrow> \<not> v_is_dir v \<and> has_prefix (v_path v) p"

lemma socket_hit_path: "p \<noteq> [] \<Longrightarrow> socket_hit p v \<Longrightarrow> v_path v \<noteq> []"
  by (auto simp: socket_hit_def has_prefix_iff)

lemma alacritty_stop:
  "fst (alacritty_visit p v s) = None \<Longrightarrow> alacritty_visit p v s = (None, s)"
  "fst (alacritty_visit p v s) \<noteq> None \<longleftrightarrow> v_err v \<noteq> None \<or> socket_hit p v"
  by (cases "v_err v"; auto simp: alacritty_visit_def socket_hit_def split: if_splits)+

lemma ssh_agent_stop:
  "fst (ssh_agent_visit v s) = None \<Longrightarrow> ssh_agent_visit v s = (None, s)"
  "fst (ssh_agent_visit v s) \<noteq> None \<longleftrightarrow> v_err v = None \<and> socket_hit ''/tmp/ssh-'' v"
  by (cases "v_err v"; auto simp: ssh_agent_visit_def socket_hit_def split: if_splits)+

lemma walk_alacritty:
  "walk (alacritty_visit p) vs s =
    (case find (\<lambda>v. v_err v \<noteq> None \<or> socket_hit p v) vs of
       None \<Rightarrow> (None, s) | Some v \<Rightarrow> alacritty_visit p v s)"
  using walk_find[of "alacritty_visit p" s vs] by (simp only: alacritty_stop)

lemma walk_ssh_agent:
  "walk ssh_agent_visit vs s =
    (case find (\<lambda>v. v_err v = None \<and> socket_hit ''/tmp/ssh-'' v) vs of
       None \<Rightarrow> (None, s) | Some v \<Rightarrow> ssh_agent_visit v s)"
  using walk_find[of ssh_agent_visit s vs] by (simp only: ssh_agent_stop)

lemma alacritty_search:
  assumes "socketPrefix = path_join [path_join [''/run/user'', uid], ''Alacritty-:'']"
  shows "GetAlacrittySocketPath None (Inr uid) tree = Inr out \<longleftrightarrow>
    (\<exists>v. find (\<lambda>v. v_err v \<noteq> None \<or> socket_hit socketPrefix v)
            (tree (path_join [''/run/user'', uid])) = Some v \<and> v_err v = None \<and> v_path v = out)"
proof -
  have ne: "socketPrefix \<noteq> []" by (simp add: assms path_join_def Let_def)
  show ?thesis
    unfolding GetAlacrittySocketPath_def option.case sum.case Let_def assms [symmetric]
      walk_alacritty
    by (auto simp: alacritty_visit_def socket_hit_def split: option.splits if_splits
        dest!: find_SomeD)
       (auto simp: has_prefix_iff ne socket_hit_def)
qed

lemma ssh_search:
  assumes "\<not> jexists (path_join [''/run/user'', uid, ''ssh-agent.socket''])"
  shows "GetSSHAgentPath None (Inr uid) jexists tree = Inr out \<longleftrightarrow>
    (\<exists>v. find (\<lambda>v. v_err v = None \<and> socket_hit ''/tmp/ssh-'' v) (tree ''/tmp'') = Some v
       \<and> v_path v = out)"
  using assms unfolding GetSSHAgentPath_def option.case sum.case Let_def walk_ssh_agent
  by (auto simp: ssh_agent_visit_def socket_hit_def split: option.splits if_splits
      dest!: find_SomeD)
     (auto simp: has_prefix_iff)

text \<open>Without the environment variables, the socket searches return the first file in
  walk order whose path has the socket's prefix; an error met earlier in the walk ends the
  Alacritty search, and is skipped by the SSH agent search.\<close>

theorem socket_search_is_first_match:
  assumes "\<not> jexists (path_join [''/run/user'', uid, ''ssh-agent.socket''])"
  shows "(GetAlacrittySocketPath None (Inr uid) tree = Inr out \<longleftrightarrow>
      (\<exists>v. find (\<lambda>v. v_err v \<noteq> None \<or>
                   socket_hit (path_join [path_join [''/run/user'', uid], ''Alacritty-:'']) v)
              (tree (path_join [''/run/user'', uid])) = Some v \<and> v_err v = None \<and> v_path v = out)) \<and>
    (GetSSHAgentPath None (Inr uid) jexists tree = Inr out \<longleftrightarrow>
      (\<exists>v. find (\<lambda>v. v_err v = None \<and> socket_hit ''/tmp/ssh-'' v) (tree ''/tmp'') = Some v
         \<and> v_path v = out))"
  using alacritty_search [OF refl] ssh_search [of jexists, OF assms] by blast

theorem socket_search_is_first_match_witness:
  "GetSSHAgentPath None (Inr ''1000'') (\<lambda>_. False)
     (\<lambda>_. [\<lparr>v_path = ''/tmp'', v_is_dir = True, v_err = None\<rparr>,
            \<lparr>v_path = ''/tmp/ssh-x'', v_is_dir = False, v_err = Some io_EOF\<rparr>,
            \<lparr>v_path = ''/tmp/ssh-y/agent.7'', v_is_dir = False, v_err = None\<rparr>])
   = Inr ''/tmp/ssh-y/agent.7''"
  using socket_search_is_first_match [of "\<lambda>_. False" "''1000''"]
  by (simp add: socket_hit_def has_prefix_def)

section \<open>marshal.go\<close>

text \<open>The decoders and encoders are those of the bson, json, yaml and birch libraries; the
  model names the one chosen.\<close>

datatype decoder = Bson_Unmarshal | Json_Unmarshal | Yaml_Unmarshal

definition GetUnmarshaler :: "string \<Rightarrow> decoder option" where
  "GetUnmarshaler fn =
     (if has_suffix fn ''.bson'' then Some Bson_Unmarshal
      else if has_suffix fn ''.json'' then Some Json_Unmarshal
      else if has_suffix fn ''.yaml'' \<or> has_suffix fn ''.yml'' then Some Yaml_Unmarshal
      else None)"

definition UnmarshalFile ::
    "(string \<Rightarrow> stat_result) \<Rightarrow> (string \<Rightarrow> go_error + 'f) \<Rightarrow> ('f \<Rightarrow> go_error + 'd) \<Rightarrow>
     (decoder \<Rightarrow> 'd \<Rightarrow> 'o \<Rightarrow> go_error option \<times> 'o) \<Rightarrow> string \<Rightarrow> 'o \<Rightarrow> go_error option \<times> 'o" where
  "UnmarshalFile stat os_open read_all decode fn out =
     (if fn = [] then (Some (Errf ''file not specified'' []), out)
      else if is_not_exist (stat fn)
        then (Some (Errf ''file '%s' does not exist'' [S fn]), out)
      else
        (case GetUnmarshaler fn of
           None \<Rightarrow> (Some (Errf (''could not find supported unmarshaller for '%s'' @ [CHR 0x27]) [S fn]), out)
         | Some unmarshal \<Rightarrow>
             (case os_open fn of
                Inl e \<Rightarrow> (Some (Wrapf [e] ''problem opening file %s to unmarshal: %w'' [S fn]), out)
              | Inr file \<Rightarrow>
                  (case read_all file of
                     Inl e \<Rightarrow> (Some (Wrapf [e] ''problem reading data from %s: %w'' [S fn]), out)
                   | Inr data \<Rightarrow>
                       (case decode unmarshal data out of
                          (Some e, out') \<Rightarrow>
                            (Some (Wrapf [e] ''problem reading data from '%s': %w'' [S fn]), out')
                        | (None, out') \<Rightarrow> (None, out'))))))"

type_synonym marshal_format = int

definition MarshalFormatJSON :: marshal_format where "MarshalFormatJSON = 0"
definition MarshalFormatNDJSON :: marshal_format where "MarshalFormatNDJSON = 1"
definition MarshalFormatBSON :: marshal_format where "MarshalFormatBSON = 2"
definition MarshalFormatYAML :: marshal_format where "MarshalFormatYAML = 3"

lemmas marshal_formats = MarshalFormatJSON_def MarshalFormatNDJSON_def MarshalFormatBSON_def
  MarshalFormatYAML_def

definition MarshalFormat_String :: "marshal_format \<Rightarrow> string" where
  "MarshalFormat_String mf =
     (if mf = MarshalFormatJSON then ''JSON''
      else if mf = MarshalFormatNDJSON then ''NDJSON''
      else if mf = MarshalFormatBSON then ''BSON''
      else if mf = MarshalFormatYAML then ''YAML''
      else ''UNSPECIFIED'')"

definition MarshalerForFile :: "string \<Rightarrow> marshal_format" where
  "MarshalerForFile fn =
     (let ext = path_ext fn
      in if ext = ''json'' then MarshalFormatJSON
         else if ext = ''ndjson'' \<or> ext = ''jsonl'' then MarshalFormatNDJSON
         else if ext = ''bson'' then MarshalFormatBSON
         else if ext = ''yaml'' \<or> ext = ''yml'' then MarshalFormatYAML
         else MarshalFormatYAML)"

datatype encoder = Json_MarshalIndent | Json_Marshal | Birch_MarshalBSON | Yaml_Marshal

definition GetMarshler :: "marshal_format \<Rightarrow> encoder outcome" where
  "GetMarshler mf =
     (if mf = MarshalFormatJSON then Return Json_MarshalIndent
      else if mf = MarshalFormatNDJSON then Return Json_Marshal
      else if mf = MarshalFormatBSON then Return Birch_MarshalBSON
      else if mf = MarshalFormatYAML then Return Yaml_Marshal
      else Panic (Errf ''impossible MarshalFormat value'' [I mf]))"

text \<open>\<open>mf.Write(obj).Into(wr)\<close>: an encoding error is returned by \<open>Into\<close>, before anything is
  written.\<close>

definition Write_Into ::
    "(encoder \<Rightarrow> 'o \<Rightarrow> 'd \<times> go_error option) \<Rightarrow> ('d \<Rightarrow> 'w \<Rightarrow> go_error option \<times> 'w) \<Rightarrow>
     marshal_format \<Rightarrow> 'o \<Rightarrow> 'w \<Rightarrow> (go_error option \<times> 'w) outcome" where
  "Write_Into encode wr_write mf obj wr =
     (case GetMarshler mf of
        Panic e \<Rightarrow> Panic e
      | Return enc \<Rightarrow>
          (case encode enc obj of
             (payload, Some e) \<Rightarrow> Return (Some e, wr)
           | (payload, None) \<Rightarrow> Return (wr_write payload wr)))"

text \<open>The extension the standard library returns keeps its dot, so that no case of
  \<open>MarshalerForFile\<close> matches: every file name, one that ends in \<open>.json\<close> or \<open>.bson\<close> included,
  is written as YAML, while the reader decodes it as JSON or BSON.\<close>

theorem MarshalerForFile_always_yaml:
  "MarshalerForFile fn = MarshalFormatYAML \<and> GetMarshler (MarshalerForFile fn) = Return Yaml_Marshal"
proof -
  have "MarshalerForFile fn = MarshalFormatYAML"
    using path_ext_dot[of fn] by (auto simp: MarshalerForFile_def Let_def)
  then show ?thesis by (simp add: GetMarshler_def marshal_formats)
qed

end
