(* ===== verification/Daggen.thy ===== *)
theory Daggen
  imports Util
begin

text \<open>
  \<open>tools/gadget/daggen.go\<close>: the packages of a module and the local packages they depend on.
  The package loader of \<open>golang.org/x/tools\<close> is a parameter: its result is the list of loaded
  files with their type information, an import graph unfolded to a tree.
\<close>

section \<open>Packages\<close>

record PackageInfo =
  ModuleName :: string
  PackageName :: string
  LocalDirectory :: string
  Dependencies :: "string list"

definition zero_PackageInfo :: PackageInfo where
  "zero_PackageInfo =
     \<lparr>ModuleName = [], PackageName = [], LocalDirectory = [], Dependencies = []\<rparr>"

type_synonym Packages = "PackageInfo list"

record Module =
  mod_Path :: string
  mod_Packages :: Packages

definition IndexByLocalDirectory :: "Packages \<Rightarrow> (string \<rightharpoonup> PackageInfo)" where
  "IndexByLocalDirectory p = foldl (\<lambda>out info. out(LocalDirectory info \<mapsto> info)) Map.empty p"

definition IndexByPackageName :: "Packages \<Rightarrow> (string \<rightharpoonup> PackageInfo)" where
  "IndexByPackageName p = foldl (\<lambda>out info. out(PackageName info \<mapsto> info)) Map.empty p"

text \<open>\<open>index[path]\<close> of a missing key is the zero value.\<close>

definition ConvertPathsToPackages :: "Packages \<Rightarrow> (string, 's) seq \<Rightarrow> (string, 's) seq" where
  "ConvertPathsToPackages p it =
     (let index = IndexByLocalDirectory p
      in (\<lambda>yield. it (\<lambda>path. yield (PackageName (deref_z zero_PackageInfo (index path))))))"

definition ConvertPackagesToPaths :: "Packages \<Rightarrow> (string, 's) seq \<Rightarrow> (string, 's) seq" where
  "ConvertPackagesToPaths p it =
     (let index = IndexByPackageName p
      in (\<lambda>yield. it (\<lambda>path. yield (LocalDirectory (deref_z zero_PackageInfo (index path))))))"

definition Graph :: "Packages \<Rightarrow> (string \<times> string list) list" where
  "Graph p = map (\<lambda>info. (PackageName info, Dependencies info)) p"

text \<open>\<open>WriteTo\<close> encodes each package into a buffer and flushes the buffer to the writer; the
  encoder, its closing and the writer are parameters. \<open>size\<close> counts what was written.\<close>

fun WriteTo_loop ::
    "(PackageInfo \<Rightarrow> go_error option \<times> string) \<Rightarrow> (string \<Rightarrow> 'w \<Rightarrow> int \<times> go_error option \<times> 'w) \<Rightarrow>
     nat \<Rightarrow> nat \<Rightarrow> Packages \<Rightarrow> int \<Rightarrow> 'w \<Rightarrow> int \<times> go_error option \<times> 'w" where
  "WriteTo_loop encode write len idx [] sz w = (sz, None, w)"
| "WriteTo_loop encode write len idx (v # vs) sz w =
     (case encode v of
        (Some err, _) \<Rightarrow>
          (sz, Some (Wrapf [err] ''could not encode %q at %d of %d: %w''
                         [S (PackageName v), I (int idx), I (int len)]), w)
      | (None, buf) \<Rightarrow>
          (case write buf w of
             (n, Some err, w') \<Rightarrow>
               (sz + n, Some (Wrapf [err] ''could not write %q at %d of %d: %w''
                                  [S (PackageName v), I (int idx), I (int len)]), w')
           | (n, None, w') \<Rightarrow> WriteTo_loop encode write len (idx + 1) vs (sz + n) w'))"

definition WriteTo ::
    "(PackageInfo \<Rightarrow> go_error option \<times> string) \<Rightarrow> go_error option \<Rightarrow>
     (string \<Rightarrow> 'w \<Rightarrow> int \<times> go_error option \<times> 'w) \<Rightarrow> Packages \<Rightarrow> 'w \<Rightarrow> int \<times> go_error option \<times> 'w" where
  "WriteTo encode enc_close write p w =
     (case WriteTo_loop encode write (length p) 0 p 0 w of
        (sz, Some err, w') \<Rightarrow> (sz, Some err, w')
      | (sz, None, w') \<Rightarrow>
          (case enc_close of Some err \<Rightarrow> (sz, Some err, w') | None \<Rightarrow> (sz, None, w')))"

section \<open>Collect\<close>

datatype types_Package = TPkg (tp_Path: string) (tp_Imports: "types_Package list")

record loaded =
  f_PkgPath :: string
  f_Module :: "(string \<times> string) option"  \<comment> \<open>\<open>Path\<close> and \<open>Dir\<close>\<close>
  f_Imports :: "types_Package list"

definition filterLocal :: "string \<Rightarrow> types_Package list \<Rightarrow> types_Package list" where
  "filterLocal path imports = filter (\<lambda>p. has_prefix (tp_Path p) path) imports"

text \<open>The dependencies that one local import contributes, and the loop that overwrites
  \<open>info.Dependencies\<close> with those of each.\<close>

definition import_deps :: "string \<Rightarrow> types_Package \<Rightarrow> string list" where
  "import_deps path pkg =
     sort (remdups (concat (map (\<lambda>dpkg. map tp_Path (filterLocal path (tp_Imports dpkg)))
                              (filterLocal path (tp_Imports pkg)))))"

fun deps_loop :: "string \<Rightarrow> types_Package list \<Rightarrow> string list \<Rightarrow> string list" where
  "deps_loop path [] deps = deps"
| "deps_loop path (pkg # pkgs) deps = deps_loop path pkgs (import_deps path pkg)"

fun unique_from :: "'a list \<Rightarrow> 'a list \<Rightarrow> 'a list" where
  "unique_from seen [] = []"
| "unique_from seen (x # xs) =
     (if x \<in> set seen then unique_from seen xs else x # unique_from (x # seen) xs)"

definition collect_one ::
    "loaded \<Rightarrow> (string \<times> PackageInfo) list \<Rightarrow> (string \<times> PackageInfo) list outcome" where
  "collect_one f seen =
     (case f_Module f of
        None \<Rightarrow> Panic (Errf ''should always collect module information'' [])
      | Some (mpath, mdir) \<Rightarrow>
          if length (f_PkgPath f) < length mpath then Panic index_out_of_range
          else
            let info = \<lparr>ModuleName = mpath, PackageName = f_PkgPath f,
                        LocalDirectory = path_join [mdir, drop (length mpath) (f_PkgPath f)],
                        Dependencies = deps_loop mpath (filterLocal mpath (f_Imports f)) []\<rparr>;
                info = (case map_of seen (PackageName info) of
                          None \<Rightarrow> info
                        | Some prev \<Rightarrow>
                            prev\<lparr>Dependencies := unique_from [] (Dependencies prev @ Dependencies info)\<rparr>)
            in Return (upd (PackageName info) info seen))"

fun collect_loop ::
    "loaded list \<Rightarrow> (string \<times> PackageInfo) list \<Rightarrow> (string \<times> PackageInfo) list outcome" where
  "collect_loop [] seen = Return seen"
| "collect_loop (f # fs) seen =
     (case collect_one f seen of Panic e \<Rightarrow> Panic e | Return seen' \<Rightarrow> collect_loop fs seen')"

text \<open>\<open>load dir pattern\<close> is \<open>packages.Load\<close>; \<open>map_order\<close> is the order in which the runtime walks
  the map of collected packages.\<close>

definition Collect ::
    "(string \<Rightarrow> string \<Rightarrow> go_error + loaded list) \<Rightarrow> (PackageInfo list \<Rightarrow> PackageInfo list) \<Rightarrow>
     string \<Rightarrow> (go_error + Module) outcome" where
  "Collect load map_order path =
     (let pattern = (if has_suffix path ''...'' then path else path_join [path, ''...''])
      in case load (path_dir pattern) pattern of
           Inl err \<Rightarrow> Return (Inl err)
         | Inr files \<Rightarrow>
             (case collect_loop (sort_key f_PkgPath files) [] of
                Panic e \<Rightarrow> Panic e
              | Return seen \<Rightarrow>
                  if seen = [] then Return (Inl (Errf ''no packages for %q'' [S pattern]))
                  else Return (Inr \<lparr>mod_Path = path, mod_Packages = map_order (map snd seen)\<rparr>)))"

section \<open>Facts\<close>

lemma index_fold:
  "foldl (\<lambda>out info. out(key info \<mapsto> info)) m p k =
     (case find (\<lambda>i. key i = k) (rev p) of None \<Rightarrow> m k | Some i \<Rightarrow> Some i)"
  by (induction p rule: rev_induct) auto

lemma IndexByPackageName_find:
  "IndexByPackageName p k = find (\<lambda>i. PackageName i = k) (rev p)"
  by (simp add: IndexByPackageName_def index_fold split: option.splits)

lemma IndexByLocalDirectory_find:
  "IndexByLocalDirectory p k = find (\<lambda>i. LocalDirectory i = k) (rev p)"
  by (simp add: IndexByLocalDirectory_def index_fold split: option.splits)

lemma find_key:
  "distinct (map key p) \<Longrightarrow> i \<in> set p \<Longrightarrow> find (\<lambda>j. key j = key i) p = Some i"
  by (induction p) (auto simp: image_iff)

lemma IndexByPackageName_distinct:
  assumes "distinct (map PackageName p)" and "i \<in> set p"
  shows "IndexByPackageName p (PackageName i) = Some i"
proof -
  have "distinct (map PackageName (rev p))" using assms(1) by (simp add: rev_map [symmetric])
  then show ?thesis using assms(2) by (simp add: IndexByPackageName_find find_key)
qed

lemma IndexByLocalDirectory_distinct:
  assumes "distinct (map LocalDirectory p)" and "i \<in> set p"
  shows "IndexByLocalDirectory p (LocalDirectory i) = Some i"
proof -
  have "distinct (map LocalDirectory (rev p))" using assms(1) by (simp add: rev_map [symmetric])
  then show ?thesis using assms(2) by (simp add: IndexByLocalDirectory_find find_key)
qed

lemma IndexByPackageName_None: "IndexByPackageName p k = None \<longleftrightarrow> k \<notin> PackageName ` set p"
  by (auto simp: IndexByPackageName_find find_None_iff image_iff)

lemma deps_loop_last:
  "deps_loop path pkgs deps = (if pkgs = [] then deps else import_deps path (last pkgs))"
  by (induction pkgs arbitrary: deps) auto

text \<open>The pairs held by the map of collected packages are keyed by the package's name.\<close>

definition keyed :: "(string \<times> PackageInfo) list \<Rightarrow> bool" where
  "keyed ps \<longleftrightarrow> distinct (map fst ps) \<and> map (\<lambda>p. PackageName (snd p)) ps = map fst ps"

lemma keyed_Nil [simp]: "keyed []"
  by (simp add: keyed_def)

lemma map_key_upd:
  "map (\<lambda>p. PackageName (snd p)) ps = map fst ps \<Longrightarrow> PackageName j = k \<Longrightarrow>
     map (\<lambda>p. PackageName (snd p)) (upd k j ps) = map fst (upd k j ps)"
  by (induction k j ps rule: upd.induct) auto

lemma keyed_upd [simp]: "keyed ps \<Longrightarrow> PackageName j = k \<Longrightarrow> keyed (upd k j ps)"
  by (simp add: keyed_def map_key_upd)

lemma keyed_lookup: "keyed ps \<Longrightarrow> map_of ps k = Some i \<Longrightarrow> PackageName i = k"
proof -
  assume "keyed ps" "map_of ps k = Some i"
  then have "(k, i) \<in> set ps" and "\<forall>p \<in> set ps. PackageName (snd p) = fst p"
    by (auto simp: keyed_def dest: map_of_SomeD)
  then show "PackageName i = k" by force
qed

lemma collect_one_keys: "collect_one f seen = Return seen' \<Longrightarrow> keyed seen \<Longrightarrow> keyed seen'"
  by (auto simp: collect_one_def Let_def keyed_lookup split: option.splits if_splits)

lemma collect_loop_keys: "collect_loop fs seen = Return seen' \<Longrightarrow> keyed seen \<Longrightarrow> keyed seen'"
  by (induction fs seen rule: collect_loop.induct)
     (auto split: outcome.splits dest: collect_one_keys)

lemma Collect_names:
  assumes "\<And>xs. mset (map_order xs) = mset xs"
    and "Collect load map_order path = Return (Inr m)"
  shows "distinct (map PackageName (mod_Packages m)) \<and> mod_Packages m \<noteq> []"
proof -
  from assms(2) obtain fs seen where loop: "collect_loop fs [] = Return seen"
    and ne: "seen \<noteq> []" and m: "mod_Packages m = map_order (map snd seen)"
    by (auto simp: Collect_def Let_def split: sum.splits outcome.splits if_splits)
  from collect_loop_keys[OF loop] have "keyed seen" by simp
  then have "distinct (map PackageName (map snd seen))" by (simp only: keyed_def map_map comp_def)
  then have "distinct (map PackageName (mod_Packages m))"
    using assms(1)[of "map snd seen"] m by (metis mset_map mset_eq_imp_distinct_iff)
  moreover have "mod_Packages m \<noteq> []" using ne m assms(1)[of "map snd seen"] by auto
  ultimately show ?thesis by blast
qed

text \<open>A package name is the key of the collected packages: whatever the loader returns and
  in whatever order the map is walked, the packages have pairwise different names, so that the
  index by name finds each one.\<close>

theorem Collect_names_distinct:
  assumes "\<And>xs. mset (map_order xs) = mset xs"
    and "Collect load map_order path = Return (Inr m)"
  shows "distinct (map PackageName (mod_Packages m)) \<and> mod_Packages m \<noteq> [] \<and>
    (\<forall>i \<in> set (mod_Packages m). IndexByPackageName (mod_Packages m) (PackageName i) = Some i)"
  using Collect_names[OF assms] IndexByPackageName_distinct by blast

definition demo_load :: "string \<Rightarrow> string \<Rightarrow> go_error + loaded list" where
  "demo_load dir pattern = Inr
     [\<lparr>f_PkgPath = ''m/b'', f_Module = Some (''m'', ''/src/m''), f_Imports = []\<rparr>,
      \<lparr>f_PkgPath = ''m/a'', f_Module = Some (''m'', ''/src/m''),
       f_Imports = [TPkg ''m/b'' [TPkg ''m/c'' [TPkg ''m/d'' []]], TPkg ''m/e'' []]\<rparr>]"

lemma demo_Collect:
  "Collect demo_load rev ''m'' = Return (Inr \<lparr>mod_Path = ''m'', mod_Packages =
     [\<lparr>ModuleName = ''m'', PackageName = ''m/b'', LocalDirectory = ''/src/m/b'', Dependencies = []\<rparr>,
      \<lparr>ModuleName = ''m'', PackageName = ''m/a'', LocalDirectory = ''/src/m/a'', Dependencies = []\<rparr>]\<rparr>)"
  by code_simp

theorem Collect_names_distinct_witness:
  "distinct (map PackageName
     [\<lparr>ModuleName = ''m'', PackageName = ''m/b'', LocalDirectory = ''/src/m/b'', Dependencies = []\<rparr>,
      \<lparr>ModuleName = ''m'', PackageName = ''m/a'', LocalDirectory = ''/src/m/a'', Dependencies = []\<rparr>])"
  using Collect_names_distinct [of rev, OF _ demo_Collect] by simp

text \<open>Only the last local import of a package decides its dependencies: what the imports
  before it contribute is overwritten, and the imports themselves are never recorded.\<close>

theorem Collect_keeps_last_import:
  assumes "f_Module f = Some (mpath, mdir)" and "length mpath \<le> length (f_PkgPath f)"
    and "f_PkgPath f \<notin> fst ` set seen"
    and "filterLocal mpath (f_Imports f) = imports @ [pkg]"
  shows "\<exists>info. collect_one f seen = Return (upd (f_PkgPath f) info seen) \<and>
    PackageName info = f_PkgPath f \<and> Dependencies info = import_deps mpath pkg"
proof -
  from assms(3) have "map_of seen (f_PkgPath f) = None" by (simp add: map_of_eq_None_iff)
  with assms show ?thesis
    by (intro exI[of _ "\<lparr>ModuleName = mpath, PackageName = f_PkgPath f,
          LocalDirectory = path_join [mdir, drop (length mpath) (f_PkgPath f)],
          Dependencies = import_deps mpath pkg\<rparr>"])
       (simp add: collect_one_def deps_loop_last)
qed

theorem Collect_keeps_last_import_witness:
  "\<exists>info. collect_one
     \<lparr>f_PkgPath = ''m/a'', f_Module = Some (''m'', ''/src/m''),
      f_Imports = [TPkg ''m/b'' [TPkg ''m/c'' [TPkg ''m/d'' []]], TPkg ''m/e'' []]\<rparr> []
     = Return (upd ''m/a'' info []) \<and> PackageName info = ''m/a'' \<and> Dependencies info = []"
  using Collect_keeps_last_import [of "\<lparr>f_PkgPath = ''m/a'', f_Module = Some (''m'', ''/src/m''),
      f_Imports = [TPkg ''m/b'' [TPkg ''m/c'' [TPkg ''m/d'' []]], TPkg ''m/e'' []]\<rparr>"
      "''m''" "''/src/m''" "[]" "[TPkg ''m/b'' [TPkg ''m/c'' [TPkg ''m/d'' []]]]" "TPkg ''m/e'' []"]
  by (simp add: filterLocal_def has_prefix_def import_deps_def)

end
