(* ===== verification/Build_Order.thy ===== *)
theory Build_Order
  imports Daggen
begin

text \<open>
  \<open>tools/gadget/gendget.go\<close>: the order in which the packages of a module are generated. The
  main loop is one function, \<open>order_step\<close>, that computes an iteration and says whether the
  loop goes on; \<open>order_loop\<close> runs it and terminates on every input. \<open>ctx.Err() != nil\<close> at the
  n-th iteration is the argument \<open>cancelled\<close>.
\<close>

section \<open>The build order\<close>

record BuildOrder =
  Order :: "string list list"
  bo_Packages :: Packages
  Path :: string

definition BuildOrder_Narrow :: "BuildOrder \<Rightarrow> (string \<Rightarrow> bool) \<Rightarrow> BuildOrder" where
  "BuildOrder_Narrow bo limits =
     \<lparr>Order = filter (\<lambda>ng. 0 < length ng) (map (filter limits) (Order bo)),
      bo_Packages = bo_Packages bo, Path = Path bo\<rparr>"

section \<open>The loop of GetBuildOrder\<close>

record order_state =
  iters :: nat
  seen :: "string list"
  queue :: "string list"
  nextg :: "string list"
  runs :: nat
  order :: "string list list"

definition add_all :: "string list \<Rightarrow> string list \<Rightarrow> string list" where
  "add_all xs s = fold List.insert xs s"

fun partition_loop ::
    "(string \<rightharpoonup> PackageInfo) \<Rightarrow> (string \<times> string list) list \<Rightarrow> string list \<Rightarrow> string list \<Rightarrow>
     (string list \<times> string list) outcome" where
  "partition_loop index [] next q = Return (next, q)"
| "partition_loop index ((node, edges) # items) next q =
     (case index node of
        None \<Rightarrow> Panic (Errf ''bad index'' [])
      | Some info \<Rightarrow>
          if length edges = 0 \<and> length (Dependencies info) = 0
          then partition_loop index items (next @ [node]) q
          else partition_loop index items next (q @ [node]))"

definition order_init :: "string list \<Rightarrow> string list \<Rightarrow> order_state" where
  "order_init next q =
     (let next = sort next
      in \<lparr>iters = 0, seen = add_all next [], queue = q, nextg = [], runs = 0, order = [next]\<rparr>)"

datatype loop_end = Loop_Done order_state | Loop_Error go_error | Loop_Panic go_error

definition irresolveable :: go_error where
  "irresolveable = Errf ''irresolveable dependency'' []"

definition flush_group :: "order_state \<Rightarrow> order_state" where
  "flush_group st =
     (if runs st = length (queue st) \<and> 0 < length (nextg st)
      then st\<lparr>seen := add_all (sort (nextg st)) (seen st), order := order st @ [sort (nextg st)],
              nextg := [], runs := 0\<rparr>
      else st)"

definition order_step ::
    "(nat \<Rightarrow> bool) \<Rightarrow> Packages \<Rightarrow> (string \<rightharpoonup> PackageInfo) \<Rightarrow> order_state \<Rightarrow> loop_end + order_state" where
  "order_step cancelled pkgs index st =
     (let st = st\<lparr>iters := iters st + 1\<rparr>
      in if length pkgs = 0 \<or> length (Graph pkgs) \<le> length (seen st) \<or> length (queue st) = 0 \<or>
            cancelled (iters st)
         then Inl (Loop_Done st)
         else
           let st = flush_group st
           in if length (queue st) * 10 \<le> runs st then Inl (Loop_Error irresolveable)
              else
                (case queue st of
                   [] \<Rightarrow> Inl (Loop_Done st)
                 | node # rest \<Rightarrow>
                     if node \<in> set (seen st) then Inr (st\<lparr>queue := rest\<rparr>)
                     else
                       (case index node of
                          None \<Rightarrow> Inl (Loop_Panic (Errf ''invariant'' []))
                        | Some info \<Rightarrow>
                            (case find (\<lambda>dep. dep \<notin> set (seen st)) (Dependencies info) of
                               Some dep \<Rightarrow>
                                 Inr (st\<lparr>queue := rest @ [node], runs := runs st + 1\<rparr>)
                             | None \<Rightarrow>
                                 Inr (st\<lparr>queue := rest, nextg := nextg st @ [node], runs := 0\<rparr>)))))"

definition order_rank :: "order_state \<Rightarrow> nat \<times> nat \<times> nat" where
  "order_rank st =
     (length (queue st), (if nextg st = [] then 0 else 1), length (queue st) * 10 - runs st)"

lemma order_step_decreases:
  assumes "order_step cancelled pkgs index st = Inr st'"
  shows "(order_rank st', order_rank st) \<in> less_than <*lex*> less_than <*lex*> less_than"
proof -
  define s1 where "s1 = st\<lparr>iters := iters st + 1\<rparr>"
  have rank1: "order_rank s1 = order_rank st" by (simp add: s1_def order_rank_def)
  have fl: "flush_group s1 = s1 \<or>
      queue (flush_group s1) = queue s1 \<and> nextg (flush_group s1) = [] \<and> nextg s1 \<noteq> []"
    by (simp add: flush_group_def)
  from assms obtain node rest where q: "queue (flush_group s1) = node # rest"
    and r: "runs (flush_group s1) < length (queue (flush_group s1)) * 10"
    and st': "queue st' = rest \<or>
      (queue st' = rest @ [node] \<and> nextg st' = nextg (flush_group s1) \<and>
       runs st' = runs (flush_group s1) + 1)"
    by (auto simp: order_step_def Let_def s1_def split: if_splits list.splits option.splits)
  from fl q have "length (queue s1) = Suc (length rest)" by (metis length_Cons)
  with fl q r st' show ?thesis
    unfolding rank1 [symmetric] by (auto simp: order_rank_def)
qed

function order_loop ::
    "(nat \<Rightarrow> bool) \<Rightarrow> Packages \<Rightarrow> (string \<rightharpoonup> PackageInfo) \<Rightarrow> order_state \<Rightarrow> loop_end" where
  "order_loop cancelled pkgs index st =
     (case order_step cancelled pkgs index st of
        Inl e \<Rightarrow> e
      | Inr st' \<Rightarrow> order_loop cancelled pkgs index st')"
  by pat_completeness auto
termination
  by (relation "inv_image (less_than <*lex*> less_than <*lex*> less_than)
        (\<lambda>(cancelled, pkgs, index, st). order_rank st)")
     (auto dest: order_step_decreases)

declare order_loop.simps [simp del]

definition order_packages ::
    "(nat \<Rightarrow> bool) \<Rightarrow> Packages \<Rightarrow> string \<Rightarrow> (go_error + BuildOrder) outcome" where
  "order_packages cancelled pkgs path =
     (let index = IndexByPackageName pkgs
      in case partition_loop index (Graph pkgs) [] [] of
           Panic e \<Rightarrow> Panic e
         | Return (next, q) \<Rightarrow>
             (case order_loop cancelled pkgs index (order_init next q) of
                Loop_Panic e \<Rightarrow> Panic e
              | Loop_Error e \<Rightarrow> Return (Inl e)
              | Loop_Done st \<Rightarrow>
                  Return (Inr
                    \<lparr>Order = order st @ (if 0 < length (nextg st) then [nextg st] else []),
                     bo_Packages = pkgs, Path = path\<rparr>)))"

definition GetBuildOrder ::
    "(nat \<Rightarrow> bool) \<Rightarrow> (string \<Rightarrow> string \<Rightarrow> go_error + loaded list) \<Rightarrow>
     (PackageInfo list \<Rightarrow> PackageInfo list) \<Rightarrow> string \<Rightarrow> (go_error + BuildOrder) outcome" where
  "GetBuildOrder cancelled load map_order path =
     (case Collect load map_order path of
        Panic e \<Rightarrow> Panic e
      | Return (Inl err) \<Rightarrow> Return (Inl err)
      | Return (Inr m) \<Rightarrow>
          if length (mod_Packages m) = 0
          then Return (Inl (Errf ''no modules found in %q'' [S path]))
          else order_packages cancelled (mod_Packages m) path)"

section \<open>The invariant of the loop\<close>

definition deps_of :: "Packages \<Rightarrow> string \<Rightarrow> string list" where
  "deps_of p n = (case IndexByPackageName p n of None \<Rightarrow> [] | Some info \<Rightarrow> Dependencies info)"

definition names :: "Packages \<Rightarrow> string list" where
  "names p = map PackageName p"

text \<open>Every member of a group depends only on members of the groups before it.\<close>

fun layered :: "(string \<Rightarrow> string list) \<Rightarrow> string set \<Rightarrow> string list list \<Rightarrow> bool" where
  "layered deps D [] \<longleftrightarrow> True"
| "layered deps D (g # gs) \<longleftrightarrow>
     (\<forall>n \<in> set g. set (deps n) \<subseteq> D) \<and> layered deps (D \<union> set g) gs"

lemma layered_append [simp]:
  "layered deps D (gs @ hs) \<longleftrightarrow> layered deps D gs \<and> layered deps (D \<union> set (concat gs)) hs"
  by (induction gs arbitrary: D) (auto simp: Un_assoc)

lemma layered_nth:
  "layered deps D gs \<Longrightarrow> i < length gs \<Longrightarrow> n \<in> set (gs ! i) \<Longrightarrow> d \<in> set (deps n) \<Longrightarrow>
     d \<in> D \<or> (\<exists>j<i. d \<in> set (gs ! j))"
proof (induction gs arbitrary: D i)
  case (Cons g gs)
  show ?case
  proof (cases i)
    case 0
    with Cons.prems show ?thesis by auto
  next
    case (Suc k)
    with Cons.prems Cons.IH[of "D \<union> set g" k] have "d \<in> D \<union> set g \<or> (\<exists>j<k. d \<in> set (gs ! j))"
      by simp
    with Suc show ?thesis by fastforce
  qed
qed simp

declare set_concat [simp del]

definition stuck :: "Packages \<Rightarrow> string list \<Rightarrow> string \<Rightarrow> bool" where
  "stuck p s n \<longleftrightarrow> (\<exists>d \<in> set (deps_of p n). d \<notin> set s)"

definition order_inv :: "Packages \<Rightarrow> order_state \<Rightarrow> bool" where
  "order_inv p st \<longleftrightarrow>
     distinct (names p) \<and>
     mset (concat (order st)) + mset (nextg st) + mset (queue st) = mset (names p) \<and>
     set (seen st) = set (concat (order st)) \<and> distinct (seen st) \<and>
     layered (deps_of p) {} (order st) \<and>
     (\<forall>n \<in> set (nextg st). \<not> stuck p (seen st) n) \<and>
     (nextg st \<noteq> [] \<longrightarrow> runs st \<le> length (queue st)) \<and>
     (\<forall>n \<in> set (drop (length (queue st) - runs st) (queue st)). stuck p (seen st) n)"

definition order_start :: "Packages \<Rightarrow> order_state \<Rightarrow> bool" where
  "order_start p st \<longleftrightarrow> distinct (names p) \<and>
     (\<exists>next q. partition_loop (IndexByPackageName p) (Graph p) [] [] = Return (next, q) \<and>
        st = order_init next q)"

definition order_next :: "(nat \<Rightarrow> bool) \<Rightarrow> Packages \<Rightarrow> order_state \<Rightarrow> order_state \<Rightarrow> bool" where
  "order_next c p st st' \<longleftrightarrow> order_step c p (IndexByPackageName p) st = Inr st'"

lemma set_add_all [simp]: "set (add_all xs s) = set xs \<union> set s"
  unfolding add_all_def by (induction xs arbitrary: s) auto

lemma distinct_add_all [simp]: "distinct s \<Longrightarrow> distinct (add_all xs s)"
  unfolding add_all_def by (induction xs arbitrary: s) auto

lemma index_names:
  "n \<in> set (names p) \<Longrightarrow> \<exists>info. IndexByPackageName p n = Some info \<and> deps_of p n = Dependencies info"
  using IndexByPackageName_None[of p n] by (auto simp: names_def deps_of_def)

lemma partition_loop_spec:
  "\<forall>(n, es) \<in> set items. n \<in> set (names p) \<Longrightarrow>
   \<exists>nx q. partition_loop (IndexByPackageName p) items next qu = Return (nx, q) \<and>
     mset nx + mset q = mset next + mset qu + mset (map fst items) \<and>
     (\<forall>n \<in> set nx. n \<in> set next \<or> deps_of p n = [])"
proof (induction "IndexByPackageName p" items "next" qu rule: partition_loop.induct)
  case (2 node edges items nx q)
  from 2(3) have "node \<in> set (names p)" by simp
  then obtain info where info: "IndexByPackageName p node = Some info"
    and d: "deps_of p node = Dependencies info" using index_names by blast
  show ?case
  proof (cases "length edges = 0 \<and> length (Dependencies info) = 0")
    case True
    with 2(1)[OF info True] 2(3) info d show ?thesis by fastforce
  next
    case False
    with 2(2)[OF info False] 2(3) info show ?thesis by fastforce
  qed
qed auto

lemma partition_Graph:
  "\<exists>nx q. partition_loop (IndexByPackageName p) (Graph p) [] [] = Return (nx, q) \<and>
     mset nx + mset q = mset (names p) \<and> (\<forall>n \<in> set nx. deps_of p n = [])"
proof -
  have "\<forall>(n, es) \<in> set (Graph p). n \<in> set (names p)" by (auto simp: Graph_def names_def)
  moreover have "map fst (Graph p) = names p" by (simp add: Graph_def names_def)
  ultimately show ?thesis using partition_loop_spec[of "Graph p" p "[]" "[]"] by simp
qed

lemma order_inv_init: "order_start p st \<Longrightarrow> order_inv p st"
  using partition_Graph[of p]
  by (auto simp: order_start_def order_inv_def order_init_def Let_def)

lemma not_stuck: "\<not> stuck p s n \<longleftrightarrow> set (deps_of p n) \<subseteq> set s"
  by (auto simp: stuck_def)

lemma order_inv_flush: "order_inv p st \<Longrightarrow> order_inv p (flush_group st)"
  unfolding order_inv_def flush_group_def
  by (auto simp: not_stuck ac_simps)

lemma order_inv_iters [simp]: "order_inv p (st\<lparr>iters := k\<rparr>) \<longleftrightarrow> order_inv p st"
  by (simp add: order_inv_def)

lemma order_inv_queue:
  assumes "order_inv p st" and "n \<in> set (queue st)"
  shows "n \<in> set (names p)" and "n \<notin> set (seen st)"
proof -
  have m: "mset (concat (order st)) + mset (nextg st) + mset (queue st) = mset (names p)"
    and d: "distinct (names p)" and s: "set (seen st) = set (concat (order st))"
    using assms(1) by (auto simp: order_inv_def)
  from m have m': "mset (concat (order st) @ nextg st @ queue st) = mset (names p)" by (simp add: ac_simps)
  then show "n \<in> set (names p)" using assms(2) by (metis Un_iff set_append mset_eq_setD)
  from m' d have "distinct (concat (order st) @ nextg st @ queue st)"
    by (metis mset_eq_imp_distinct_iff)
  then show "n \<notin> set (seen st)" using s assms(2) by auto
qed

text \<open>A step that goes on either defers the first node of the queue, which is stuck, or adds it
  to the next group.\<close>

lemma order_step_cases:
  assumes "order_inv p st" and "order_next c p st st'"
  obtains fl node rest where "order_inv p fl" and "queue fl = node # rest"
      and "fl = flush_group (st\<lparr>iters := iters st + 1\<rparr>)"
      and "stuck p (seen fl) node" and "st' = fl\<lparr>queue := rest @ [node], runs := runs fl + 1\<rparr>"
    | fl node rest where "order_inv p fl" and "queue fl = node # rest"
      and "\<not> stuck p (seen fl) node" and "st' = fl\<lparr>queue := rest, nextg := nextg fl @ [node], runs := 0\<rparr>"
proof -
  define fl where "fl = flush_group (st\<lparr>iters := iters st + 1\<rparr>)"
  have inv: "order_inv p fl" using assms(1) by (simp add: fl_def order_inv_flush)
  from assms(2) obtain node rest where q: "queue fl = node # rest"
    by (auto simp: order_next_def order_step_def Let_def fl_def split: if_splits list.splits)
  from order_inv_queue[OF inv, of node] q obtain info
    where n: "node \<notin> set (seen fl)" and i: "IndexByPackageName p node = Some info"
      and d: "deps_of p node = Dependencies info" using index_names by fastforce
  have st: "stuck p (seen fl) node \<longleftrightarrow> find (\<lambda>dep. dep \<notin> set (seen fl)) (Dependencies info) \<noteq> None"
    by (auto simp: stuck_def d find_None_iff)
  from assms(2) q n i
  have "st' = (case find (\<lambda>dep. dep \<notin> set (seen fl)) (Dependencies info) of
       Some dep \<Rightarrow> fl\<lparr>queue := rest @ [node], runs := runs fl + 1\<rparr>
     | None \<Rightarrow> fl\<lparr>queue := rest, nextg := nextg fl @ [node], runs := 0\<rparr>)"
    by (auto simp: order_next_def order_step_def Let_def fl_def split: if_splits option.splits)
  with st inv q fl_def that show thesis by (cases "stuck p (seen fl) node") auto
qed

lemma order_inv_step: "order_inv p st \<Longrightarrow> order_next c p st st' \<Longrightarrow> order_inv p st'"
proof (erule (1) order_step_cases)
  fix fl node rest
  assume inv: "order_inv p fl" and q: "queue fl = node # rest" and stk: "stuck p (seen fl) node"
    and fl: "fl = flush_group (st\<lparr>iters := iters st + 1\<rparr>)"
    and st': "st' = fl\<lparr>queue := rest @ [node], runs := runs fl + 1\<rparr>"
  have "nextg fl \<noteq> [] \<Longrightarrow> runs fl \<noteq> length (queue fl)"
    by (auto simp: fl flush_group_def split: if_splits)
  moreover have "\<forall>n \<in> set (drop (length rest - runs fl) rest). stuck p (seen fl) n"
    using inv q by (cases "runs fl \<le> length rest")
      (auto simp: order_inv_def Suc_diff_le)
  ultimately show "order_inv p st'"
    using inv q stk unfolding st' order_inv_def by (auto simp: ac_simps)
next
  fix fl node rest
  assume "order_inv p fl" and "queue fl = node # rest" and "\<not> stuck p (seen fl) node"
    and "st' = fl\<lparr>queue := rest, nextg := nextg fl @ [node], runs := 0\<rparr>"
  then show "order_inv p st'" unfolding order_inv_def by (auto simp: ac_simps)
qed

interpretation build_loop: step_invariant "order_start p" "order_next c p" "order_inv p" for p c
  by unfold_locales (auto intro: order_inv_init order_inv_step)

lemma order_loop_end:
  assumes "order_inv p st"
  shows "\<exists>st'. order_inv p st' \<and>
    order_step c p (IndexByPackageName p) st' = Inl (order_loop c p (IndexByPackageName p) st)"
  using assms
proof (induction c p "IndexByPackageName p" st rule: order_loop.induct)
  case (1 c p st)
  show ?case
  proof (cases "order_step c p (IndexByPackageName p) st")
    case (Inl e)
    with "1.prems" show ?thesis by (auto simp: order_loop.simps[of c p _ st])
  next
    case (Inr st')
    then have "order_inv p st'"
      using order_inv_step "1.prems" by (auto simp: order_next_def)
    with "1.hyps"[OF Inr] Inr show ?thesis by (simp add: order_loop.simps[of c p _ st])
  qed
qed

lemma loop_from_start:
  assumes "distinct (names p)"
  shows "\<exists>next q st'. partition_loop (IndexByPackageName p) (Graph p) [] [] = Return (next, q) \<and>
    order_inv p st' \<and> order_step c p (IndexByPackageName p) st' =
      Inl (order_loop c p (IndexByPackageName p) (order_init next q))"
proof -
  obtain nx q where pl: "partition_loop (IndexByPackageName p) (Graph p) [] [] = Return (nx, q)"
    using partition_Graph by blast
  with assms have "order_start p (order_init nx q)" by (auto simp: order_start_def)
  then have "order_inv p (order_init nx q)"
    using build_loop.inv_reach reach_init by metis
  with pl order_loop_end show ?thesis by blast
qed

text \<open>How the loop ends: with all packages placed, by cancellation, or because no node left in
  the queue has its dependencies placed.\<close>

lemma order_step_done:
  assumes "order_inv p st" and "order_step c p (IndexByPackageName p) st = Inl (Loop_Done st')"
  shows "order_inv p st' \<and> (queue st' = [] \<or> (\<exists>n. c n))"
proof -
  have len: "length (Graph p) = length (names p)" by (simp add: Graph_def names_def)
  have inv: "order_inv p (flush_group (st\<lparr>iters := iters st + 1\<rparr>))"
    using assms(1) by (simp add: order_inv_flush)
  have full: "queue st = []" if "length (names p) \<le> length (seen st)"
  proof -
    have m: "mset (concat (order st) @ nextg st @ queue st) = mset (names p)"
      and d: "distinct (names p)" and s: "set (seen st) = set (concat (order st))" "distinct (seen st)"
      using assms(1) by (auto simp: order_inv_def ac_simps)
    then have "distinct (concat (order st))" by (metis distinct_append mset_eq_imp_distinct_iff)
    with s have "length (seen st) = length (concat (order st))" by (metis distinct_card)
    moreover from m have "length (concat (order st)) + length (nextg st) + length (queue st) = length (names p)"
      by (metis add.assoc length_append mset_eq_length)
    ultimately have "length (queue st) = 0" using that by linarith
    then show ?thesis by simp
  qed
  from assms(2) have "st' = st\<lparr>iters := iters st + 1\<rparr> \<and>
       (length (names p) = 0 \<or> length (names p) \<le> length (seen st) \<or> queue st = [] \<or> (\<exists>n. c n)) \<or>
     st' = flush_group (st\<lparr>iters := iters st + 1\<rparr>) \<and> queue (flush_group (st\<lparr>iters := iters st + 1\<rparr>)) = []"
    by (auto simp: order_step_def Let_def len names_def split: if_splits list.splits option.splits)
  then show ?thesis
  proof
    assume a: "st' = st\<lparr>iters := iters st + 1\<rparr> \<and>
       (length (names p) = 0 \<or> length (names p) \<le> length (seen st) \<or> queue st = [] \<or> (\<exists>n. c n))"
    with assms(1) have "order_inv p st'" by simp
    moreover from a full have "queue st' = [] \<or> (\<exists>n. c n)" by auto
    ultimately show ?thesis ..
  next
    assume "st' = flush_group (st\<lparr>iters := iters st + 1\<rparr>) \<and>
      queue (flush_group (st\<lparr>iters := iters st + 1\<rparr>)) = []"
    with inv show ?thesis by metis
  qed
qed

lemma order_step_no_panic:
  assumes "order_inv p st"
  shows "order_step c p (IndexByPackageName p) st \<noteq> Inl (Loop_Panic e)"
proof
  assume a: "order_step c p (IndexByPackageName p) st = Inl (Loop_Panic e)"
  define fl where "fl = flush_group (st\<lparr>iters := iters st + 1\<rparr>)"
  have inv: "order_inv p fl" using assms by (simp add: fl_def order_inv_flush)
  from a obtain node rest where "queue fl = node # rest" "IndexByPackageName p node = None"
    by (auto simp: order_step_def Let_def fl_def split: if_splits list.splits option.splits)
  with order_inv_queue(1)[OF inv, of node] index_names[of node p] show False by auto
qed

text \<open>A set of packages none of which can ever be placed: each depends on a member of the set
  or on a name that is no package at all.\<close>

definition irresolvable :: "Packages \<Rightarrow> string set \<Rightarrow> bool" where
  "irresolvable p Q \<longleftrightarrow> Q \<noteq> {} \<and> Q \<subseteq> set (names p) \<and>
     (\<forall>n \<in> Q. \<exists>d \<in> set (deps_of p n). d \<in> Q \<or> d \<notin> set (names p))"

lemma order_step_error:
  assumes inv: "order_inv p st"
    and err: "order_step c p (IndexByPackageName p) st = Inl (Loop_Error e)"
  shows "irresolvable p (set (queue st)) \<and> e = irresolveable"
proof -
  define fl where "fl = flush_group (st\<lparr>iters := iters st + 1\<rparr>)"
  have finv: "order_inv p fl" using inv by (simp add: fl_def order_inv_flush)
  have q: "queue fl = queue st" by (simp add: fl_def flush_group_def)
  from err have e: "e = irresolveable" and ne: "queue st \<noteq> []" and r: "length (queue fl) * 10 \<le> runs fl"
    by (auto simp: order_step_def Let_def fl_def split: if_splits list.splits option.splits)
  have big: "length (queue fl) < runs fl" using ne q r by (cases "queue st") auto
  then have nx: "nextg fl = []" using finv by (force simp: order_inv_def)
  from finv big have "\<forall>n \<in> set (queue fl). stuck p (seen fl) n" by (simp add: order_inv_def)
  moreover have "set (names p) = set (seen fl) \<union> set (queue fl)"
  proof -
    have "mset (concat (order fl) @ queue fl) = mset (names p)"
      and s: "set (seen fl) = set (concat (order fl))"
      using finv nx by (auto simp: order_inv_def)
    then show ?thesis by (metis mset_eq_setD set_append)
  qed
  ultimately show ?thesis using ne e q by (fastforce simp: irresolvable_def stuck_def)
qed

lemma layered_avoids:
  assumes "layered deps D gs" and "\<forall>n \<in> Q. \<exists>d \<in> set (deps n). d \<in> Q \<or> d \<notin> N"
    and "D \<inter> Q = {}" and "D \<subseteq> N" and "set (concat gs) \<subseteq> N"
  shows "set (concat gs) \<inter> Q = {}"
  using assms
proof (induction gs arbitrary: D)
  case (Cons g gs)
  have "set g \<inter> Q = {}"
  proof (rule ccontr)
    assume "set g \<inter> Q \<noteq> {}"
    then obtain n where n: "n \<in> set g" "n \<in> Q" by blast
    with Cons.prems(2) obtain d where "d \<in> set (deps n)" "d \<in> Q \<or> d \<notin> N" by blast
    moreover from n Cons.prems(1) have "set (deps n) \<subseteq> D" by simp
    ultimately show False using Cons.prems(3,4) by blast
  qed
  moreover have "set (concat gs) \<inter> Q = {}"
    using Cons.prems calculation by (intro Cons.IH[of "D \<union> set g"]) (auto simp: set_concat)
  ultimately show ?case by (auto simp: set_concat)
qed (simp add: set_concat)

section \<open>What GetBuildOrder returns\<close>

lemma order_packages_result:
  assumes d: "distinct (names p)"
  shows "(\<exists>gs. order_packages c p path = Return (Inr \<lparr>Order = gs, bo_Packages = p, Path = path\<rparr>) \<and>
            layered (deps_of p) {} gs \<and> distinct (concat gs) \<and> set (concat gs) \<subseteq> set (names p) \<and>
            (set (concat gs) = set (names p) \<or> (\<exists>n. c n))) \<or>
         order_packages c p path = Return (Inl irresolveable) \<and> (\<exists>Q. irresolvable p Q)"
proof -
  obtain nx q st where pl: "partition_loop (IndexByPackageName p) (Graph p) [] [] = Return (nx, q)"
    and inv: "order_inv p st"
    and st: "order_step c p (IndexByPackageName p) st =
      Inl (order_loop c p (IndexByPackageName p) (order_init nx q))"
    using loop_from_start[OF d] by blast
  show ?thesis
  proof (cases "order_loop c p (IndexByPackageName p) (order_init nx q)")
    case (Loop_Done st')
    define gs where "gs = order st' @ (if 0 < length (nextg st') then [nextg st'] else [])"
    have inv': "order_inv p st'" and fin: "queue st' = [] \<or> (\<exists>n. c n)"
      using order_step_done[OF inv] st Loop_Done by auto
    have gs_eq: "concat gs = concat (order st') @ nextg st'" by (simp add: gs_def)
    from inv' have m: "mset (concat gs @ queue st') = mset (names p)"
      by (simp add: gs_eq order_inv_def ac_simps)
    have "layered (deps_of p) {} gs" using inv' by (auto simp: gs_def order_inv_def not_stuck)
    moreover have "distinct (concat gs)" and "set (concat gs) \<subseteq> set (names p)"
      using m d by (metis distinct_append mset_eq_imp_distinct_iff)
        (metis Un_upper1 m mset_eq_setD set_append)
    moreover have "set (concat gs) = set (names p) \<or> (\<exists>n. c n)"
      using fin m by (metis append_Nil2 mset_eq_setD)
    ultimately show ?thesis
      using pl Loop_Done by (auto simp: order_packages_def gs_def)
  next
    case (Loop_Error e)
    with order_step_error[OF inv] st pl show ?thesis by (auto simp: order_packages_def)
  next
    case (Loop_Panic e)
    with order_step_no_panic[OF inv] st show ?thesis by simp
  qed
qed

lemma GetBuildOrder_order:
  assumes "\<And>xs. mset (map_order xs) = mset xs"
    and "Collect load map_order path = Return (Inr m)"
  shows "GetBuildOrder c load map_order path = order_packages c (mod_Packages m) path"
    and "distinct (names (mod_Packages m))"
  using Collect_names[OF assms] assms(2) by (auto simp: GetBuildOrder_def names_def)

text \<open>C1: a build order is sound, also when the context is cancelled on the way: no package is
  listed twice, every one listed was collected, and each dependency of a package stands in a
  strictly earlier group than the package itself.\<close>

theorem GetBuildOrder_sound:
  assumes "\<And>xs. mset (map_order xs) = mset xs"
    and "Collect load map_order path = Return (Inr m)"
    and "GetBuildOrder c load map_order path = Return (Inr bo)"
  shows "distinct (concat (Order bo)) \<and> set (concat (Order bo)) \<subseteq> set (names (mod_Packages m)) \<and>
    (\<forall>i < length (Order bo). \<forall>n \<in> set (Order bo ! i). \<forall>d \<in> set (deps_of (mod_Packages m) n).
       \<exists>j < i. d \<in> set (Order bo ! j))"
proof -
  note go = GetBuildOrder_order[OF assms(1,2)]
  from order_packages_result[OF go(2), of c path] assms(3) go(1)[of c]
  have "layered (deps_of (mod_Packages m)) {} (Order bo) \<and> distinct (concat (Order bo)) \<and>
      set (concat (Order bo)) \<subseteq> set (names (mod_Packages m))" by auto
  then show ?thesis using layered_nth[of "deps_of (mod_Packages m)" "{}" "Order bo"] by blast
qed

definition chain_load :: "string \<Rightarrow> string \<Rightarrow> go_error + loaded list" where
  "chain_load dir pattern = Inr
     (let d = TPkg ''m/d'' []; c = TPkg ''m/c'' [d]; b = TPkg ''m/b'' [c];
          file = (\<lambda>path imports. \<lparr>f_PkgPath = path, f_Module = Some (''m'', ''/m''), f_Imports = imports\<rparr>)
      in [file ''m/a'' [b], file ''m/b'' [c], file ''m/c'' [d], file ''m/d'' []])"

definition chain_module :: Module where
  "chain_module =
     (let info = (\<lambda>name deps. \<lparr>ModuleName = ''m'', PackageName = name,
                    LocalDirectory = CHR ''/'' # name, Dependencies = deps\<rparr>)
      in \<lparr>mod_Path = ''m'', mod_Packages =
           [info ''m/a'' [''m/d''], info ''m/b'' [], info ''m/c'' [], info ''m/d'' []]\<rparr>)"

lemma chain_Collect: "Collect chain_load (\<lambda>xs. xs) ''m'' = Return (Inr chain_module)"
  by code_simp

lemma chain_order:
  "GetBuildOrder (\<lambda>_. False) chain_load (\<lambda>xs. xs) ''m'' = Return (Inr
     \<lparr>Order = [[''m/b'', ''m/c'', ''m/d''], [''m/a'']], bo_Packages = mod_Packages chain_module,
      Path = ''m''\<rparr>)"
  by code_simp

theorem GetBuildOrder_sound_witness:
  "distinct [''m/b'', ''m/c'', ''m/d'', ''m/a''] \<and> ''m/d'' \<in> set (deps_of (mod_Packages chain_module) ''m/a'') \<and>
   (\<exists>j < 1. ''m/d'' \<in> set ([[''m/b'', ''m/c'', ''m/d''], [''m/a'']] ! j))"
proof -
  have d: "''m/d'' \<in> set (deps_of (mod_Packages chain_module) ''m/a'')" by code_simp
  note s = GetBuildOrder_sound [of "\<lambda>xs. xs", OF refl chain_Collect chain_order]
  from s have "\<exists>j < 1. ''m/d'' \<in> set ([[''m/b'', ''m/c'', ''m/d''], [''m/a'']] ! j)"
    using d by (simp add: All_less_Suc numeral_2_eq_2)
  moreover from s have "distinct [''m/b'', ''m/c'', ''m/d'', ''m/a'']" by simp
  ultimately show ?thesis using d by blast
qed

lemma order_packages_complete:
  assumes "distinct (names p)" and "\<And>n. \<not> c n"
  shows "if \<exists>Q. irresolvable p Q then order_packages c p path = Return (Inl irresolveable)
    else \<exists>bo. order_packages c p path = Return (Inr bo) \<and> set (concat (Order bo)) = set (names p)"
proof -
  have no: "False" if "irresolvable p Q" and "layered (deps_of p) {} gs"
    and "set (concat gs) = set (names p)" for Q gs
  proof -
    have "set (concat gs) \<inter> Q = {}"
      using that by (intro layered_avoids[of _ "{}" _ _ "set (names p)"])
        (auto simp: irresolvable_def)
    with that show False by (auto simp: irresolvable_def)
  qed
  from order_packages_result[OF assms(1), of c path] assms(2)
  consider gs where "order_packages c p path =
        Return (Inr \<lparr>Order = gs, bo_Packages = p, Path = path\<rparr>)"
      "layered (deps_of p) {} gs" "set (concat gs) = set (names p)"
    | "order_packages c p path = Return (Inl irresolveable)" "\<exists>Q. irresolvable p Q" by blast
  then show ?thesis
  proof cases
    case 1
    with no have "\<nexists>Q. irresolvable p Q" by blast
    with 1 show ?thesis by auto
  next
    case 2
    then show ?thesis by simp
  qed
qed

text \<open>C2: a call whose context is never cancelled, on any loader of packages and any order in
  which the runtime walks the map of collected packages, always returns. When collecting the
  packages panics or fails (the loader's error, or no package) the call does the same. When they
  are collected, it fails, with the irresolvable dependency error, exactly when there is a set of
  packages each of which depends on a member of the set or on a package that was not collected,
  and otherwise answers an order that lists every package; ordering itself never panics.\<close>

theorem GetBuildOrder_complete:
  assumes "\<And>xs. mset (map_order xs) = mset xs"
    and "\<And>n. \<not> c n"
  shows "case Collect load map_order path of
      Panic e \<Rightarrow> GetBuildOrder c load map_order path = Panic e
    | Return (Inl err) \<Rightarrow> GetBuildOrder c load map_order path = Return (Inl err)
    | Return (Inr m) \<Rightarrow>
        (if \<exists>Q. irresolvable (mod_Packages m) Q
         then GetBuildOrder c load map_order path = Return (Inl irresolveable)
         else \<exists>bo. GetBuildOrder c load map_order path = Return (Inr bo) \<and>
                set (concat (Order bo)) = set (names (mod_Packages m)))"
proof (cases "Collect load map_order path")
  case (Panic e)
  then show ?thesis by (simp add: GetBuildOrder_def)
next
  case (Return r)
  show ?thesis
  proof (cases r)
    case (Inl err)
    with Return show ?thesis by (simp add: GetBuildOrder_def)
  next
    case (Inr m)
    with Return have m: "Collect load map_order path = Return (Inr m)" by simp
    note go = GetBuildOrder_order[OF assms(1) m]
    show ?thesis
      using order_packages_complete[OF go(2), of c path] assms(2)
      by (simp add: m go(1))
  qed
qed

theorem GetBuildOrder_complete_witness:
  "(\<exists>Q. irresolvable (mod_Packages chain_module) Q) = False \<and>
   set (concat [[''m/b'', ''m/c'', ''m/d''], [''m/a'']]) = set (names (mod_Packages chain_module))"
  using GetBuildOrder_complete [of "\<lambda>xs. xs" "\<lambda>_. False" chain_load "''m''", OF refl]
    chain_Collect chain_order
  by (auto split: if_splits)

declare set_concat [simp]

end
