(* ===== verification/Jasper.thy ===== *)
theory Jasper
  imports Util
begin

text \<open>
  The command builder of the process library \<open>jasper\<close>, as far as the program fills it in. What
  a command does when it runs is a parameter of each operation that runs one: a function from
  the built command and the state of the world to the error it returns and the new state.
\<close>

record jcommand =
  jc_id :: string
  jc_dir :: string
  jc_env :: "(string \<times> string) list"
  jc_args :: "string list list"
  jc_script :: "string list"
  jc_sudo :: bool
  jc_background :: bool
  jc_continue :: bool
  jc_ignore :: bool

definition CreateCommand :: jcommand where
  "CreateCommand =
     \<lparr>jc_id = [], jc_dir = [], jc_env = [], jc_args = [], jc_script = [], jc_sudo = False,
      jc_background = False, jc_continue = False, jc_ignore = False\<rparr>"

type_synonym 'w run = "jcommand \<Rightarrow> 'w \<Rightarrow> errors \<times> 'w"

text \<open>A runner that records what it is given: the world is the list of commands run.\<close>

definition trace_run :: "(jcommand \<Rightarrow> errors) \<Rightarrow> jcommand list run" where
  "trace_run f c w = (f c, w @ [c])"

end
