(* ===== verification/Gadget.thy ===== *)
theory Gadget
  imports Build_Order Jasper
begin

text \<open>
  \<open>tools/gadget\<close>: running the tests, the linter and the generators of a Go module
  (\<open>gadget.go\<close>, \<open>generate.go\<close>, \<open>cache.go\<close>). Commands run through parameters; a test command
  also yields the lines it printed, which the code feeds to the output filter. The worker pool
  runs the queued jobs in an order it chooses (the parameter \<open>schedule\<close>), a job at a time.
  Durations are integers (nanoseconds), printed by the parameter \<open>show_dur\<close>; percentages are of
  an abstract type \<open>'f\<close>, since the code only parses one and compares it with 100.
\<close>

section \<open>Options\<close>

record Options =
  Notify :: string
  RootPath :: string
  PackagePath :: string
  Timeout :: int
  Recursive :: bool
  CompileOnly :: bool
  UseCache :: bool
  ReportCoverage :: bool
  SkipLint :: bool
  GoTestArgs :: "string list"
  Workers :: int

definition time_Second :: int where "time_Second = 1000000000"

definition Options_errors :: "Options \<Rightarrow> errors" where
  "Options_errors opts =
     when_err (Workers opts < 1) (Errf ''gadget options cannot specify 0 or fewer workers'' []) @
     when_err (Timeout opts < time_Second) (Errf ''timeout should be at least a second'' []) @
     when_err (has_suffix (RootPath opts) ''...'')
       (Errf ''root path [%s] should not have ...'' [S (RootPath opts)]) @
     when_err (Recursive opts \<and>
         (PackagePath opts \<noteq> [] \<and> PackagePath opts \<noteq> ''./'' \<and> PackagePath opts \<noteq> ''...''))
       (Errf ''recursive gadget calls must not specify a limiting path %q'' [S (PackagePath opts)])"

definition Options_normalize :: "(string \<Rightarrow> go_error + string) \<Rightarrow> Options \<Rightarrow> Options" where
  "Options_normalize to_abs opts =
     (let opts = (if has_prefix (PackagePath opts) ''./''
                  then (if length (PackagePath opts) = 2 then opts\<lparr>PackagePath := []\<rparr>
                        else opts\<lparr>PackagePath := drop 2 (PackagePath opts)\<rparr>)
                  else opts);
          opts = (if PackagePath opts = [] then opts\<lparr>PackagePath := ''...''\<rparr> else opts);
          opts = (if \<not> is_abs (RootPath opts)
                  then (case to_abs (RootPath opts) of
                          Inr absPath \<Rightarrow> opts\<lparr>RootPath := absPath\<rparr> | Inl e \<Rightarrow> opts)
                  else opts)
      in if ReportCoverage opts then opts\<lparr>CompileOnly := False\<rparr> else opts)"

text \<open>The body computes an error, but the deferred function assigns the named result
  \<open>err = erc.ParsePanic(recover())\<close>; \<open>parse_panic\<close> is that library function, and nothing in the
  body panics, so that \<open>recover()\<close> is nil.\<close>

definition Options_Validate ::
    "(go_error option \<Rightarrow> errors) \<Rightarrow> (string \<Rightarrow> go_error + string) \<Rightarrow> Options \<Rightarrow> errors \<times> Options" where
  "Options_Validate parse_panic to_abs opts =
     (let (err, opts') = (if Options_errors opts \<noteq> [] then (Options_errors opts, opts)
                          else ([], Options_normalize to_abs opts));
          err = parse_panic None
      in (err, opts'))"

text \<open>\<open>Options.Validate\<close> never rejects anything: the deferred function replaces the
  collected errors by the result of a recovery that has nothing to recover. Invalid options are
  merely left as they are; valid ones are normalised to a package path that is never empty and
  to coverage excluding compile-only.\<close>

theorem Options_Validate_never_fails:
  assumes "parse_panic None = []"
  shows "\<exists>opts'. Options_Validate parse_panic to_abs opts = ([], opts') \<and>
    (Options_errors opts \<noteq> [] \<longrightarrow> opts' = opts) \<and>
    (Options_errors opts = [] \<longrightarrow> PackagePath opts' \<noteq> [] \<and>
       (ReportCoverage opts' \<longrightarrow> \<not> CompileOnly opts'))"
  using assms by (simp add: Options_Validate_def Options_normalize_def Let_def split: sum.splits)

definition bad_options :: Options where
  "bad_options =
     \<lparr>Notify = [], RootPath = ''/src/...'', PackagePath = ''./x'', Timeout = 0, Recursive = True,
      CompileOnly = True, UseCache = False, ReportCoverage = True, SkipLint = False,
      GoTestArgs = [], Workers = 0\<rparr>"

theorem Options_Validate_never_fails_witness:
  "length (Options_errors bad_options) = 4 \<and>
   Options_Validate (\<lambda>p. opt_err p) (\<lambda>p. Inr p) bad_options = ([], bad_options)"
proof -
  have four: "length (Options_errors bad_options) = 4"
    by (simp add: Options_errors_def bad_options_def time_Second_def has_suffix_def has_prefix_def)
  then have "Options_errors bad_options \<noteq> []" by auto
  with four Options_Validate_never_fails [of opt_err "\<lambda>p. Inr p" bad_options] show ?thesis by auto
qed

section \<open>Test reports\<close>

datatype priority = Debug_Level | Info_Level | Warning_Level | Error_Level

datatype 'f kv_value = VS string | VB bool | VI int | VF 'f | VE errors

record 'f testReport =
  tr_Package :: string
  tr_Coverage :: 'f
  tr_Duration :: int
  tr_Info :: PackageInfo
  tr_CompileOnly :: bool
  tr_CoverageEnabled :: bool
  tr_Cached :: bool
  tr_FullyCovered :: bool
  tr_MissingTests :: bool

definition testReport_Message ::
    "(int \<Rightarrow> int) \<Rightarrow> 'f testReport \<Rightarrow> (string \<times> 'f kv_value) list \<times> priority" where
  "testReport_Message round_ms tr =
     ((''pkg'', VS (tr_Package tr)) #
      (if tr_MissingTests tr then [(''state'', VS ''untested'')]
       else (if tr_Cached tr then [(''cached'', VB True)] else []) @
            (if tr_CoverageEnabled tr
             then (if tr_FullyCovered tr then [(''covered'', VB True)]
                   else [(''covered'', VF (tr_Coverage tr))])
             else [])) @
      [(''dur'', VI (round_ms (tr_Duration tr)))],
      (if tr_MissingTests tr then Warning_Level else Info_Level))"

text \<open>A filter parses floats and durations with the standard library (the record of parameters
  below), indexes the fields of a line, which panics when there are too few, and stores a report
  in the shared map.\<close>

record 'f parsers =
  parse_float :: "string \<Rightarrow> go_error + 'f"
  parse_duration :: "string \<Rightarrow> go_error + int"
  zero_float :: 'f
  hundred :: 'f

definition index_at :: "'a list \<Rightarrow> nat \<Rightarrow> ('a \<Rightarrow> 'b outcome) \<Rightarrow> 'b outcome" where
  "index_at xs i k = (if i < length xs then k (xs ! i) else Panic index_out_of_range)"

definition must :: "go_error + 'a \<Rightarrow> ('a \<Rightarrow> 'b outcome) \<Rightarrow> 'b outcome" where
  "must r k = (case r of Inl e \<Rightarrow> Panic e | Inr x \<Rightarrow> k x)"

definition filter_ok_line ::
    "'f parsers \<Rightarrow> Options \<Rightarrow> PackageInfo \<Rightarrow> string \<Rightarrow> 'f testReport outcome" where
  "filter_ok_line ps opts info mstr =
     (let parts = str_fields mstr; cached = str_contains mstr ''cached''
      in index_at parts 1 (\<lambda>name.
         (\<lambda>k. if \<not> cached then index_at parts 2 (\<lambda>d. must (parse_duration ps d) k) else k 0)
         (\<lambda>dur.
         (\<lambda>k. if ReportCoverage opts
              then index_at parts 4 (\<lambda>c. must (parse_float ps (butlast c)) k) else k (zero_float ps))
         (\<lambda>cov.
            Return \<lparr>tr_Package = name, tr_Coverage = cov, tr_Duration = dur, tr_Info = info,
                    tr_CompileOnly = CompileOnly opts, tr_CoverageEnabled = ReportCoverage opts,
                    tr_Cached = cached,
                    tr_FullyCovered = (ReportCoverage opts \<and> cov = hundred ps),
                    tr_MissingTests = False\<rparr>))))"

definition filter_missing_line ::
    "'f parsers \<Rightarrow> Options \<Rightarrow> PackageInfo \<Rightarrow> string \<Rightarrow> 'f testReport outcome" where
  "filter_missing_line ps opts info mstr =
     index_at (str_fields mstr) 1 (\<lambda>name.
        Return \<lparr>tr_Package = name, tr_Coverage = zero_float ps, tr_Duration = 0, tr_Info = info,
                tr_CompileOnly = CompileOnly opts, tr_CoverageEnabled = ReportCoverage opts,
                tr_Cached = str_contains mstr ''cached'', tr_FullyCovered = False,
                tr_MissingTests = True\<rparr>)"

type_synonym 'f reports = "(string \<times> 'f testReport) list"

definition testOutputFilter ::
    "'f parsers \<Rightarrow> Options \<Rightarrow> PackageInfo \<Rightarrow> string \<Rightarrow> 'f reports \<Rightarrow> string \<times> errors \<times> 'f reports" where
  "testOutputFilter ps opts info mstr mp =
     (let store = (\<lambda>r. case r of
                     Panic e \<Rightarrow> ([], [e], mp)
                   | Return report \<Rightarrow> ([], [io_EOF], upd (tr_Package report) report mp))
      in if has_prefix mstr ''ok'' then store (filter_ok_line ps opts info mstr)
         else if has_prefix mstr ''?'' then store (filter_missing_line ps opts info mstr)
         else if has_prefix mstr ''FAIL'' then ([], [io_EOF], mp)
         else (mstr, [], mp))"

section \<open>Coverage report\<close>

datatype 'f report_result =
    Silent
  | Sent "(string \<times> 'f kv_value) list" priority "(string \<times> string \<times> string) list option"

datatype scan_result =
    Scan_Return
  | Scan_Done int int "(string \<times> string \<times> string) list"  \<comment> \<open>\<open>count\<close>, \<open>numCovered\<close>, table\<close>

fun report_scan ::
    "(string \<Rightarrow> string) \<Rightarrow> string list \<Rightarrow> int \<Rightarrow> int \<Rightarrow> (string \<times> string \<times> string) list \<Rightarrow>
     scan_result outcome" where
  "report_scan replace [] cnt covered table = Return (Scan_Done cnt covered table)"
| "report_scan replace (line # rest) cnt covered table =
     (let cols = str_fields (replace line)
      in index_at cols 0 (\<lambda>c0.
         if c0 = ''total:'' then Return Scan_Return
         else if has_suffix line ''100.0%'' then Return Scan_Return
         else
           let c0' = (if has_prefix c0 ''/'' then drop 1 c0 else c0)
           in index_at cols 1 (\<lambda>c1. index_at cols 2 (\<lambda>c2.
                report_scan replace rest (cnt + 1) covered (table @ [(c0', c1, c2)])))))"

definition report_prefix :: "string \<Rightarrow> string \<Rightarrow> string" where
  "report_prefix pwd dir =
     (if pwd = dir then [] else if has_prefix dir pwd then drop (length pwd + 1) dir else dir)"

definition report ::
    "'f parsers \<Rightarrow> (int \<Rightarrow> int) \<Rightarrow> (string \<Rightarrow> string list \<times> errors) \<Rightarrow> go_error + string \<Rightarrow>
     PackageInfo \<Rightarrow> 'f testReport \<Rightarrow> string \<Rightarrow> int \<Rightarrow> errors \<Rightarrow> 'f report_result outcome" where
  "report ps round_ms scan getwd md tr coverage runtime err =
     must getwd (\<lambda>pwd.
       let pfx = report_prefix pwd (LocalDirectory md);
           replace = (\<lambda>line. replace_all line (tr_Package tr) pfx);
           (lines, scanErr) = scan coverage
       in case report_scan replace lines 0 0 [] of
            Panic e \<Rightarrow> Panic e
          | Return Scan_Return \<Rightarrow> Return Silent
          | Return (Scan_Done cnt numCovered table) \<Rightarrow>
              let err = err @ scanErr in
              Return (Sent
                ((''pkg'', VS (PackageName md)) #
                 (if tr_MissingTests tr then [(''state'', VS ''no tests'')]
                  else if tr_Cached tr then [(''state'', VS ''CACHED'')] else []) @
                 (if tr_CoverageEnabled tr
                  then (if tr_Coverage tr = hundred ps then [(''covered'', VB True)]
                        else [(''coverage'', VF (tr_Coverage tr)), (''fncount'', VI cnt),
                              (''covered'', VI numCovered)])
                  else []) @
                 [(''wal'', VI (round_ms runtime)), (''dur'', VI (round_ms (tr_Duration tr)))] @
                 (if err \<noteq> [] then [(''err'', VE err)] else []))
                (if err \<noteq> [] then Error_Level
                 else if tr_MissingTests tr then Warning_Level
                 else Info_Level)
                (if tr_CoverageEnabled tr then Some table else None)))"

text \<open>A line that ends the scan: the total, and also any function that is fully covered.\<close>

definition scan_stop :: "(string \<Rightarrow> string) \<Rightarrow> string \<Rightarrow> bool" where
  "scan_stop replace line \<longleftrightarrow> str_fields (replace line) ! 0 = ''total:'' \<or> has_suffix line ''100.0%''"

lemma report_scan_result:
  "\<forall>line \<in> set lines. 3 \<le> length (str_fields (replace line)) \<Longrightarrow>
   \<exists>table'. report_scan replace lines cnt covered table =
     Return (if \<exists>line \<in> set lines. scan_stop replace line then Scan_Return
             else Scan_Done (cnt + int (length lines)) covered table')"
proof (induction lines arbitrary: cnt table)
  case (Cons line rest)
  from Cons.prems have len: "3 \<le> length (str_fields (replace line))" by simp
  show ?case
  proof (cases "scan_stop replace line")
    case True
    have "\<not> length (str_fields (replace line)) \<le> 0" using len by linarith
    with True show ?thesis by (auto simp: index_at_def scan_stop_def Let_def)
  next
    case False
    have "0 < length (str_fields (replace line))" "1 < length (str_fields (replace line))"
      "2 < length (str_fields (replace line))" using len by linarith+
    with False obtain table' where
      "report_scan replace (line # rest) cnt covered table = report_scan replace rest (cnt + 1) covered table'"
      by (auto simp: index_at_def scan_stop_def Let_def)
    moreover have "\<exists>table''. report_scan replace rest (cnt + 1) covered table' =
      Return (if \<exists>line \<in> set rest. scan_stop replace line then Scan_Return
             else Scan_Done (cnt + 1 + int (length rest)) covered table'')"
      using Cons.prems by (intro Cons.IH) simp
    moreover have "cnt + int (length (line # rest)) = cnt + 1 + int (length rest)"
      and "(\<exists>l \<in> set (line # rest). scan_stop replace l) \<longleftrightarrow> (\<exists>l \<in> set rest. scan_stop replace l)"
      using False by simp_all
    ultimately show ?thesis by (simp only:)
  qed
qed simp

text \<open>C27: the coverage report of a package is sent only when no line of the coverage output is
  the total or ends in \<open>100.0%\<close>: either one makes the function return before it builds the
  message (and then nothing is logged, an error of the test run included). Otherwise one message
  is sent, whose counter of covered functions is always 0.\<close>

theorem report_sent_iff:
  assumes "getwd = Inr pwd" and "scan coverage = (lines, [])"
    and "replace = (\<lambda>line. replace_all line (tr_Package tr) (report_prefix pwd (LocalDirectory md)))"
    and "\<forall>line \<in> set lines. 3 \<le> length (str_fields (replace line))"
  shows "if \<exists>line \<in> set lines. scan_stop replace line
    then report ps rnd scan getwd md tr coverage runtime err = Return Silent
    else \<exists>kvs prio table. report ps rnd scan getwd md tr coverage runtime err = Return (Sent kvs prio table) \<and>
      (prio = Error_Level \<longleftrightarrow> err \<noteq> []) \<and>
      (\<forall>n. (''covered'', VI n) \<in> set kvs \<longrightarrow> n = 0)"
proof -
  obtain table where t: "report_scan replace lines 0 0 [] =
     Return (if \<exists>line \<in> set lines. scan_stop replace line then Scan_Return
             else Scan_Done (int (length lines)) 0 table)"
    using report_scan_result[OF assms(4), of 0 0 "[]"] unfolding add_0 by blast
  show ?thesis
  proof (cases "\<exists>line \<in> set lines. scan_stop replace line")
    case True
    with t show ?thesis unfolding report_def by (simp add: assms(1-3) must_def)
  next
    case False
    with t show ?thesis unfolding report_def by (auto simp: assms(1-3) must_def Let_def)
  qed
qed

definition demo_report :: "int testReport" where
  "demo_report = \<lparr>tr_Package = ''m/a'', tr_Coverage = 80, tr_Duration = 7, tr_Info = zero_PackageInfo,
     tr_CompileOnly = False, tr_CoverageEnabled = True, tr_Cached = False, tr_FullyCovered = False,
     tr_MissingTests = False\<rparr>"

definition int_parsers :: "int parsers" where
  "int_parsers = \<lparr>parse_float = parse_int64, parse_duration = parse_int64, zero_float = 0, hundred = 100\<rparr>"

theorem report_sent_iff_witness:
  "report int_parsers (\<lambda>d. d) (\<lambda>c. (split_on (CHR 0x0A) c, [])) (Inr ''/m'')
     zero_PackageInfo demo_report ''f.go:1: F 50.0%'' 9 [io_EOF] \<noteq> Return Silent \<and>
   report int_parsers (\<lambda>d. d) (\<lambda>c. (split_on (CHR 0x0A) c, [])) (Inr ''/m'')
     zero_PackageInfo demo_report ''total: (statements) 80.0%'' 9 [io_EOF] = Return Silent"
proof -
  have a: "\<forall>line \<in> set [''f.go:1: F 50.0%'']. 3 \<le> length (str_fields
      (replace_all line (tr_Package demo_report) (report_prefix ''/m'' (LocalDirectory zero_PackageInfo))))"
    and b: "\<forall>line \<in> set [''total: (statements) 80.0%'']. 3 \<le> length (str_fields
      (replace_all line (tr_Package demo_report) (report_prefix ''/m'' (LocalDirectory zero_PackageInfo))))"
    and c: "\<not> scan_stop (\<lambda>line. replace_all line (tr_Package demo_report)
        (report_prefix ''/m'' (LocalDirectory zero_PackageInfo))) ''f.go:1: F 50.0%''"
    and d: "scan_stop (\<lambda>line. replace_all line (tr_Package demo_report)
        (report_prefix ''/m'' (LocalDirectory zero_PackageInfo))) ''total: (statements) 80.0%''"
    by code_simp+
  have lines: "split_on (CHR 0x0A) ''f.go:1: F 50.0%'' = [''f.go:1: F 50.0%'']"
    "split_on (CHR 0x0A) ''total: (statements) 80.0%'' = [''total: (statements) 80.0%'']"
    by simp_all
  have "report int_parsers (\<lambda>d. d) (\<lambda>c. (split_on (CHR 0x0A) c, [])) (Inr ''/m'')
     zero_PackageInfo demo_report ''f.go:1: F 50.0%'' 9 [io_EOF] \<noteq> Return Silent"
    using report_sent_iff [of "Inr ''/m''" "''/m''" "\<lambda>c. (split_on (CHR 0x0A) c, [])"
        "''f.go:1: F 50.0%''" "[''f.go:1: F 50.0%'']" _ demo_report zero_PackageInfo
        int_parsers "\<lambda>d. d" 9 "[io_EOF]", OF refl _ refl a] lines c
    by auto
  moreover have "report int_parsers (\<lambda>d. d) (\<lambda>c. (split_on (CHR 0x0A) c, [])) (Inr ''/m'')
     zero_PackageInfo demo_report ''total: (statements) 80.0%'' 9 [io_EOF] = Return Silent"
    using report_sent_iff [of "Inr ''/m''" "''/m''" "\<lambda>c. (split_on (CHR 0x0A) c, [])"
        "''total: (statements) 80.0%''" "[''total: (statements) 80.0%'']" _ demo_report zero_PackageInfo
        int_parsers "\<lambda>d. d" 9 "[io_EOF]", OF refl _ refl b] lines d
    by auto
  ultimately show ?thesis ..
qed

end
