(* ===== verification/Gadget_Run.thy ===== *)
theory Gadget_Run
  imports Gadget
begin

text \<open>
  \<open>tools/gadget\<close>, the operations that run commands: \<open>GoGenerate\<close> (\<open>generate.go\<close>), the file
  cache (\<open>cache.go\<close>) and \<open>RunTests\<close> (\<open>gadget.go\<close>).
\<close>

section \<open>generate.go\<close>

record GoGenerateArgs =
  Spec :: BuildOrder
  SearchPath :: "string list"
  ContinueOnError :: bool

definition generate_cmd :: "GoGenerateArgs \<Rightarrow> nat \<Rightarrow> string list \<Rightarrow> jcommand outcome" where
  "generate_cmd args idx grp =
     index_at (SearchPath args) 0 (\<lambda>first.
       Return (CreateCommand
         \<lparr>jc_id := ''generate.'' @ show_nat idx,
          jc_dir := Path (Spec args),
          jc_env := [(''PATH'', join_with '':'' (SearchPath args @ [''$PATH''])),
                     (''GOBIN'', path_join [first, ''bin''])],
          jc_args := [[''go'', ''generate''] @ grp]\<rparr>))"

fun generate_loop ::
    "'w run \<Rightarrow> GoGenerateArgs \<Rightarrow> nat \<Rightarrow> string list list \<Rightarrow> 'w \<Rightarrow> 'w outcome" where
  "generate_loop run args idx [] w = Return w"
| "generate_loop run args idx (grp # groups) w =
     (case generate_cmd args idx grp of
        Panic e \<Rightarrow> Panic e
      | Return cmd \<Rightarrow>
          (case run cmd w of (err, w') \<Rightarrow>
             if err \<noteq> [] then
               (if ContinueOnError args then generate_loop run args (idx + 1) groups w' else Return w')
             else generate_loop run args (idx + 1) groups w'))"

text \<open>The collector is created, asked and resolved, but no error is ever pushed to it.\<close>

definition GoGenerate :: "'w run \<Rightarrow> GoGenerateArgs \<Rightarrow> 'w \<Rightarrow> (errors \<times> 'w) outcome" where
  "GoGenerate run args w =
     (case generate_loop run args 0 (Order (Spec args)) w of
        Panic e \<Rightarrow> Panic e
      | Return w' \<Rightarrow> (let ec = [] in Return (ec, w')))"

fun generate_cmds :: "GoGenerateArgs \<Rightarrow> nat \<Rightarrow> string list list \<Rightarrow> jcommand list" where
  "generate_cmds args idx [] = []"
| "generate_cmds args idx (g # gs) =
     (case generate_cmd args idx g of
        Return c \<Rightarrow> c # generate_cmds args (idx + 1) gs | Panic e \<Rightarrow> [])"

lemma generate_loop_trace:
  assumes "SearchPath args \<noteq> []"
  shows "generate_loop (trace_run f) args idx gs w = Return (w @
    (if ContinueOnError args then generate_cmds args idx gs
     else upto_first (\<lambda>c. f c \<noteq> []) (generate_cmds args idx gs)))"
proof (induction gs arbitrary: idx w)
  case (Cons g gs)
  obtain c where "generate_cmd args idx g = Return c"
    using assms by (simp add: generate_cmd_def index_at_def)
  with Cons show ?case by (simp add: trace_run_def)
qed simp

lemma generate_cmds_args:
  assumes "SearchPath args \<noteq> []"
  shows "map jc_args (generate_cmds args idx gs) = map (\<lambda>g. [[''go'', ''generate''] @ g]) gs"
  using assms by (induction gs arbitrary: idx) (simp_all add: generate_cmd_def index_at_def CreateCommand_def)


definition demo_generate :: GoGenerateArgs where
  "demo_generate = \<lparr>Spec = \<lparr>Order = [[''m/b'', ''m/c''], [''m/a'']], bo_Packages = [], Path = ''/m''\<rparr>,
     SearchPath = [''/usr''], ContinueOnError = False\<rparr>"


section \<open>cache.go\<close>

type_synonym 'd file_cache = "(string \<times> 'd) list"

datatype walk_answer = Walk_Yield string | Walk_Nothing | Walk_SkipDir | Walk_SkipAll

definition populate_filter :: "'d file_cache \<Rightarrow> string \<Rightarrow> string \<Rightarrow> bool \<Rightarrow> walk_answer" where
  "populate_filter cache path name is_dir =
     (if is_dir \<and> name = ''.git'' then Walk_SkipDir
      else if map_of cache path \<noteq> None \<or> \<not> has_suffix path ''.go'' then Walk_Nothing
      else Walk_Yield path)"

fun populate_loop ::
    "(string \<Rightarrow> go_error + 'h) \<Rightarrow> ('h \<Rightarrow> go_error + 'd) \<Rightarrow> string list \<Rightarrow> 'd file_cache \<Rightarrow>
     errors \<times> 'd file_cache" where
  "populate_loop os_open read_all [] cache = ([], cache)"
| "populate_loop os_open read_all (path # paths) cache =
     (if map_of cache path \<noteq> None then populate_loop os_open read_all paths cache
      else
        (case os_open path of
           Inl err \<Rightarrow> ([err], cache)
         | Inr f \<Rightarrow>
             (case read_all f of
                Inl err \<Rightarrow> ([err], cache)
              | Inr data \<Rightarrow> populate_loop os_open read_all paths (upd path data cache))))"

text \<open>\<open>walk root\<close> is the sequence of paths that the directory iterator yields when it calls
  \<open>populate_filter\<close>, and \<open>closer\<close> the error of closing it. The named result of the body is
  overwritten by the deferred \<open>err = ec.Resolve()\<close>.\<close>

definition PopulateCache ::
    "((string \<Rightarrow> string \<Rightarrow> bool \<Rightarrow> walk_answer) \<Rightarrow> string \<Rightarrow> string list) \<Rightarrow> errors \<Rightarrow>
     (string \<Rightarrow> go_error + 'h) \<Rightarrow> ('h \<Rightarrow> go_error + 'd) \<Rightarrow> string \<Rightarrow> 'd file_cache \<Rightarrow>
     errors \<times> 'd file_cache" where
  "PopulateCache walk_dir closer os_open read_all root cache =
     (let paths = walk_dir (populate_filter cache) root;
          (err, cache') = populate_loop os_open read_all paths cache;
          ec = [] @ closer;
          err = ec
      in (err, cache'))"

definition cache_sound ::
    "(string \<Rightarrow> go_error + 'h) \<Rightarrow> ('h \<Rightarrow> go_error + 'd) \<Rightarrow> 'd file_cache \<Rightarrow> bool" where
  "cache_sound os_open read_all cache \<longleftrightarrow>
     (\<forall>p d. map_of cache p = Some d \<longrightarrow> (\<exists>f. os_open p = Inr f \<and> read_all f = Inr d))"

lemma populate_loop_mono:
  "map_of cache p = Some d \<Longrightarrow> map_of (snd (populate_loop os_open read_all paths cache)) p = Some d"
proof (induction os_open read_all paths cache rule: populate_loop.induct)
  case (2 os_open read_all path paths cache)
  then show ?case by (cases "p = path") (auto split: sum.splits)
qed simp

lemma cache_sound_upd:
  "cache_sound os_open read_all cache \<Longrightarrow> os_open p = Inr f \<Longrightarrow> read_all f = Inr d \<Longrightarrow>
     cache_sound os_open read_all (upd p d cache)"
  by (simp add: cache_sound_def)

lemma populate_loop_sound:
  "cache_sound os_open read_all cache \<Longrightarrow>
     cache_sound os_open read_all (snd (populate_loop os_open read_all paths cache))"
  by (induction os_open read_all paths cache rule: populate_loop.induct)
     (auto intro: cache_sound_upd split: sum.splits)

lemma populate_loop_all:
  "fst (populate_loop os_open read_all paths cache) = [] \<Longrightarrow> p \<in> set paths \<Longrightarrow>
     map_of (snd (populate_loop os_open read_all paths cache)) p \<noteq> None"
proof (induction os_open read_all paths cache rule: populate_loop.induct)
  case (2 os_open read_all path paths cache)
  show ?case
  proof (cases "map_of cache path")
    case (Some d)
    with 2 populate_loop_mono[of cache path d] show ?thesis by auto
  next
    case None
    with 2(3) obtain f d where f: "os_open path = Inr f" "read_all f = Inr d"
      by (auto split: sum.splits)
    with None have eq: "populate_loop os_open read_all (path # paths) cache =
        populate_loop os_open read_all paths (upd path d cache)" by simp
    show ?thesis
    proof (cases "p = path")
      case True
      then show ?thesis unfolding eq by (simp add: populate_loop_mono[of "upd path d cache" path d])
    next
      case False
      with 2(2)[OF _ f] 2(3,4) None show ?thesis unfolding eq by auto
    qed
  qed
qed simp

text \<open>The file cache stays sound (what is cached is what the file holds) and never forgets or
  changes an entry, but its population reports only the error of closing the directory iterator:
  a file that cannot be opened or read ends the population silently, and the paths after it are
  not cached.\<close>

theorem PopulateCache_sound_but_silent:
  assumes "cache_sound os_open read_all cache"
    and "PopulateCache walk_dir closer os_open read_all root cache = (err, cache')"
  shows "cache_sound os_open read_all cache' \<and> map_of cache \<subseteq>\<^sub>m map_of cache' \<and> err = closer \<and>
    (fst (populate_loop os_open read_all (walk_dir (populate_filter cache) root) cache) = [] \<longrightarrow>
       (\<forall>p \<in> set (walk_dir (populate_filter cache) root). map_of cache' p \<noteq> None))"
proof -
  define ps where "ps = walk_dir (populate_filter cache) root"
  from assms(2) have c: "cache' = snd (populate_loop os_open read_all ps cache)" and e: "err = closer"
    by (auto simp: PopulateCache_def Let_def ps_def split: prod.splits)
  have "map_of cache \<subseteq>\<^sub>m map_of cache'"
    unfolding c map_le_def by (auto simp: populate_loop_mono)
  moreover have "cache_sound os_open read_all cache'" unfolding c by (rule populate_loop_sound[OF assms(1)])
  moreover have "fst (populate_loop os_open read_all ps cache) = [] \<longrightarrow> (\<forall>p \<in> set ps. map_of cache' p \<noteq> None)"
    unfolding c by (blast dest: populate_loop_all)
  ultimately show ?thesis using e ps_def by blast
qed

definition demo_open :: "string \<Rightarrow> go_error + string" where
  "demo_open p = (if p = ''b.go'' then Inl io_EOF else Inr p)"

definition demo_walk :: "(string \<Rightarrow> string \<Rightarrow> bool \<Rightarrow> walk_answer) \<Rightarrow> string \<Rightarrow> string list" where
  "demo_walk f root = [''a.go'', ''b.go'', ''c.go'']"

theorem PopulateCache_sound_but_silent_witness:
  "cache_sound demo_open (\<lambda>p. Inr (p @ ''!''))
     (snd (PopulateCache demo_walk [] demo_open (\<lambda>p. Inr (p @ ''!'')) ''.'' [(''a.go'', ''a.go!'')])) \<and>
   fst (PopulateCache demo_walk [] demo_open (\<lambda>p. Inr (p @ ''!'')) ''.'' [(''a.go'', ''a.go!'')]) = []"
proof -
  have "cache_sound demo_open (\<lambda>p. Inr (p @ ''!'')) [(''a.go'', ''a.go!'')]"
    by (simp add: cache_sound_def demo_open_def)
  from PopulateCache_sound_but_silent [OF this surjective_pairing, of demo_walk "[]" "''.''"]
  show ?thesis by simp
qed

section \<open>RunTests\<close>

text \<open>The callback of the directory walk yields the directories that hold a \<open>go.mod\<close>: the first
  one, and the others only when the run is recursive.\<close>

definition find_modules :: "bool \<Rightarrow> bool \<Rightarrow> string \<Rightarrow> string \<Rightarrow> bool \<Rightarrow> walk_answer \<times> bool" where
  "find_modules recursive seenOne path name is_dir =
     (if is_dir \<and> name = ''.git'' then (Walk_SkipDir, seenOne)
      else if name \<noteq> ''go.mod'' then (Walk_Nothing, seenOne)
      else if \<not> seenOne \<or> seenOne \<and> recursive then (Walk_Yield (path_dir path), True)
      else (Walk_SkipAll, seenOne))"

text \<open>Integer division of Go truncates toward zero.\<close>

definition go_div :: "int \<Rightarrow> int \<Rightarrow> int" where
  "go_div a b = sgn a * sgn b * (\<bar>a\<bar> div \<bar>b\<bar>)"

definition test_args :: "(int \<Rightarrow> string) \<Rightarrow> Options \<Rightarrow> PackageInfo \<Rightarrow> go_error + string list" where
  "test_args show_dur opts pkg =
     (let args = [''go'', ''test'', ''-race'',
                  ''-parallel='' @ show_int (min 4 (go_div (Workers opts) 2)),
                  ''-timeout='' @ show_dur (Timeout opts)];
          rest = LocalDirectory pkg # GoTestArgs opts
      in if CompileOnly opts then Inr (args @ [''-run=noop''] @ rest)
         else if ReportCoverage opts
           then Inr (args @ [''-coverprofile='' @ path_join [LocalDirectory pkg, ''coverage.out'']] @ rest)
         else if UseCache opts then Inr (args @ rest)
         else Inl (Errf ''must configure coverage, cache, or compile-only'' []))"

definition quiet_env :: "(string \<times> string) list" where
  "quiet_env = [(''SARDIS_LOG_QUIET_SYSLOG'', ''true'')]"

definition lint_cmd :: "(int \<Rightarrow> string) \<Rightarrow> Options \<Rightarrow> jcommand" where
  "lint_cmd show_dur opts = CreateCommand
     \<lparr>jc_id := ''lint.'' @ path_base (RootPath opts), jc_dir := RootPath opts, jc_env := quiet_env,
      jc_args := [[''golangci-lint'', ''run'', ''--allow-parallel-runners'', ''--timeout'',
                   show_dur (Timeout opts)]]\<rparr>"

definition test_cmd :: "PackageInfo \<Rightarrow> string list \<Rightarrow> jcommand" where
  "test_cmd pkg args = CreateCommand
     \<lparr>jc_id := ''test.'' @ PackageName pkg, jc_dir := LocalDirectory pkg, jc_env := quiet_env,
      jc_args := [args]\<rparr>"

definition cover_html_cmd :: "'f testReport \<Rightarrow> jcommand" where
  "cover_html_cmd result =
     (let dir = LocalDirectory (tr_Info result) in CreateCommand
        \<lparr>jc_id := ''coverage.html.'' @ tr_Package result, jc_dir := dir, jc_env := quiet_env,
         jc_args := [[''go'', ''tool'', ''cover'', ''-html'', path_join [dir, ''coverage.out''], ''-o'',
                      ''coverage-'' @ path_base dir @ ''.html'']]\<rparr>)"

definition cover_report_cmd :: "'f testReport \<Rightarrow> jcommand" where
  "cover_report_cmd result =
     (let dir = LocalDirectory (tr_Info result) in CreateCommand
        \<lparr>jc_id := ''coverage.report'' @ tr_Package result, jc_dir := dir, jc_env := quiet_env,
         jc_args := [[''go'', ''tool'', ''cover'', ''-func'', path_join [dir, ''coverage.out'']]]\<rparr>)"

text \<open>What the jobs share: the reports, the errors pushed to the outer collector, the coverage
  reports sent, and the world.\<close>

record ('f, 'w) test_state =
  ts_reports :: "'f reports"
  ts_ec :: errors
  ts_sent :: "'f report_result list"
  ts_world :: 'w

text \<open>A command that runs with its output captured returns its error and the lines it printed.\<close>

type_synonym 'w run_out = "jcommand \<Rightarrow> 'w \<Rightarrow> errors \<times> string list \<times> 'w"

definition zero_report :: "'f parsers \<Rightarrow> 'f testReport" where
  "zero_report ps = \<lparr>tr_Package = [], tr_Coverage = zero_float ps, tr_Duration = 0,
     tr_Info = zero_PackageInfo, tr_CompileOnly = False, tr_CoverageEnabled = False,
     tr_Cached = False, tr_FullyCovered = False, tr_MissingTests = False\<rparr>"

definition run_package ::
    "(int \<Rightarrow> string) \<Rightarrow> 'f parsers \<Rightarrow>
     (PackageInfo \<Rightarrow> 'f testReport \<Rightarrow> string \<Rightarrow> errors \<Rightarrow> 'f report_result outcome) \<Rightarrow>
     'w run_out \<Rightarrow> Options \<Rightarrow> PackageInfo \<Rightarrow> ('f, 'w) test_state \<Rightarrow>
     (errors \<times> ('f, 'w) test_state) outcome" where
  "run_package show_dur ps rep run opts pkg st =
     (if map_of (ts_reports st) (PackageName pkg) \<noteq> None then Return ([], st)
      else
        (case test_args show_dur opts pkg of
           Inl e \<Rightarrow> Return ([e], st)
         | Inr args \<Rightarrow>
             (case run (test_cmd pkg args) (ts_world st) of (catch, lines, w) \<Rightarrow>
                let reports = fold (\<lambda>line mp. snd (snd (testOutputFilter ps opts pkg line mp))) lines
                                (ts_reports st);
                    st = st\<lparr>ts_reports := reports, ts_world := w\<rparr>
                in case map_of reports (PackageName pkg) of
                     None \<Rightarrow> Return (catch, st)
                   | Some result \<Rightarrow>
                       let (ec, buf, w) =
                         (if ReportCoverage opts then
                            (case run (cover_html_cmd result) (ts_world st) of (_, _, w1) \<Rightarrow>
                             case run (cover_report_cmd result) w1 of (e2, out2, w2) \<Rightarrow>
                               (e2, join_with [CHR 0x0A] out2, w2))
                          else ([], [], ts_world st));
                           st = st\<lparr>ts_ec := ts_ec st @ ec, ts_world := w\<rparr>;
                           tr = deref_z (zero_report ps) (map_of reports (PackageName (tr_Info result)))
                       in case rep (tr_Info result) tr (trim_space buf) catch of
                            Panic e \<Rightarrow> Panic e
                          | Return r \<Rightarrow> Return (catch, st\<lparr>ts_sent := ts_sent st @ [r]\<rparr>))))"

datatype job = Lint_Job | Test_Job PackageInfo

text \<open>The loop over the modules: collect each, and queue a job for each of its packages.\<close>

fun queue_modules ::
    "(string \<Rightarrow> (go_error + Module) outcome) \<Rightarrow> Options \<Rightarrow> nat \<Rightarrow> string list \<Rightarrow> job list \<Rightarrow> errors \<Rightarrow>
     (go_error + (job list \<times> errors)) outcome" where
  "queue_modules collect opts cnt [] jobs ec = Return (Inr (jobs, ec))"
| "queue_modules collect opts cnt (mpath # rest) jobs ec =
     (if cnt \<noteq> 0 \<and> \<not> Recursive opts
      then Return (Inl (Errf ''module at %q is within %q but recursive mode is not enabled''
                          [S mpath, S (RootPath opts)]))
      else
        (case collect mpath of
           Panic e \<Rightarrow> Panic e
         | Return (Inl err) \<Rightarrow> queue_modules collect opts (cnt + 1) rest jobs (ec @ [err])
         | Return (Inr m) \<Rightarrow>
             queue_modules collect opts (cnt + 1) rest (jobs @ map Test_Job (mod_Packages m)) ec))"

fun run_jobs ::
    "(job \<Rightarrow> 's \<Rightarrow> (errors \<times> 's) outcome) \<Rightarrow> job list \<Rightarrow> 's \<Rightarrow> errors \<Rightarrow> errors \<times> 's" where
  "run_jobs exec [] s errs = (errs, s)"
| "run_jobs exec (j # js) s errs =
     (case exec j s of
        Panic e \<Rightarrow> run_jobs exec js s (errs @ [e])
      | Return (es, s') \<Rightarrow> run_jobs exec js s' (errs @ es))"

definition exec_job ::
    "(int \<Rightarrow> string) \<Rightarrow> 'f parsers \<Rightarrow>
     (PackageInfo \<Rightarrow> 'f testReport \<Rightarrow> string \<Rightarrow> errors \<Rightarrow> 'f report_result outcome) \<Rightarrow>
     'w run_out \<Rightarrow> Options \<Rightarrow> job \<Rightarrow> ('f, 'w) test_state \<Rightarrow> (errors \<times> ('f, 'w) test_state) outcome" where
  "exec_job show_dur ps rep run opts j st =
     (case j of
        Test_Job pkg \<Rightarrow> run_package show_dur ps rep run opts pkg st
      | Lint_Job \<Rightarrow>
          (case run (lint_cmd show_dur opts) (ts_world st) of (err, out, w) \<Rightarrow>
             Return (wrap_errs err ''lint errors for %q'' [S (RootPath opts)], st\<lparr>ts_world := w\<rparr>)))"

definition RunTests ::
    "(int \<Rightarrow> string) \<Rightarrow> 'f parsers \<Rightarrow>
     (PackageInfo \<Rightarrow> 'f testReport \<Rightarrow> string \<Rightarrow> errors \<Rightarrow> 'f report_result outcome) \<Rightarrow>
     'w run_out \<Rightarrow> (job list \<Rightarrow> job list) \<Rightarrow> (string \<Rightarrow> (go_error + Module) outcome) \<Rightarrow>
     errors \<Rightarrow> string list \<Rightarrow> Options \<Rightarrow> 'w \<Rightarrow> (errors \<times> ('f, 'w) test_state) outcome" where
  "RunTests show_dur ps rep run schedule collect pool_start mpaths opts w =
     (let st = \<lparr>ts_reports = [], ts_ec = [], ts_sent = [], ts_world = w\<rparr>
      in if pool_start \<noteq> [] then Return (pool_start, st)
         else
           let jobs = (if \<not> CompileOnly opts \<and> \<not> SkipLint opts then [Lint_Job] else [])
           in case queue_modules collect opts 0 mpaths jobs [] of
                Panic e \<Rightarrow> Panic e
              | Return (Inl e) \<Rightarrow> Return ([e], st)
              | Return (Inr (jobs, ec)) \<Rightarrow>
                  (case run_jobs (exec_job show_dur ps rep run opts) (schedule jobs) st [] of
                     (pool_errs, st') \<Rightarrow> Return (ec @ ts_ec st' @ pool_errs, st')))"

lemma run_jobs_errs: "set errs \<subseteq> set (fst (run_jobs exec js s errs))"
  by (induction exec js s errs rule: run_jobs.induct) (auto split: outcome.splits)

text \<open>Without a mode, every test job refuses to run.\<close>

lemma run_package_no_mode:
  assumes "\<not> CompileOnly opts" and "\<not> ReportCoverage opts" and "\<not> UseCache opts"
  shows "run_package show_dur ps rep run opts pkg st =
    (if map_of (ts_reports st) (PackageName pkg) \<noteq> None then Return ([], st)
     else Return ([Errf ''must configure coverage, cache, or compile-only'' []], st))"
  using assms by (simp add: run_package_def test_args_def Let_def)

lemma run_jobs_error:
  assumes "Test_Job pkg \<in> set js" and "ts_reports s = []"
    and "\<not> CompileOnly opts" and "\<not> ReportCoverage opts" and "\<not> UseCache opts"
  shows "Errf ''must configure coverage, cache, or compile-only'' [] \<in>
    set (fst (run_jobs (exec_job show_dur ps rep run opts) js s errs))"
  using assms(1,2)
proof (induction js arbitrary: s errs)
  case (Cons j js)
  obtain r s' where e: "exec_job show_dur ps rep run opts j s = Return (r, s')" "ts_reports s' = []"
    using Cons.prems(2) assms(3-)
    by (cases j; cases "run (lint_cmd show_dur opts) (ts_world s)")
       (auto simp: exec_job_def run_package_no_mode)
  show ?case
  proof (cases "j = Test_Job pkg")
    case True
    then have "r = [Errf ''must configure coverage, cache, or compile-only'' []]"
      using e(1) Cons.prems(2) assms(3-) by (simp add: exec_job_def run_package_no_mode)
    with e(1) run_jobs_errs show ?thesis by (force simp: subset_iff)
  next
    case False
    with Cons e show ?thesis by simp
  qed
qed simp

text \<open>What collecting the modules of a walk gives: the packages of the modules that are collected
  and the errors of those that are not, both in the order of the walk.\<close>

definition collected_packages :: "(string \<Rightarrow> (go_error + Module) outcome) \<Rightarrow> string list \<Rightarrow> PackageInfo list" where
  "collected_packages collect mpaths =
     concat (map (\<lambda>p. case collect p of Return (Inr m) \<Rightarrow> mod_Packages m | _ \<Rightarrow> []) mpaths)"

definition collection_errors :: "(string \<Rightarrow> (go_error + Module) outcome) \<Rightarrow> string list \<Rightarrow> errors" where
  "collection_errors collect mpaths =
     concat (map (\<lambda>p. case collect p of Return (Inl e) \<Rightarrow> [e] | _ \<Rightarrow> []) mpaths)"

lemma queue_modules_accepted:
  assumes "\<And>p. p \<in> set mpaths \<Longrightarrow> \<exists>r. collect p = Return r"
    and "Recursive opts \<or> cnt + length mpaths \<le> 1"
  shows "queue_modules collect opts cnt mpaths jobs ec =
    Return (Inr (jobs @ map Test_Job (collected_packages collect mpaths), ec @ collection_errors collect mpaths))"
  using assms
proof (induction mpaths arbitrary: cnt jobs ec)
  case (Cons p ps)
  obtain r where r: "collect p = Return r" using Cons.prems(1)[of p] by auto
  have rest: "Recursive opts \<or> Suc cnt + length ps \<le> 1" using Cons.prems(2) by auto
  note IH = Cons.IH[OF _ rest]
  show ?case using Cons.prems r IH
    by (cases r) (auto simp: collected_packages_def collection_errors_def)
qed (simp add: collected_packages_def collection_errors_def)

text \<open>C28: a test run accounts for every package. When the walk is accepted (it finds at most one
  module, or the run is recursive), the pool starts and collecting the modules does not panic, the jobs
  that run, in whatever order the pool schedules them, are exactly these: one for the linter
  unless the run is compile-only or skips it, and one for each package of each module that is collected,
  in multiplicity. The run reports the errors of collecting the modules, all of them and in the
  order of the walk, those of the coverage reports and those of the jobs; nothing else. With neither
  compile-only nor coverage nor cache selected, a run over at least one package always fails. The
  jobs are run here when all modules are queued; the pool of the code may take them earlier, which
  changes the order of the errors only.\<close>

theorem RunTests_accounts_for_packages:
  fixes ps :: "'f parsers" and w :: 'w
  assumes "\<And>js. mset (schedule js) = mset js"
    and "\<And>p. p \<in> set mpaths \<Longrightarrow> \<exists>r. collect p = Return r"
    and "Recursive opts \<or> length mpaths \<le> 1"
    and "st0 = \<lparr>ts_reports = [], ts_ec = [], ts_sent = [], ts_world = w\<rparr>"
  shows "\<exists>jobs job_errs st.
        mset jobs = mset ((if CompileOnly opts \<or> SkipLint opts then [] else [Lint_Job]) @
          map Test_Job (collected_packages collect mpaths)) \<and>
        run_jobs (exec_job show_dur ps rep run opts) jobs st0 [] = (job_errs, st) \<and>
        RunTests show_dur ps rep run schedule collect [] mpaths opts w =
          Return (collection_errors collect mpaths @ ts_ec st @ job_errs, st) \<and>
        (collected_packages collect mpaths \<noteq> [] \<and>
         \<not> CompileOnly opts \<and> \<not> ReportCoverage opts \<and> \<not> UseCache opts \<longrightarrow>
           Errf ''must configure coverage, cache, or compile-only'' [] \<in> set job_errs)"
proof -
  define jobs where "jobs = schedule ((if CompileOnly opts \<or> SkipLint opts then [] else [Lint_Job]) @
    map Test_Job (collected_packages collect mpaths))"
  define out where "out = run_jobs (exec_job show_dur ps rep run opts) jobs st0 []"
  have run: "RunTests show_dur ps rep run schedule collect [] mpaths opts w =
      Return (collection_errors collect mpaths @ ts_ec (snd out) @ fst out, snd out)"
    using assms(3) by (simp add: RunTests_def Let_def queue_modules_accepted[OF assms(2)] out_def jobs_def
        assms(4) split: prod.splits)
  have mset_jobs: "mset jobs = mset ((if CompileOnly opts \<or> SkipLint opts then [] else [Lint_Job]) @
      map Test_Job (collected_packages collect mpaths))"
    by (simp only: jobs_def assms(1))
  have "Errf ''must configure coverage, cache, or compile-only'' [] \<in> set (fst out)"
    if ne: "collected_packages collect mpaths \<noteq> []"
      and mode: "\<not> CompileOnly opts" "\<not> ReportCoverage opts" "\<not> UseCache opts"
  proof -
    obtain pkg where "pkg \<in> set (collected_packages collect mpaths)" using ne by (cases "collected_packages collect mpaths") auto
    then have "Test_Job pkg \<in> set jobs" using mset_eq_setD[OF mset_jobs] by simp
    then show ?thesis unfolding out_def by (rule run_jobs_error) (use mode in \<open>simp_all add: assms(4)\<close>)
  qed
  then show ?thesis using run mset_jobs
    by (auto simp: out_def intro!: exI[of _ jobs] exI[of _ "fst out"] exI[of _ "snd out"])
qed

theorem RunTests_accounts_for_packages_witness:
  "\<exists>job_errs st. RunTests (\<lambda>d. ''10s'') int_parsers (\<lambda>info tr cov e. Return Silent)
     (\<lambda>c w. ([], [], Suc w)) rev (\<lambda>p. Return (Inr chain_module)) [] [''/m'']
     (bad_options\<lparr>ReportCoverage := False, CompileOnly := False, SkipLint := True\<rparr>) (0 :: nat) =
       Return (ts_ec st @ job_errs, st) \<and>
     Errf ''must configure coverage, cache, or compile-only'' [] \<in> set job_errs"
proof -
  define opts where "opts = bad_options\<lparr>ReportCoverage := False, CompileOnly := False, SkipLint := True\<rparr>"
  have "collected_packages (\<lambda>p. Return (Inr chain_module)) [''/m''] \<noteq> []"
    by (simp add: collected_packages_def chain_module_def Let_def)
  with RunTests_accounts_for_packages [of rev "[''/m'']" "\<lambda>p. Return (Inr chain_module)" opts _ "0 :: nat"
      "\<lambda>d. ''10s''" int_parsers "\<lambda>info tr cov e. Return Silent" "\<lambda>c w. ([], [], Suc w)", OF _ _ _ refl]
  show ?thesis by (auto simp: opts_def bad_options_def collection_errors_def)
qed

end
