(* ===== verification/Router_Model.thy ===== *)
theory Router_Model
  imports Go_Prelude
begin

text \<open>
  \<open>x/router/rand.go\<close> and \<open>x/router/model.go\<close>: message identifiers, messages and responses.
  The random source, the host's identity and the hash are parameters; the clock and the counter
  are arguments.
\<close>

section \<open>rand.go\<close>

definition charSet :: string where
  "charSet = ''ABCDEFGHIJKLMNOPQRSTUVWXYZabcdefghijklmnopqrstuvwxyz''"

definition idLenght :: nat where "idLenght = 32"

text \<open>The hasher is the text written to it; \<open>Sum(b)\<close> appends the digest to \<open>b\<close> and leaves the
  hasher alone, so that the host name is never hashed.\<close>

definition init_hostID ::
    "(string \<Rightarrow> string) \<Rightarrow> (int \<Rightarrow> string) \<Rightarrow> (string \<Rightarrow> string) \<Rightarrow> string \<Rightarrow> int \<Rightarrow> string" where
  "init_hostID sha256 le_bytes hex host pid =
     (let hasher = [];
          _ = host @ sha256 hasher;
          hasher = hasher @ le_bytes pid;
          hostsum = [] @ sha256 hasher
      in hex (take 4 hostsum))"

text \<open>\<open>rnd i\<close> is the i-th result of \<open>rand.Intn(numChars)\<close>.\<close>

function id_loop :: "(nat \<Rightarrow> nat) \<Rightarrow> nat \<Rightarrow> string \<Rightarrow> string" where
  "id_loop rnd i builder =
     (if i < 16 \<and> length builder < idLenght
      then id_loop rnd (i + 1) (builder @ [charSet ! rnd i]) else builder)"
  by pat_completeness auto
termination by (relation "measure (\<lambda>(rnd, i, b). 16 - i)") auto

declare id_loop.simps [simp del]

definition MakeID :: "string \<Rightarrow> (nat \<Rightarrow> nat) \<Rightarrow> int \<Rightarrow> int \<Rightarrow> string" where
  "MakeID hostID rnd ts cnt =
     id_loop rnd 0 (show_int ts @ ''-'' @ hostID @ ''-'' @ show_int cnt @ ''-'')"

definition GenerateID :: "string \<Rightarrow> (nat \<Rightarrow> nat) \<Rightarrow> int \<Rightarrow> int \<Rightarrow> string \<times> int" where
  "GenerateID hostID rnd now counter =
     (let counter = counter + 1 in (MakeID hostID rnd now counter, counter))"

definition MessageID_Parse :: "string \<Rightarrow> go_error + (int \<times> string \<times> int \<times> string)" where
  "MessageID_Parse mid =
     (case split_on (CHR ''-'') mid of
        [p0, p1, p2, p3] \<Rightarrow>
          (case parse_int64 p0 of
             Inl err \<Rightarrow> Inl err
           | Inr ts \<Rightarrow>
               (case parse_int64 p2 of
                  Inl err \<Rightarrow> Inl err
                | Inr cnt \<Rightarrow> Inr (ts, p1, cnt, p3)))
      | _ \<Rightarrow> Inl (Errf ''invalid id'' []))"

definition populateID :: "string \<Rightarrow> (nat \<Rightarrow> nat) \<Rightarrow> int \<Rightarrow> int \<Rightarrow> string \<Rightarrow> string \<times> int" where
  "populateID hostID rnd now counter mid =
     (if mid \<noteq> [] then (mid, counter) else GenerateID hostID rnd now counter)"

subsection \<open>Facts\<close>

definition id_chars :: "(nat \<Rightarrow> nat) \<Rightarrow> nat \<Rightarrow> string" where
  "id_chars rnd n = map (\<lambda>i. charSet ! rnd i) [0..<n]"

lemma charSet_no_dash: "c \<in> set charSet \<Longrightarrow> c \<noteq> CHR ''-''"
  by (auto simp: charSet_def)

lemma charSet_nth: "n < 52 \<Longrightarrow> charSet ! n \<in> set charSet"
  by (rule nth_mem) (simp add: charSet_def)

lemma id_loop_eq:
  "id_loop rnd i b = b @ map (\<lambda>j. charSet ! rnd j) [i..<i + min (16 - i) (idLenght - length b)]"
proof (induction rnd i b rule: id_loop.induct)
  case (1 rnd i b)
  show ?case
  proof (cases "i < 16 \<and> length b < idLenght")
    case True
    then obtain k where k: "min (16 - i) (idLenght - length b) = Suc k"
      by (metis Suc_diff_Suc min_def)
    then have k': "min (16 - (i + 1)) (idLenght - length (b @ [charSet ! rnd i])) = k" by auto
    have "[i..<i + Suc k] = i # [i + 1..<i + 1 + k]"
      by (subst upt_conv_Cons) simp_all
    with 1[OF True, unfolded k'] True show ?thesis
      unfolding k by (subst id_loop.simps) (simp del: upt_Suc)
  next
    case False
    then show ?thesis by (auto simp: id_loop.simps[of rnd i b])
  qed
qed

lemma MakeID_eq:
  "MakeID hostID rnd ts cnt =
     (let b = show_int ts @ ''-'' @ hostID @ ''-'' @ show_int cnt @ ''-''
      in b @ id_chars rnd (min 16 (idLenght - length b)))"
  by (simp add: MakeID_def id_loop_eq id_chars_def Let_def)

lemma id_chars_no_dash: "(\<And>i. rnd i < 52) \<Longrightarrow> CHR ''-'' \<notin> set (id_chars rnd n)"
  using charSet_no_dash charSet_nth by (fastforce simp: id_chars_def)

lemma split_four:
  "CHR ''-'' \<notin> set a \<Longrightarrow> CHR ''-'' \<notin> set b \<Longrightarrow> CHR ''-'' \<notin> set c \<Longrightarrow> CHR ''-'' \<notin> set d \<Longrightarrow>
     split_on (CHR ''-'') (a @ CHR ''-'' # b @ CHR ''-'' # c @ CHR ''-'' # d) = [a, b, c, d]"
  by (simp add: split_on_append)

text \<open>C15: an identifier parses back into the timestamp, the host, the counter and the random
  characters it was made of, for every non-negative timestamp and counter of 64 bits and every host
  hash without a dash: the last part is the sequence of the letters that the random source chose, as
  many as the total of 32 characters leaves room for and at most 16.\<close>

theorem MessageID_roundtrip:
  assumes "0 \<le> ts" and "ts < 2 ^ 63" and "0 \<le> cnt" and "cnt < 2 ^ 63"
    and "CHR ''-'' \<notin> set hostID" and "\<And>i. rnd i < 52"
  shows "MessageID_Parse (MakeID hostID rnd ts cnt) = Inr (ts, hostID, cnt,
      map (\<lambda>i. ''ABCDEFGHIJKLMNOPQRSTUVWXYZabcdefghijklmnopqrstuvwxyz'' ! rnd i)
        [0 ..< min 16 (32 - (length (show_int ts) + length hostID + length (show_int cnt) + 3))])"
proof -
  define b where "b = show_int ts @ ''-'' @ hostID @ ''-'' @ show_int cnt @ ''-''"
  define r where "r = id_chars rnd (min 16 (idLenght - length b))"
  have mk: "MakeID hostID rnd ts cnt = b @ r" by (simp add: MakeID_eq b_def r_def Let_def)
  have "split_on (CHR ''-'') (b @ r) = [show_int ts, hostID, show_int cnt, r]"
    using assms split_four[of "show_int ts" hostID "show_int cnt" r]
    by (simp add: b_def r_def id_chars_no_dash show_int_no_dash)
  then have "MessageID_Parse (b @ r) = Inr (ts, hostID, cnt, r)"
    using assms by (simp add: MessageID_Parse_def parse_int64_show)
  moreover have "idLenght - length b =
      32 - (length (show_int ts) + length hostID + length (show_int cnt) + 3)"
    by (simp add: idLenght_def b_def)
  ultimately show ?thesis unfolding mk r_def id_chars_def charSet_def by simp
qed

lemma demo_digits: "digit_char 0 = CHR ''0''" "digit_char (Suc 0) = CHR ''1''" "digit_char 7 = CHR ''7''"
  by code_simp+

theorem MessageID_roundtrip_witness:
  "MessageID_Parse (MakeID ''01abcdef'' (\<lambda>i. 3 * i mod 52) 1700000000 7) =
     Inr (1700000000, ''01abcdef'', 7, ''ADGJMPSVYb'')"
proof -
  have "show_int 1700000000 = ''1700000000''" "show_int 7 = ''7''"
    using demo_digits by (simp_all add: show_int_def show_nat.simps)
  moreover have "map (\<lambda>i. ''ABCDEFGHIJKLMNOPQRSTUVWXYZabcdefghijklmnopqrstuvwxyz'' ! (3 * i mod 52)) [0..<10] =
      ''ADGJMPSVYb''" by code_simp
  ultimately show ?thesis
    using MessageID_roundtrip [of 1700000000 7 "''01abcdef''" "\<lambda>i. 3 * i mod 52"] by simp
qed

text \<open>The host name has no influence on the host identifier.\<close>

lemma init_hostID_ignores_host: "init_hostID sha le hex host pid = init_hostID sha le hex host' pid"
  by (simp add: init_hostID_def Let_def)

section \<open>model.go\<close>

datatype Protocol = Protocol (Schema: string) (Version: int)

definition zero_Protocol :: Protocol where "zero_Protocol = Protocol [] 0"

definition Protocol_IsZero :: "Protocol \<Rightarrow> bool" where
  "Protocol_IsZero p \<longleftrightarrow> Schema p = [] \<and> Version p = 0"

definition Protocol_String :: "Protocol \<Rightarrow> string" where
  "Protocol_String p = ''schema=\"'' @ Schema p @ ''\", version='' @ show_int (Version p)"

lemma Protocol_IsZero_iff [simp]: "Protocol_IsZero p \<longleftrightarrow> p = zero_Protocol"
  by (cases p) (simp add: Protocol_IsZero_def zero_Protocol_def)

text \<open>Protocols are ordered by schema, then version.\<close>

instantiation Protocol :: linorder
begin

definition less_eq_Protocol :: "Protocol \<Rightarrow> Protocol \<Rightarrow> bool" where
  "less_eq_Protocol p q \<longleftrightarrow> Schema p < Schema q \<or> Schema p = Schema q \<and> Version p \<le> Version q"

definition less_Protocol :: "Protocol \<Rightarrow> Protocol \<Rightarrow> bool" where
  "less_Protocol p q \<longleftrightarrow> Schema p < Schema q \<or> Schema p = Schema q \<and> Version p < Version q"

instance
  by standard (auto simp: less_eq_Protocol_def less_Protocol_def intro: Protocol.expand)

end

record 'p Message =
  m_Protocol :: Protocol
  m_ID :: string
  m_Payload :: 'p

record 'p Response =
  r_Protocol :: Protocol
  r_ID :: string
  r_Payload :: "'p option"
  r_Error :: errors

definition zero_Response :: "'p Response" where
  "zero_Response = \<lparr>r_Protocol = zero_Protocol, r_ID = [], r_Payload = None, r_Error = []\<rparr>"

definition ErrNoHandler :: go_error where "ErrNoHandler = Errf ''no handler defined'' []"
definition ErrNoProtocol :: go_error where "ErrNoProtocol = Errf ''no protocol specified'' []"

text \<open>\<open>&Error{Err, ID, Protocol}\<close>: its text and what it unwraps to.\<close>

definition route_error :: "errors \<Rightarrow> string \<Rightarrow> Protocol \<Rightarrow> go_error" where
  "route_error err mid p = Wrapf err ''msg=%q, protocol=[%s]: %v'' [S mid, S (Protocol_String p)]"

fun Error_Unwrap :: "go_error \<Rightarrow> errors" where
  "Error_Unwrap (Wrapf err f as) = err"
| "Error_Unwrap (Errf f as) = []"

text \<open>A middleware and an interceptor get a pointer to the message: they return it as they left it
  and an error, or panic. They are functions of the message here.\<close>

type_synonym 'p Middleware = "'p Message \<Rightarrow> 'p Message \<times> errors outcome"
type_synonym 'p Interceptor = "'p Response \<Rightarrow> 'p Response \<times> errors outcome"
type_synonym 'p Handler = "'p Message \<Rightarrow> ('p Response \<times> errors) outcome"

end
