(* ===== verification/Router_Dispatch.thy ===== *)
theory Router_Dispatch
  imports Router_Model
begin

text \<open>
  \<open>x/router/dispatcher.go\<close>: the dispatcher. First what one worker does with a message
  (middleware, handler, envelope of the error) and with a response (interceptors), then the
  service as a step relation: the bounded pipe of messages, the messages in the hands of the
  workers, the queue of responses, which may refuse one, what was published, and what was lost when
  the service shuts down; at the end the queues, the services and how they start.
  A deque of callbacks is a list; registration is one map per kind, keyed by the protocol.
\<close>

section \<open>Configuration and registration\<close>

record Config =
  Name :: string
  Buffer :: int
  Workers :: int

record 'p Dispatcher =
  conf :: Config
  middleware :: "Protocol \<Rightarrow> 'p Middleware list option"
  interceptor :: "Protocol \<Rightarrow> 'p Interceptor list option"
  handlers :: "Protocol \<Rightarrow> 'p Handler option"

definition NewDispatcher :: "Config \<Rightarrow> 'p Dispatcher" where
  "NewDispatcher c =
     (let c = (if Workers c < 1 then c\<lparr>Workers := 1\<rparr> else c)
      in \<lparr>conf = c, middleware = Map.empty, interceptor = Map.empty, handlers = Map.empty\<rparr>)"

text \<open>\<open>Get\<close> on a map of deques makes an empty deque for a missing key.\<close>

definition AddMiddleware :: "Protocol \<Rightarrow> 'p Middleware \<Rightarrow> 'p Dispatcher \<Rightarrow> 'p Dispatcher" where
  "AddMiddleware key it r =
     r\<lparr>middleware := (middleware r)(key \<mapsto> deref_z [] (middleware r key) @ [it])\<rparr>"

definition AddInterceptor :: "Protocol \<Rightarrow> 'p Interceptor \<Rightarrow> 'p Dispatcher \<Rightarrow> 'p Dispatcher" where
  "AddInterceptor key it r =
     r\<lparr>interceptor := (interceptor r)(key \<mapsto> deref_z [] (interceptor r key) @ [it])\<rparr>"

text \<open>\<open>Set\<close> on a synchronised map stores under a new key only, and tells whether it did.\<close>

definition map_Set :: "('k \<Rightarrow> 'v option) \<Rightarrow> 'k \<Rightarrow> 'v \<Rightarrow> bool \<times> ('k \<Rightarrow> 'v option)" where
  "map_Set m k v = (case m k of None \<Rightarrow> (True, m(k \<mapsto> v)) | Some _ \<Rightarrow> (False, m))"

definition RegisterHandler :: "'p Dispatcher \<Rightarrow> Protocol \<Rightarrow> 'p Handler \<Rightarrow> bool \<times> 'p Dispatcher" where
  "RegisterHandler r key hfn =
     (if Protocol_IsZero key then (False, r)
      else case map_Set (handlers r) key hfn of (added, hs) \<Rightarrow> (added, r\<lparr>handlers := hs\<rparr>))"

definition OverrideHandler :: "'p Dispatcher \<Rightarrow> Protocol \<Rightarrow> 'p Handler \<Rightarrow> 'p Dispatcher" where
  "OverrideHandler r key hfn =
     (if Protocol_IsZero key then r else r\<lparr>handlers := (handlers r)(key \<mapsto> hfn)\<rparr>)"

interpretation handler_registry:
  registry "NewDispatcher c" handlers RegisterHandler "\<lambda>k. \<not> Protocol_IsZero k" for c
proof (unfold_locales, goal_cases)
  case (1 k)
  show ?case by (simp add: NewDispatcher_def Let_def)
next
  case (2 s k v)
  show ?case by (simp add: RegisterHandler_def map_Set_def split: option.splits)
next
  case (3 s k v k')
  show ?case by (simp add: RegisterHandler_def map_Set_def split: option.splits)
qed

section \<open>The pipeline\<close>

text \<open>\<open>doIntercept\<close> and \<open>doMiddleware\<close> run the callbacks of a key in order, to the first error; a
  panic is collected as an error.\<close>

fun run_chain :: "('m \<Rightarrow> 'm \<times> errors outcome) list \<Rightarrow> 'm \<Rightarrow> 'm \<times> errors" where
  "run_chain [] m = (m, [])"
| "run_chain (f # fs) m =
     (case f m of
        (m', Panic e) \<Rightarrow> (m', [e])
      | (m', Return err) \<Rightarrow> if err \<noteq> [] then (m', err) else run_chain fs m')"

definition doIntercept :: "'p Dispatcher \<Rightarrow> Protocol \<Rightarrow> 'p Response \<Rightarrow> 'p Response \<times> errors" where
  "doIntercept r key rr =
     (case interceptor r key of None \<Rightarrow> (rr, []) | Some icept \<Rightarrow> run_chain icept rr)"

definition doMiddleware :: "'p Dispatcher \<Rightarrow> Protocol \<Rightarrow> 'p Message \<Rightarrow> 'p Message \<times> errors" where
  "doMiddleware r key req =
     (case middleware r key of None \<Rightarrow> (req, []) | Some mw \<Rightarrow> run_chain mw req)"

text \<open>A handler that panics leaves the zero response behind, with the panic as its error.\<close>

definition doHandler :: "'p Dispatcher \<Rightarrow> Protocol \<Rightarrow> 'p Message \<Rightarrow> 'p Response" where
  "doHandler r key req =
     (case handlers r key of
        None \<Rightarrow> zero_Response\<lparr>r_Error := [ErrNoHandler]\<rparr>
      | Some h \<Rightarrow>
          (case h req of
             Panic e \<Rightarrow> zero_Response\<lparr>r_Error := [e]\<rparr>
           | Return (resp, err) \<Rightarrow> resp\<lparr>r_Error := err @ r_Error resp\<rparr>))"

text \<open>The worker of the middleware service: the response it queues, and the error it hands to the
  error observer, if any.\<close>

definition handle_message :: "'p Dispatcher \<Rightarrow> 'p Message \<Rightarrow> 'p Response \<times> go_error option" where
  "handle_message r req =
     (let mid = m_ID req; protocol = m_Protocol req;
          (req1, err1) = doMiddleware r protocol req;
          (resp, err) =
            (if err1 \<noteq> [] then (zero_Response\<lparr>r_Error := err1\<rparr>, err1)
             else
               let (req2, err2) = doMiddleware r zero_Protocol req1
               in if err2 \<noteq> [] then (zero_Response\<lparr>r_Error := err2\<rparr>, err2)
                  else (doHandler r protocol req2, err2));
          resp = resp\<lparr>r_ID := mid\<rparr>;
          resp = (if Protocol_IsZero (r_Protocol resp) then resp\<lparr>r_Protocol := protocol\<rparr> else resp)
      in if err \<noteq> [] then
           let e = route_error err mid protocol in (resp\<lparr>r_Error := [e]\<rparr>, Some e)
         else (resp, None))"

text \<open>The worker of the response service: the response it publishes.\<close>

definition handle_response :: "'p Dispatcher \<Rightarrow> 'p Response \<Rightarrow> 'p Response" where
  "handle_response r rr =
     (let (rr1, err1) = doIntercept r zero_Protocol rr
      in if err1 \<noteq> [] then rr1\<lparr>r_Error := err1\<rparr>
         else
           let (rr2, err2) = doIntercept r (r_Protocol rr1) rr1
           in if err2 \<noteq> [] then rr2\<lparr>r_Error := err2 @ r_Error rr2\<rparr> else rr2)"

section \<open>Clients\<close>

text \<open>\<open>Subscribe\<close> forwards what is published, restricted to a protocol unless it is zero; \<open>Exec\<close>
  waits for the first response with the identifier of its message.\<close>

definition subscribe_filter :: "Protocol \<Rightarrow> 'p Response list \<Rightarrow> 'p Response list" where
  "subscribe_filter p rs = filter (\<lambda>r. \<not> (\<not> Protocol_IsZero p \<and> r_Protocol r \<noteq> p)) rs"

definition Stream :: "'p Response list \<Rightarrow> 'p Response list" where
  "Stream rs = subscribe_filter zero_Protocol rs"

fun exec_receive :: "string \<Rightarrow> 'p Response list \<Rightarrow> 'p Response option" where
  "exec_receive mid [] = None"
| "exec_receive mid (resp # rs) = (if r_ID resp \<noteq> mid then exec_receive mid rs else Some resp)"

text \<open>\<open>Broadcast\<close> and the sending half of \<open>Exec\<close>: refuse a message without protocol, populate its
  identifier.\<close>

definition prepare :: "(string \<Rightarrow> string) \<Rightarrow> 'p Message \<Rightarrow> go_error + 'p Message" where
  "prepare populate m =
     (if Protocol_IsZero (m_Protocol m) then Inl ErrNoProtocol
      else Inr (m\<lparr>m_ID := populate (m_ID m)\<rparr>))"

subsection \<open>Facts\<close>

lemma run_chain_keeps:
  assumes "\<And>f m. f \<in> set fs \<Longrightarrow> key (fst (f m)) = key m"
  shows "key (fst (run_chain fs m)) = key m"
  using assms
proof (induction fs arbitrary: m)
  case (Cons f fs)
  have k: "key (fst (f m)) = key m" by (rule Cons.prems) simp
  have "key (fst (run_chain fs (fst (f m)))) = key (fst (f m))"
    using Cons.prems by (intro Cons.IH) auto
  with k show ?case by (auto split: prod.splits outcome.splits)
qed simp

lemma handle_message_id [simp]: "r_ID (fst (handle_message r req)) = m_ID req"
  by (simp add: handle_message_def Let_def split: prod.splits)

lemma exec_receive_find: "exec_receive mid rs = find (\<lambda>resp. r_ID resp = mid) rs"
  by (induction rs) auto

lemma subscribe_filter_zero [simp]: "subscribe_filter zero_Protocol rs = rs"
  by (simp add: subscribe_filter_def)

text \<open>C7: what a worker answers to a message whose protocol is not zero. The response always carries the
  identifier of the message, and a protocol that is not zero. A failing middleware, the
  protocol's own first, then the general one, skips the handler: the response has no payload and the
  protocol of the message, its error names the message, and that error is observed. Otherwise
  nothing is observed, and the answer is that of the handler of the message's protocol, called with
  the message as the middleware has left it: its payload, its protocol or else that of the
  message, and the error it returns before the one in its response. A missing handler
  gives an empty response with the error for that, and a panic an empty response with the panic.\<close>

theorem handle_message_response:
  assumes "m_Protocol req \<noteq> zero_Protocol"
  shows "r_ID (fst (handle_message r req)) = m_ID req \<and>
    r_Protocol (fst (handle_message r req)) \<noteq> zero_Protocol \<and>
    (let (req1, err1) = doMiddleware r (m_Protocol req) req;
         (req2, err2) = doMiddleware r zero_Protocol req1
     in if err1 \<noteq> [] then
          handle_message r req =
            (\<lparr>r_Protocol = m_Protocol req, r_ID = m_ID req, r_Payload = None,
              r_Error = [route_error err1 (m_ID req) (m_Protocol req)]\<rparr>,
             Some (route_error err1 (m_ID req) (m_Protocol req)))
        else if err2 \<noteq> [] then
          handle_message r req =
            (\<lparr>r_Protocol = m_Protocol req, r_ID = m_ID req, r_Payload = None,
              r_Error = [route_error err2 (m_ID req) (m_Protocol req)]\<rparr>,
             Some (route_error err2 (m_ID req) (m_Protocol req)))
        else
          (case handlers r (m_Protocol req) of
             None \<Rightarrow> handle_message r req =
               (\<lparr>r_Protocol = m_Protocol req, r_ID = m_ID req, r_Payload = None,
                 r_Error = [ErrNoHandler]\<rparr>, None)
           | Some h \<Rightarrow>
               (case h req2 of
                  Panic e \<Rightarrow> handle_message r req =
                    (\<lparr>r_Protocol = m_Protocol req, r_ID = m_ID req, r_Payload = None, r_Error = [e]\<rparr>, None)
                | Return (resp, err) \<Rightarrow> handle_message r req =
                    (\<lparr>r_Protocol = (if r_Protocol resp = zero_Protocol then m_Protocol req else r_Protocol resp),
                      r_ID = m_ID req, r_Payload = r_Payload resp, r_Error = err @ r_Error resp\<rparr>, None))))"
  using assms
  by (simp add: handle_message_def doHandler_def zero_Response_def Let_def
      split: prod.splits option.splits outcome.splits)

definition demo_message :: "string Message" where
  "demo_message = \<lparr>m_Protocol = Protocol ''ping'' 1, m_ID = ''1'', m_Payload = ''hello''\<rparr>"

theorem handle_message_response_witness:
  "fst (handle_message (NewDispatcher \<lparr>Name = ''d'', Buffer = 0, Workers = 0\<rparr>) demo_message) =
     \<lparr>r_Protocol = Protocol ''ping'' 1, r_ID = ''1'', r_Payload = None, r_Error = [ErrNoHandler]\<rparr> \<and>
   snd (handle_message (NewDispatcher \<lparr>Name = ''d'', Buffer = 0, Workers = 0\<rparr>) demo_message) = None"
  using handle_message_response [of demo_message "NewDispatcher \<lparr>Name = ''d'', Buffer = 0, Workers = 0\<rparr>"]
  by (simp add: demo_message_def zero_Protocol_def NewDispatcher_def doMiddleware_def
      handle_message_def doHandler_def zero_Response_def Let_def)

text \<open>The handlers form a registry: after any sequence of registrations the handler of a
  protocol is the one registered first, the zero protocol has none, a second registration is
  refused, and an override replaces the handler of that protocol alone.\<close>

theorem handlers_first_registration_wins:
  "handlers (handler_registry.register_all kvs (NewDispatcher c)) key =
     (if key = zero_Protocol then None else map_of kvs key) \<and>
   \<not> fst (RegisterHandler (snd (RegisterHandler r key h)) key h') \<and>
   handlers (OverrideHandler r key h) =
     (if key = zero_Protocol then handlers r else (handlers r)(key \<mapsto> h))"
  using handler_registry.lookup_all_empty[of kvs c key] handler_registry.register_again[of r key h h']
  by (simp add: OverrideHandler_def)

section \<open>The service\<close>

text \<open>\<open>sv_pipe\<close> are the messages that wait, \<open>sv_working\<close> those that a worker has taken, \<open>sv_outgoing\<close> the
  responses that wait or that a worker has taken, \<open>sv_published\<close> those handed to the broker while the
  service runs. \<open>sv_lost\<close> notes the identifiers of messages and responses that were dropped,
  \<open>sv_sent\<close> the messages accepted. The flags say whether the queues are open, whether the context of
  the service has ended and whether the error observer has panicked.\<close>

record 'p service =
  sv_pipe :: "'p Message list"
  sv_working :: "'p Message list"
  sv_outgoing :: "'p Response list"
  sv_published :: "'p Response list"
  sv_lost :: "string list"
  sv_observed :: "go_error list"
  sv_sent :: "'p Message list"
  sv_pipe_open :: bool
  sv_outgoing_open :: bool
  sv_ended :: bool
  sv_observer_panicked :: bool

definition service_init :: "'p service \<Rightarrow> bool" where
  "service_init s \<longleftrightarrow> s = \<lparr>sv_pipe = [], sv_working = [], sv_outgoing = [], sv_published = [],
     sv_lost = [], sv_observed = [], sv_sent = [], sv_pipe_open = True, sv_outgoing_open = True,
     sv_ended = False, sv_observer_panicked = False\<rparr>"

text \<open>The steps: a client pushes a prepared message when the pipe is open and has room; an idle worker
  takes the oldest message; a worker finishes any of the messages at hand and pushes its
  response. The push fails when the queue is closed, and may fail when the queue has a quota, which
  is there when \<open>Buffer\<close> is positive; then the response is gone. It is gone too when the observer of
  errors panics. A worker publishes any of the responses. After the context has ended the pools of
  workers and the broker may drop what they have. \<open>populate\<close> generates the missing identifiers.\<close>

inductive service_step :: "'p Dispatcher \<Rightarrow> 'p service \<Rightarrow> 'p service \<Rightarrow> bool" for r where
  Send: "prepare populate m = Inr m' \<Longrightarrow> sv_pipe_open s \<Longrightarrow>
     int (length (sv_pipe s)) < Workers (conf r) \<Longrightarrow>
     service_step r s (s\<lparr>sv_pipe := sv_pipe s @ [m'], sv_sent := sv_sent s @ [m']\<rparr>)"
| Take: "sv_pipe s = m # ms \<Longrightarrow> int (length (sv_working s)) < Workers (conf r) \<Longrightarrow>
     service_step r s (s\<lparr>sv_pipe := ms, sv_working := m # sv_working s\<rparr>)"
| Finish: "sv_working s = xs @ m # ys \<Longrightarrow> handle_message r m = (resp, obs) \<Longrightarrow> sv_outgoing_open s \<Longrightarrow>
     service_step r s (s\<lparr>sv_working := xs @ ys, sv_outgoing := sv_outgoing s @ [resp],
       sv_observed := sv_observed s @ opt_err obs\<rparr>)"
| Refuse: "sv_working s = xs @ m # ys \<Longrightarrow> handle_message r m = (resp, obs) \<Longrightarrow>
     0 < Buffer (conf r) \<or> \<not> sv_outgoing_open s \<Longrightarrow>
     service_step r s (s\<lparr>sv_working := xs @ ys, sv_lost := sv_lost s @ [r_ID resp],
       sv_observed := sv_observed s @ opt_err obs\<rparr>)"
| Observer_Panic: "sv_working s = xs @ m # ys \<Longrightarrow> handle_message r m = (resp, Some e) \<Longrightarrow>
     service_step r s (s\<lparr>sv_working := xs @ ys, sv_lost := sv_lost s @ [r_ID resp],
       sv_observed := sv_observed s @ [e], sv_observer_panicked := True\<rparr>)"
| Publish: "sv_outgoing s = xs @ rr # ys \<Longrightarrow>
     service_step r s (s\<lparr>sv_outgoing := xs @ ys, sv_published := sv_published s @ [handle_response r rr]\<rparr>)"
| Close_Pipe_Queue: "service_step r s (s\<lparr>sv_pipe_open := False\<rparr>)"
| Close_Outgoing_Queue: "service_step r s (s\<lparr>sv_outgoing_open := False\<rparr>)"
| End: "service_step r s (s\<lparr>sv_ended := True\<rparr>)"
| Drop_Message: "sv_ended s \<Longrightarrow> sv_working s = xs @ m # ys \<Longrightarrow>
     service_step r s (s\<lparr>sv_working := xs @ ys, sv_lost := sv_lost s @ [m_ID m]\<rparr>)"
| Drop_Response: "sv_ended s \<Longrightarrow> sv_outgoing s = xs @ rr # ys \<Longrightarrow>
     service_step r s (s\<lparr>sv_outgoing := xs @ ys, sv_lost := sv_lost s @ [r_ID rr]\<rparr>)"

inductive_cases service_stepE: "service_step r s t"

text \<open>An interceptor that leaves the identifier of the response alone.\<close>

definition keeps_ids :: "'p Dispatcher \<Rightarrow> bool" where
  "keeps_ids r \<longleftrightarrow> (\<forall>key fs f rr. interceptor r key = Some fs \<longrightarrow> f \<in> set fs \<longrightarrow> r_ID (fst (f rr)) = r_ID rr)"

lemma doIntercept_id: "keeps_ids r \<Longrightarrow> r_ID (fst (doIntercept r key rr)) = r_ID rr"
  unfolding doIntercept_def
  by (cases "interceptor r key") (auto simp: keeps_ids_def intro!: run_chain_keeps)

lemma handle_response_id: "keeps_ids r \<Longrightarrow> r_ID (handle_response r rr) = r_ID rr"
proof -
  assume k: "keeps_ids r"
  obtain rr1 e1 where one: "doIntercept r zero_Protocol rr = (rr1, e1)" by fastforce
  obtain rr2 e2 where two: "doIntercept r (r_Protocol rr1) rr1 = (rr2, e2)" by fastforce
  have "r_ID rr1 = r_ID rr" "r_ID rr2 = r_ID rr1"
    using doIntercept_id[OF k, of zero_Protocol rr] doIntercept_id[OF k, of "r_Protocol rr1" rr1] one two
    by simp_all
  then show ?thesis by (simp add: handle_response_def one two)
qed

text \<open>Every message sent is in exactly one place, and is answered once or lost; nothing is lost while
  no queue refuses, the observer returns and the service runs; the pipe and the workers never hold
  more than they may; the messages accepted have a protocol.\<close>

definition no_loss :: "'p Dispatcher \<Rightarrow> 'p service \<Rightarrow> bool" where
  "no_loss r s \<longleftrightarrow> Buffer (conf r) \<le> 0 \<and> sv_outgoing_open s \<and> \<not> sv_ended s \<and> \<not> sv_observer_panicked s"

definition service_inv :: "'p Dispatcher \<Rightarrow> 'p service \<Rightarrow> bool" where
  "service_inv r s \<longleftrightarrow>
     (keeps_ids r \<longrightarrow>
        mset (map m_ID (sv_sent s)) =
          mset (map m_ID (sv_pipe s)) + mset (map m_ID (sv_working s)) +
          mset (map r_ID (sv_outgoing s)) + mset (map r_ID (sv_published s)) + mset (sv_lost s)) \<and>
     (no_loss r s \<longrightarrow> sv_lost s = []) \<and>
     (0 \<le> Workers (conf r) \<longrightarrow>
        int (length (sv_pipe s)) \<le> Workers (conf r) \<and> int (length (sv_working s)) \<le> Workers (conf r)) \<and>
     (\<forall>m \<in> set (sv_sent s). m_Protocol m \<noteq> zero_Protocol)"

lemma service_inv_init: "service_init s \<Longrightarrow> service_inv r s"
  by (simp add: service_init_def service_inv_def)

lemma service_inv_step: "service_inv r s \<Longrightarrow> service_step r s t \<Longrightarrow> service_inv r t"
proof (erule service_stepE, goal_cases)
  case (1 populate m m')
  then show ?case by (auto simp: service_inv_def no_loss_def prepare_def split: if_splits)
next
  case (2 m ms)
  then show ?case by (auto simp: service_inv_def no_loss_def)
next
  case (3 xs m ys resp obs)
  then have "r_ID resp = m_ID m" using handle_message_id[of r m] by simp
  with 3 show ?case by (auto simp: service_inv_def no_loss_def)
next
  case (4 xs m ys resp obs)
  then have "r_ID resp = m_ID m" using handle_message_id[of r m] by simp
  with 4 show ?case by (auto simp: service_inv_def no_loss_def)
next
  case (5 xs m ys resp e)
  then have "r_ID resp = m_ID m" using handle_message_id[of r m] by simp
  with 5 show ?case by (auto simp: service_inv_def no_loss_def)
next
  case (6 xs rr ys)
  then show ?case by (auto simp: service_inv_def no_loss_def handle_response_id)
qed (auto simp: service_inv_def no_loss_def)

interpretation dispatch: step_invariant service_init "service_step r" "service_inv r" for r
  by unfold_locales (auto intro: service_inv_init service_inv_step)

text \<open>C6: in every state the service can reach, under every interleaving of clients, workers and shutdown,
  when the interceptors leave the identifiers of the responses alone and there is a worker (as the
  constructor makes sure), the identifiers of the messages accepted are, with their multiplicity,
  those still queued, at a worker, waiting to be published, published, or lost. Nothing is lost
  while the queue of the responses has no quota (\<open>Buffer\<close> not positive) and is open, the context of the
  service has not ended and the observer of errors has not panicked. The pipe and the workers never
  hold more messages than there are workers. When the queues are drained and nothing was lost, each
  message has exactly its response, and a client that waits for it finds it.\<close>

theorem service_conserves_messages:
  assumes "reach service_init (service_step r) s" and "keeps_ids r" and "1 \<le> Workers (conf r)"
  shows "mset (map m_ID (sv_sent s)) =
      mset (map m_ID (sv_pipe s)) + mset (map m_ID (sv_working s)) +
      mset (map r_ID (sv_outgoing s)) + mset (map r_ID (sv_published s)) + mset (sv_lost s) \<and>
    (Buffer (conf r) \<le> 0 \<and> sv_outgoing_open s \<and> \<not> sv_ended s \<and> \<not> sv_observer_panicked s \<longrightarrow>
       sv_lost s = []) \<and>
    int (length (sv_pipe s)) \<le> Workers (conf r) \<and> int (length (sv_working s)) \<le> Workers (conf r) \<and>
    (sv_pipe s = [] \<and> sv_working s = [] \<and> sv_outgoing s = [] \<and> sv_lost s = [] \<longrightarrow>
       mset (map r_ID (Stream (sv_published s))) = mset (map m_ID (sv_sent s)) \<and>
       (\<forall>m \<in> set (sv_sent s). \<exists>resp. exec_receive (m_ID m) (sv_published s) = Some resp \<and>
          r_ID resp = m_ID m))"
proof -
  have inv: "service_inv r s" using assms(1) by (rule dispatch.inv_reach)
  then have cons: "mset (map m_ID (sv_sent s)) =
      mset (map m_ID (sv_pipe s)) + mset (map m_ID (sv_working s)) +
      mset (map r_ID (sv_outgoing s)) + mset (map r_ID (sv_published s)) + mset (sv_lost s)"
    using assms(2) by (simp add: service_inv_def)
  have "\<exists>resp. exec_receive (m_ID m) (sv_published s) = Some resp \<and> r_ID resp = m_ID m"
    if "sv_pipe s = [] \<and> sv_working s = [] \<and> sv_outgoing s = [] \<and> sv_lost s = []" "m \<in> set (sv_sent s)" for m
  proof -
    have "mset (map m_ID (sv_sent s)) = mset (map r_ID (sv_published s))" using that(1) cons by simp
    then have "m_ID m \<in> set (map r_ID (sv_published s))"
      using that(2) by (metis image_eqI list.set_map mset_eq_setD)
    then have "find (\<lambda>resp. r_ID resp = m_ID m) (sv_published s) \<noteq> None"
      by (auto simp: find_None_iff)
    then show ?thesis by (auto simp: exec_receive_find dest: find_SomeD)
  qed
  with cons inv assms(3) show ?thesis by (simp add: Stream_def service_inv_def no_loss_def)
qed

theorem service_conserves_messages_witness:
  "\<exists>s. reach service_init
       (service_step (NewDispatcher \<lparr>Name = ''d'', Buffer = 0, Workers = 1\<rparr>)) s \<and>
     sv_sent s = [demo_message] \<and> sv_working s = [] \<and> sv_outgoing s = [] \<and>
     mset (map r_ID (Stream (sv_published s))) = {#''1''#}"
proof -
  define r :: "string Dispatcher" where "r = NewDispatcher \<lparr>Name = ''d'', Buffer = 0, Workers = 1\<rparr>"
  define s0 :: "string service" where "s0 = \<lparr>sv_pipe = [], sv_working = [], sv_outgoing = [],
     sv_published = [], sv_lost = [], sv_observed = [], sv_sent = [], sv_pipe_open = True,
     sv_outgoing_open = True, sv_ended = False, sv_observer_panicked = False\<rparr>"
  define s1 where "s1 = s0\<lparr>sv_pipe := [demo_message], sv_sent := [demo_message]\<rparr>"
  define s2 where "s2 = s1\<lparr>sv_pipe := [], sv_working := [demo_message]\<rparr>"
  define s3 where "s3 = s2\<lparr>sv_working := [], sv_outgoing := [fst (handle_message r demo_message)],
     sv_observed := opt_err (snd (handle_message r demo_message))\<rparr>"
  define s4 where "s4 = s3\<lparr>sv_outgoing := [],
     sv_published := [handle_response r (fst (handle_message r demo_message))]\<rparr>"
  have w: "Workers (conf r) = 1" by (simp add: r_def NewDispatcher_def)
  have "service_step r s0 s1"
    using Send[of "\<lambda>i. i" demo_message demo_message s0 r] w
    by (simp add: s1_def s0_def prepare_def demo_message_def zero_Protocol_def)
  moreover have "service_step r s1 s2"
    using Take[of s1 demo_message "[]" r] w by (simp add: s2_def s1_def s0_def)
  moreover have "service_step r s2 s3"
    using Finish[of s2 "[]" demo_message "[]" r] by (simp add: s3_def s2_def s1_def s0_def)
  moreover have "service_step r s3 s4"
    using Publish[of s3 "[]" "fst (handle_message r demo_message)" "[]" r]
    by (simp add: s4_def s3_def s2_def s1_def s0_def)
  moreover have "reach service_init (service_step r) s0"
    by (rule reach_init) (simp add: service_init_def s0_def)
  ultimately have r4: "reach service_init (service_step r) s4" by (meson reach_step)
  have "keeps_ids r" by (simp add: keeps_ids_def r_def NewDispatcher_def)
  with r4 w have "sv_pipe s4 = [] \<and> sv_working s4 = [] \<and> sv_outgoing s4 = [] \<and> sv_lost s4 = [] \<longrightarrow>
       mset (map r_ID (Stream (sv_published s4))) = mset (map m_ID (sv_sent s4))"
    using service_conserves_messages[of r s4] by simp
  then have "mset (map r_ID (Stream (sv_published s4))) = mset (map m_ID (sv_sent s4))"
    by (simp add: s4_def s3_def s2_def s1_def s0_def)
  moreover have "sv_sent s4 = [demo_message]" "sv_working s4 = []" "sv_outgoing s4 = []"
    by (simp_all add: s4_def s3_def s2_def s1_def s0_def)
  moreover have "mset (map m_ID [demo_message]) = {#''1''#}" by (simp add: demo_message_def)
  ultimately show ?thesis using r4 unfolding r_def by metis
qed

section \<open>Queues, services and the start\<close>

text \<open>The queue of responses is unlimited, or has a soft quota, a hard limit and a credit for
  bursts. The sums are those of Go's integers.\<close>

datatype outgoing_queue = Unlimited_Queue | Quota_Queue (SoftQuota: int) (HardLimit: int) (BurstCredit: int)

definition outgoing_queue :: "'p Dispatcher \<Rightarrow> outgoing_queue" where
  "outgoing_queue r =
     (if Buffer (conf r) \<le> 0 then Unlimited_Queue
      else Quota_Queue (Buffer (conf r)) (wrap64 (Buffer (conf r) + Workers (conf r))) (wrap64 (Workers (conf r) + 1)))"

definition pipe_capacity :: "'p Dispatcher \<Rightarrow> int" where
  "pipe_capacity r = Workers (conf r)"

text \<open>The services in the order in which the constructor adds them to the orchestrator.\<close>

datatype dispatcher_service = Broker_Service | Pipe_Shutdown_Service | Response_Service | Middleware_Service

definition registered_services :: "dispatcher_service list" where
  "registered_services = [Broker_Service, Pipe_Shutdown_Service, Response_Service, Middleware_Service]"

text \<open>What the services share: the broker, the channel whose closing says that the dispatcher is
  running, and the two queues.\<close>

record lifecycle =
  lc_broker :: bool
  lc_running :: bool
  lc_pipe_open :: bool
  lc_outgoing_open :: bool
  lc_broker_stopped :: bool

definition lifecycle_init :: "lifecycle \<Rightarrow> bool" where
  "lifecycle_init s \<longleftrightarrow> s = \<lparr>lc_broker = False, lc_running = False, lc_pipe_open = True,
     lc_outgoing_open = True, lc_broker_stopped = False\<rparr>"

text \<open>The broker's service makes the broker and then closes the channel; the shutdown functions of the
  services may be called in any order, the one of the pipe by two services.\<close>

inductive lifecycle_step :: "lifecycle \<Rightarrow> lifecycle \<Rightarrow> bool" where
  Make_Broker: "\<not> lc_broker s \<Longrightarrow> lifecycle_step s (s\<lparr>lc_broker := True\<rparr>)"
| Close_Running: "lc_broker s \<Longrightarrow> \<not> lc_running s \<Longrightarrow> lifecycle_step s (s\<lparr>lc_running := True\<rparr>)"
| Stop_Broker: "lc_broker s \<Longrightarrow> lifecycle_step s (s\<lparr>lc_broker_stopped := True\<rparr>)"
| Close_Pipe: "lifecycle_step s (s\<lparr>lc_pipe_open := False\<rparr>)"
| Close_Outgoing: "lifecycle_step s (s\<lparr>lc_outgoing_open := False\<rparr>)"

inductive_cases lifecycle_stepE: "lifecycle_step s t"

text \<open>\<open>Ready\<close> returns when the channel is closed or the context has ended. The worker of the responses
  starts when the channel is closed and returns when the context ends before.\<close>

definition Ready :: "bool \<Rightarrow> lifecycle \<Rightarrow> bool" where
  "Ready ctx_done s \<longleftrightarrow> lc_running s \<or> ctx_done"

datatype started = Waits | Returns_Nil | Processes

definition response_service_Run :: "bool \<Rightarrow> lifecycle \<Rightarrow> started" where
  "response_service_Run ctx_done s =
     (if lc_running s then Processes else if ctx_done then Returns_Nil else Waits)"

text \<open>Every client first subscribes to the broker, which is nil until it is made.\<close>

definition client_broker :: "lifecycle \<Rightarrow> unit outcome" where
  "client_broker s = (if lc_broker s then Return () else Panic nil_deref)"

definition Broadcast ::
    "(string \<Rightarrow> string) \<Rightarrow> ('p Message \<Rightarrow> errors) \<Rightarrow> 'p Message \<Rightarrow> errors" where
  "Broadcast populate push m = (case prepare populate m of Inl err \<Rightarrow> [err] | Inr m \<Rightarrow> push m)"

text \<open>\<open>Exec\<close>: \<open>published\<close> is what the broker delivers until the context ends with \<open>ctx_err\<close>.\<close>

definition dispatcher_Exec ::
    "(string \<Rightarrow> string) \<Rightarrow> ('p Message \<Rightarrow> errors) \<Rightarrow> errors \<Rightarrow> 'p Response list \<Rightarrow> lifecycle \<Rightarrow> 'p Message \<Rightarrow>
     (errors + 'p Response) outcome" where
  "dispatcher_Exec populate push ctx_err published s m =
     (case prepare populate m of
        Inl err \<Rightarrow> Return (Inl [err])
      | Inr m \<Rightarrow>
          (case client_broker s of
             Panic p \<Rightarrow> Panic p
           | Return _ \<Rightarrow>
               let err = push m
               in if err \<noteq> [] then Return (Inl err)
                  else
                    (case exec_receive (m_ID m) published of
                       None \<Rightarrow> Return (Inl ctx_err)
                     | Some resp \<Rightarrow> Return (Inr resp))))"

interpretation lifecycle: step_invariant lifecycle_init lifecycle_step "\<lambda>s. lc_running s \<longrightarrow> lc_broker s"
  by unfold_locales (auto simp: lifecycle_init_def elim: lifecycle_stepE)

lemma exec_receive_first:
  assumes "\<exists>resp \<in> set rs. r_ID resp = mid"
  shows "\<exists>before resp after. rs = before @ resp # after \<and> r_ID resp = mid \<and>
    (\<forall>other \<in> set before. r_ID other \<noteq> mid) \<and> exec_receive mid rs = Some resp"
  using assms
proof (induction rs)
  case (Cons x rs)
  show ?case
  proof (cases "r_ID x = mid")
    case True
    then show ?thesis by (intro exI[of _ "[]"] exI[of _ x] exI[of _ rs]) simp
  next
    case False
    with Cons obtain before resp after where "rs = before @ resp # after" "r_ID resp = mid"
      "\<forall>other \<in> set before. r_ID other \<noteq> mid" "exec_receive mid rs = Some resp" by auto
    with False show ?thesis by (intro exI[of _ "x # before"] exI[of _ resp] exI[of _ after]) simp
  qed
qed simp

lemma Exec_with_broker:
  assumes b: "client_broker s = Return ()"
  shows "if m_Protocol m = zero_Protocol
      then dispatcher_Exec populate push ctx_err published s m = Return (Inl [ErrNoProtocol])
      else if push (m\<lparr>m_ID := populate (m_ID m)\<rparr>) \<noteq> []
      then dispatcher_Exec populate push ctx_err published s m =
        Return (Inl (push (m\<lparr>m_ID := populate (m_ID m)\<rparr>)))
      else if \<exists>resp \<in> set published. r_ID resp = populate (m_ID m)
      then \<exists>before resp after. published = before @ resp # after \<and> r_ID resp = populate (m_ID m) \<and>
        (\<forall>other \<in> set before. r_ID other \<noteq> populate (m_ID m)) \<and>
        dispatcher_Exec populate push ctx_err published s m = Return (Inr resp)
      else dispatcher_Exec populate push ctx_err published s m = Return (Inl ctx_err)"
proof -
  define mid where "mid = populate (m_ID m)"
  have exec: "dispatcher_Exec populate push ctx_err published s m =
      (if m_Protocol m = zero_Protocol then Return (Inl [ErrNoProtocol])
       else if push (m\<lparr>m_ID := mid\<rparr>) \<noteq> [] then Return (Inl (push (m\<lparr>m_ID := mid\<rparr>)))
       else (case exec_receive mid published of None \<Rightarrow> Return (Inl ctx_err) | Some resp \<Rightarrow> Return (Inr resp)))"
    by (simp add: dispatcher_Exec_def prepare_def b Let_def mid_def)
  have none: "exec_receive mid published = None" if "\<not> (\<exists>resp \<in> set published. r_ID resp = mid)"
    using that by (auto simp: exec_receive_find find_None_iff)
  show ?thesis
  proof (cases "\<exists>resp \<in> set published. r_ID resp = mid")
    case True
    from exec_receive_first[OF this] obtain before resp after where
      first: "published = before @ resp # after" "r_ID resp = mid" "\<forall>other \<in> set before. r_ID other \<noteq> mid"
      and rcv: "exec_receive mid published = Some resp" by blast
    have found: "\<exists>resp \<in> set published. r_ID resp = populate (m_ID m)" using True by (simp add: mid_def)
    have "\<exists>before resp after. published = before @ resp # after \<and> r_ID resp = mid \<and>
        (\<forall>other \<in> set before. r_ID other \<noteq> mid) \<and> Return (Inr resp) = (Return (Inr resp0) :: (errors + 'a Response) outcome)"
      if "exec_receive mid published = Some resp0" for resp0
      using first rcv that by (intro exI[of _ before] exI[of _ resp] exI[of _ after]) simp
    then show ?thesis unfolding exec rcv option.case if_P[OF found] using rcv
      by (simp add: mid_def [symmetric])
  next
    case False
    then have not: "\<not> (\<exists>resp \<in> set published. r_ID resp = populate (m_ID m))" by (simp add: mid_def)
    show ?thesis unfolding exec none[OF False] option.case if_not_P[OF not]
      by (simp add: mid_def [symmetric])
  qed
qed

lemma queue_options:
  assumes "Workers c < 2 ^ 63" and "Buffer c < 2 ^ 63"
  shows "case outgoing_queue (NewDispatcher c :: 'p Dispatcher) of
       Unlimited_Queue \<Rightarrow> Buffer c \<le> 0
     | Quota_Queue soft hard burst \<Rightarrow> 0 < soft \<and>
         (if Buffer c + max 1 (Workers c) < 2 ^ 63 then soft < hard \<and> 0 < burst else hard < 0)"
proof (cases "0 < Buffer c")
  case True
  define n where "n = max 1 (Workers c)"
  have n: "1 \<le> n" "n < 2 ^ 63" using assms(1) by (simp_all add: n_def)
  have q: "outgoing_queue (NewDispatcher c :: 'p Dispatcher) = Quota_Queue (Buffer c) (wrap64 (Buffer c + n)) (wrap64 (n + 1))"
    using True by (auto simp: outgoing_queue_def NewDispatcher_def Let_def n_def max_def)
  show ?thesis
  proof (cases "Buffer c + n < 2 ^ 63")
    case fits: True
    then have "wrap64 (Buffer c + n) = Buffer c + n" "wrap64 (n + 1) = n + 1"
      using n True by (auto intro!: wrap64_id)
    then show ?thesis using q fits n True by (simp add: n_def [symmetric])
  next
    case False
    then have "wrap64 (Buffer c + n) = Buffer c + n - 2 ^ 64"
      using n assms(2) by (simp add: wrap64_def mod_pos_geq)
    then show ?thesis using q False n True assms(2) by (simp add: n_def [symmetric])
  qed
next
  case False
  then show ?thesis by (simp add: outgoing_queue_def NewDispatcher_def Let_def)
qed

text \<open>C38: Executing a message after \<open>Ready\<close> has returned, with a context that lasts until then, never meets
  a missing broker, whatever the services have done by then. A message without protocol is refused,
  the error of the push is returned, and otherwise the answer is the first response published with the
  identifier of the message, or the error of the context when there is none. The queues that the
  constructor asks for have a positive capacity and quota; the limit is not below the quota, and the credit
  is positive, exactly when the buffer and the workers together fit into 64 bits, and otherwise
  the limit has wrapped around to a negative number.\<close>

theorem exec_after_ready:
  assumes "reach lifecycle_init lifecycle_step s" and "Ready False s"
    and "Workers c < 2 ^ 63" and "Buffer c < 2 ^ 63"
  shows "(if m_Protocol m = zero_Protocol
      then dispatcher_Exec populate push ctx_err published s m = Return (Inl [ErrNoProtocol])
      else if push (m\<lparr>m_ID := populate (m_ID m)\<rparr>) \<noteq> []
      then dispatcher_Exec populate push ctx_err published s m =
        Return (Inl (push (m\<lparr>m_ID := populate (m_ID m)\<rparr>)))
      else if \<exists>resp \<in> set published. r_ID resp = populate (m_ID m)
      then \<exists>before resp after. published = before @ resp # after \<and> r_ID resp = populate (m_ID m) \<and>
        (\<forall>other \<in> set before. r_ID other \<noteq> populate (m_ID m)) \<and>
        dispatcher_Exec populate push ctx_err published s m = Return (Inr resp)
      else dispatcher_Exec populate push ctx_err published s m = Return (Inl ctx_err)) \<and>
    0 < pipe_capacity (NewDispatcher c) \<and>
    (case outgoing_queue (NewDispatcher c) of
       Unlimited_Queue \<Rightarrow> Buffer c \<le> 0
     | Quota_Queue soft hard burst \<Rightarrow> 0 < soft \<and>
         (if Buffer c + max 1 (Workers c) < 2 ^ 63 then soft < hard \<and> 0 < burst else hard < 0))"
proof -
  have "lc_broker s" using lifecycle.inv_reach[OF assms(1)] assms(2) by (simp add: Ready_def)
  then have b: "client_broker s = Return ()" by (simp add: client_broker_def)
  have "0 < pipe_capacity (NewDispatcher c)"
    by (simp add: pipe_capacity_def NewDispatcher_def Let_def)
  moreover have "case outgoing_queue (NewDispatcher c) of
       Unlimited_Queue \<Rightarrow> Buffer c \<le> 0
     | Quota_Queue soft hard burst \<Rightarrow> 0 < soft \<and>
         (if Buffer c + max 1 (Workers c) < 2 ^ 63 then soft < hard \<and> 0 < burst else hard < 0)"
    by (rule queue_options[OF assms(3,4)])
  moreover have "if m_Protocol m = zero_Protocol
      then dispatcher_Exec populate push ctx_err published s m = Return (Inl [ErrNoProtocol])
      else if push (m\<lparr>m_ID := populate (m_ID m)\<rparr>) \<noteq> []
      then dispatcher_Exec populate push ctx_err published s m =
        Return (Inl (push (m\<lparr>m_ID := populate (m_ID m)\<rparr>)))
      else if \<exists>resp \<in> set published. r_ID resp = populate (m_ID m)
      then \<exists>before resp after. published = before @ resp # after \<and> r_ID resp = populate (m_ID m) \<and>
        (\<forall>other \<in> set before. r_ID other \<noteq> populate (m_ID m)) \<and>
        dispatcher_Exec populate push ctx_err published s m = Return (Inr resp)
      else dispatcher_Exec populate push ctx_err published s m = Return (Inl ctx_err)"
    by (rule Exec_with_broker[OF b])
  ultimately show ?thesis by blast
qed

theorem exec_after_ready_witness:
  "\<exists>s. reach lifecycle_init lifecycle_step s \<and> Ready False s \<and> \<not> lc_pipe_open s \<and>
     (\<forall>p. dispatcher_Exec (\<lambda>i. i) (\<lambda>_. []) [] [] s demo_message \<noteq> Panic p)"
proof -
  define s0 where "s0 = \<lparr>lc_broker = False, lc_running = False, lc_pipe_open = True,
     lc_outgoing_open = True, lc_broker_stopped = False\<rparr>"
  have "reach lifecycle_init lifecycle_step s0" by (rule reach_init) (simp add: lifecycle_init_def s0_def)
  moreover have "lifecycle_step s0 (s0\<lparr>lc_broker := True\<rparr>)" by (rule Make_Broker) (simp add: s0_def)
  moreover have "lifecycle_step (s0\<lparr>lc_broker := True\<rparr>) (s0\<lparr>lc_broker := True, lc_running := True\<rparr>)"
    using Close_Running[of "s0\<lparr>lc_broker := True\<rparr>"] by (simp add: s0_def)
  moreover have "lifecycle_step (s0\<lparr>lc_broker := True, lc_running := True\<rparr>)
      (s0\<lparr>lc_broker := True, lc_running := True, lc_pipe_open := False\<rparr>)"
    using Close_Pipe[of "s0\<lparr>lc_broker := True, lc_running := True\<rparr>"] by simp
  ultimately have r: "reach lifecycle_init lifecycle_step
      (s0\<lparr>lc_broker := True, lc_running := True, lc_pipe_open := False\<rparr>)" (is "reach _ _ ?s")
    by (meson reach_step)
  moreover have rd: "Ready False ?s" by (simp add: Ready_def)
  moreover have "dispatcher_Exec (\<lambda>i. i) (\<lambda>_. []) [] [] ?s demo_message \<noteq> Panic p" for p
    using exec_after_ready[OF r rd, where populate = "\<lambda>i. i" and push = "\<lambda>_. []" and ctx_err = "[]"
        and published = "[]" and m = demo_message and c = "\<lparr>Name = ''d'', Buffer = 4, Workers = 2\<rparr>"]
    by (auto split: if_splits)
  ultimately show ?thesis by (intro exI[of _ ?s]) simp
qed

end
