(* ===== verification/Router_Peer.thy ===== *)
theory Router_Peer
  imports Router_Model
begin

text \<open>
  \<open>x/router/peer.go\<close>: the router's connections to its peers. Each goroutine is a loop over the
  events it can meet (what the connection delivers, ticks of its timers), so that a run is the
  list of events so far; the state the goroutines of a peer share is the record of the peer.
  Times and durations are integers (nanoseconds). The connection, the dialer and the listener
  are parameters: their results are the events.
\<close>

section \<open>State\<close>

record ConnectionInfo =
  ci_ID :: string
  Connected :: bool
  MessagesSent :: int
  MessagesRecieved :: int
  Reconnect :: bool
  DialedAt :: int
  LastActive :: int
  Created :: int
  Latency :: int

record 'o disconnectedPeer =
  dp_opts :: 'o
  dp_peer :: "string option"
  lastFailure :: int
  dp_count :: int
  lastError :: errors
  checkFailed :: bool
  missedHeartbeat :: bool

record 'o peer =
  peer_id :: string
  peer_options :: 'o
  peer_sequence :: int
  lastObservedReset :: int
  info :: ConnectionInfo
  failureInfo :: "'o disconnectedPeer option"

definition TargetNetwork :: string where "TargetNetwork = ''__ENTIRE_NETWORK''"

record 'p Envelope =
  Target :: string
  Payload :: "'p Message"
  Broadcast :: bool
  ep_Error :: errors
  ResponingTo :: string
  ResponseTimeout :: int
  Source :: string
  SentAt :: int
  RecievedAt :: int
  Sequence :: int

definition peer_EOF :: go_error where "peer_EOF = Errf ''EOF'' []"

definition ErrProtocolConflict :: go_error where
  "ErrProtocolConflict = Errf ''protocol conflict'' []"

section \<open>createNewPeer\<close>

text \<open>\<open>store_set\<close> is the \<open>Set\<close> of the library's map: when it answers false the peer that the map
  holds is used instead (its zero value when there is none).\<close>

definition fresh_peer :: "string \<Rightarrow> 'o \<Rightarrow> int \<Rightarrow> 'o peer" where
  "fresh_peer pid opts connectedAt =
     \<lparr>peer_id = pid, peer_options = opts, peer_sequence = 0, lastObservedReset = 0,
      info = \<lparr>ci_ID = pid, Connected = True, MessagesSent = 0, MessagesRecieved = 0,
              Reconnect = False, DialedAt = connectedAt, LastActive = 0, Created = connectedAt, Latency = 0\<rparr>,
      failureInfo = None\<rparr>"

type_synonym 'o peer_store = "string \<Rightarrow> 'o peer option"
type_synonym 'o store_set = "'o peer_store \<Rightarrow> string \<Rightarrow> 'o peer \<Rightarrow> bool \<times> 'o peer_store"

definition new_peer ::
    "'o store_set \<Rightarrow> 'o peer \<Rightarrow> string \<Rightarrow> 'o \<Rightarrow> int \<Rightarrow> 'o peer_store \<Rightarrow> 'o peer \<times> 'o peer_store" where
  "new_peer store_set zero pid opts connectedAt store =
     (let p = fresh_peer pid opts connectedAt
      in case store_set store pid p of (stored, store) \<Rightarrow>
           (if \<not> stored then (deref_z zero (store pid), store) else (p, store)))"

text \<open>What \<open>conn.Receive\<close> can return: the end of the connection or of the context, another
  error, an envelope at a time.\<close>

datatype 'p received = Recv_End | Recv_Error go_error | Recv "'p Envelope" int

text \<open>What a goroutine of the peer has done: the peer as it left it, the envelopes published to
  \<open>incoming\<close>, the calls of the error observer, and whether it has returned.\<close>

record ('o, 'p) peer_run =
  pr_peer :: "'o peer"
  pr_incoming :: "'p Envelope list"
  pr_observed :: "errors list"
  pr_returned :: bool

fun receive_loop ::
    "string \<Rightarrow> errors \<Rightarrow> 'p received list \<Rightarrow> ('o, 'p) peer_run \<Rightarrow> ('o, 'p) peer_run" where
  "receive_loop self close_err [] st = st"
| "receive_loop self close_err (Recv_End # evs) st =
     st\<lparr>pr_peer := (pr_peer st)\<lparr>info := (info (pr_peer st))\<lparr>Connected := False\<rparr>\<rparr>,
        pr_observed := pr_observed st @ [close_err], pr_returned := True\<rparr>"
| "receive_loop self close_err (Recv_Error err # evs) st =
     receive_loop self close_err evs (st\<lparr>pr_observed := pr_observed st @ [[err]]\<rparr>)"
| "receive_loop self close_err (Recv ep now # evs) st =
     (let ep = ep\<lparr>RecievedAt := now\<rparr>;
          p = pr_peer st;
          p = p\<lparr>info := (info p)\<lparr>LastActive := now, MessagesRecieved := MessagesRecieved (info p) + 1,
                             Connected := True\<rparr>\<rparr>
      in if Target ep \<noteq> self \<or> Target ep \<noteq> TargetNetwork
         then receive_loop self close_err evs (st\<lparr>pr_peer := p\<rparr>)
         else
           let p = (if Sequence ep < peer_sequence p
                    then p\<lparr>lastObservedReset := now, peer_sequence := Sequence ep\<rparr> else p)
           in receive_loop self close_err evs
                (st\<lparr>pr_peer := p, pr_incoming := pr_incoming st @ [ep]\<rparr>))"

text \<open>The sending goroutine of a connection: what the iterator over the shared deque has given it, with the
  clock at that time, the envelopes it has numbered, one of which it may hold before sending it, the
  envelopes that the connection has taken, and the calls of the error observer.\<close>

record ('o, 'p) sender =
  sd_peer :: "'o peer"
  sd_taken :: "('p Envelope \<times> int) list"
  sd_numbered :: "'p Envelope list"
  sd_held :: "'p Envelope option"
  sd_sent :: "'p Envelope list"
  sd_observed :: "errors list"
  sd_returned :: bool

definition start_sender :: "'o peer \<Rightarrow> ('o, 'p) sender" where
  "start_sender p = \<lparr>sd_peer = p, sd_taken = [], sd_numbered = [], sd_held = None, sd_sent = [],
     sd_observed = [], sd_returned = False\<rparr>"

text \<open>\<open>r.seq\<close> is one counter of 64 bits for all connections; the goroutine adds to it and stamps the
  envelope, then it sends. The first error ends the goroutine, as does the end of the iterator; then the
  connection is closed.\<close>

definition number_envelope ::
    "string \<Rightarrow> 'p Envelope \<Rightarrow> int \<Rightarrow> int \<Rightarrow> ('o, 'p) sender \<Rightarrow> int \<times> ('o, 'p) sender" where
  "number_envelope self ep now seq sd =
     (let seq = wrap64 (seq + 1);
          ep' = ep\<lparr>Sequence := seq, SentAt := now, Source := self\<rparr>
      in (seq, sd\<lparr>sd_taken := sd_taken sd @ [(ep, now)], sd_numbered := sd_numbered sd @ [ep'],
                  sd_held := Some ep'\<rparr>))"

definition end_sender :: "errors \<Rightarrow> ('o, 'p) sender \<Rightarrow> ('o, 'p) sender" where
  "end_sender close_err sd =
     sd\<lparr>sd_peer := (sd_peer sd)\<lparr>info := (info (sd_peer sd))\<lparr>Connected := False\<rparr>\<rparr>,
        sd_observed := sd_observed sd @ [close_err], sd_returned := True\<rparr>"

definition send_envelope ::
    "errors \<Rightarrow> errors \<Rightarrow> int \<Rightarrow> 'p Envelope \<Rightarrow> ('o, 'p) sender \<Rightarrow> ('o, 'p) sender" where
  "send_envelope err close_err now ep sd =
     (let sd = sd\<lparr>sd_held := None\<rparr>
      in if err \<noteq> [] then end_sender close_err (sd\<lparr>sd_observed := sd_observed sd @ [err]\<rparr>)
         else sd\<lparr>sd_sent := sd_sent sd @ [ep],
                 sd_peer := (sd_peer sd)\<lparr>info := (info (sd_peer sd))\<lparr>LastActive := now,
                   MessagesSent := MessagesSent (info (sd_peer sd)) + 1, Connected := True\<rparr>\<rparr>\<rparr>)"

text \<open>The goroutines of all connections: new ones start, and each moves on by itself. \<open>ep\<close> is what the
  iterator yields, and \<open>err\<close> what the connection answers.\<close>

record ('o, 'p) sending =
  sn_seq :: int
  sn_senders :: "('o, 'p) sender list"

definition sending_init :: "('o, 'p) sending \<Rightarrow> bool" where
  "sending_init s \<longleftrightarrow> s = \<lparr>sn_seq = 0, sn_senders = []\<rparr>"

inductive sending_step :: "string \<Rightarrow> ('o, 'p) sending \<Rightarrow> ('o, 'p) sending \<Rightarrow> bool" for self where
  Start_Sender: "sending_step self s (s\<lparr>sn_senders := sn_senders s @ [start_sender p]\<rparr>)"
| Number_Envelope: "i < length (sn_senders s) \<Longrightarrow> \<not> sd_returned (sn_senders s ! i) \<Longrightarrow>
     sd_held (sn_senders s ! i) = None \<Longrightarrow>
     number_envelope self ep now (sn_seq s) (sn_senders s ! i) = (seq, sd) \<Longrightarrow>
     sending_step self s (s\<lparr>sn_seq := seq, sn_senders := (sn_senders s)[i := sd]\<rparr>)"
| Send_Envelope: "i < length (sn_senders s) \<Longrightarrow> \<not> sd_returned (sn_senders s ! i) \<Longrightarrow>
     sd_held (sn_senders s ! i) = Some ep \<Longrightarrow>
     sending_step self s
       (s\<lparr>sn_senders := (sn_senders s)[i := send_envelope err close_err now ep (sn_senders s ! i)]\<rparr>)"
| End_Iterator: "i < length (sn_senders s) \<Longrightarrow> \<not> sd_returned (sn_senders s ! i) \<Longrightarrow>
     sd_held (sn_senders s ! i) = None \<Longrightarrow>
     sending_step self s (s\<lparr>sn_senders := (sn_senders s)[i := end_sender close_err (sn_senders s ! i)]\<rparr>)"

inductive_cases sending_stepE: "sending_step self s t"

text \<open>The monitoring goroutine. A heartbeat carries the result that \<open>r.Exec\<close> would have.\<close>

datatype 'p tick =
    Heartbeat int "go_error option \<times> 'p Envelope"
  | Check errors int

definition heartbeat_request :: "string \<Rightarrow> 'p \<Rightarrow> 'p Envelope" where
  "heartbeat_request pid now =
     \<lparr>Target = pid, Payload = \<lparr>m_Protocol = Protocol ''heartbeat-sent'' 0, m_ID = [], m_Payload = now\<rparr>,
      Broadcast = False, ep_Error = [], ResponingTo = [], ResponseTimeout = 0, Source = [],
      SentAt = 0, RecievedAt = 0, Sequence = 0\<rparr>"

definition thirty_seconds :: int where "thirty_seconds = 30 * 1000000000"

definition failure_of :: "'o peer \<Rightarrow> 'o \<Rightarrow> int \<Rightarrow> 'o disconnectedPeer" where
  "failure_of p opts now =
     (case failureInfo p of
        Some i \<Rightarrow> i
      | None \<Rightarrow> \<lparr>dp_opts = opts, dp_peer = Some (peer_id p), lastFailure = now, dp_count = 0,
                 lastError = [], checkFailed = False, missedHeartbeat = False\<rparr>)"

text \<open>The state of the monitor: the peer, the failed peers queued, the heartbeats sent, whether the
  goroutine has cancelled the peer and returned.\<close>

record ('o, 'p) monitor =
  mo_peer :: "'o peer"
  mo_failed :: "'o disconnectedPeer list"
  mo_beats :: nat
  mo_cancelled :: bool

definition fail_peer :: "'o disconnectedPeer \<Rightarrow> ('o, 'p) monitor \<Rightarrow> ('o, 'p) monitor" where
  "fail_peer i m =
     m\<lparr>mo_peer := (mo_peer m)\<lparr>failureInfo := Some i, info := (info (mo_peer m))\<lparr>Connected := False\<rparr>\<rparr>,
       mo_failed := mo_failed m @ [i], mo_cancelled := True\<rparr>"

definition monitor_tick :: "'o \<Rightarrow> 'p tick \<Rightarrow> ('o, 'p) monitor \<Rightarrow> ('o, 'p) monitor" where
  "monitor_tick opts t m =
     (if mo_cancelled m then m
      else case t of
        Heartbeat now (err, rsp) \<Rightarrow>
          if LastActive (info (mo_peer m)) - now < thirty_seconds then m
          else
            let m = m\<lparr>mo_beats := mo_beats m + 1\<rparr>;
                errs = (case err of
                   Some e \<Rightarrow> [e]
                 | None \<Rightarrow>
                     when_err (Schema (m_Protocol (Payload rsp)) \<noteq> ''heartbeat-sent'' \<or>
                               Version (m_Protocol (Payload rsp)) \<noteq> 0) ErrProtocolConflict) @ ep_Error rsp
            in if errs \<noteq> []
               then fail_peer ((failure_of (mo_peer m) opts now)\<lparr>missedHeartbeat := True, lastError := errs\<rparr>) m
               else m
      | Check err now \<Rightarrow>
          if err \<noteq> [] then fail_peer ((failure_of (mo_peer m) opts now)\<lparr>checkFailed := True\<rparr>) m else m)"

section \<open>Exec, dialing and listening\<close>

text \<open>\<open>Exec\<close> reads the stream of received envelopes until a read fails; a run in progress has no
  result yet. No branch of its loop returns a response.\<close>

fun exec_loop :: "string \<Rightarrow> (go_error + 'p Envelope) list \<Rightarrow> (go_error + 'p Envelope) option" where
  "exec_loop mid [] = None"
| "exec_loop mid (Inl err # reads) = Some (Inl (Wrapf [err] ''message-id: %s: %w'' [S mid]))"
| "exec_loop mid (Inr rsp # reads) =
     (if ResponingTo rsp \<noteq> mid then exec_loop mid reads else exec_loop mid reads)"

definition Exec ::
    "(string \<Rightarrow> string) \<Rightarrow> ('p Envelope \<Rightarrow> errors) \<Rightarrow> (go_error + 'p Envelope) list \<Rightarrow> 'p Envelope \<Rightarrow>
     (go_error + 'p Envelope) option" where
  "Exec populate push_back reads ep =
     (let ep = ep\<lparr>Payload := (Payload ep)\<lparr>m_ID := populate (m_ID (Payload ep))\<rparr>\<rparr>
      in case push_back ep of
           err # _ \<Rightarrow> Some (Inl err)
         | [] \<Rightarrow> exec_loop (m_ID (Payload ep)) reads)"

datatype 'c listened = Listen_End | Listen_Error go_error | Listen_Conn 'c

text \<open>\<open>dialNewPeer\<close> queues a failed peer, or creates one; the listener creates a peer for each
  connection until it ends, reporting the errors in between.\<close>

definition dialNewPeer ::
    "('o \<Rightarrow> go_error + 'c) \<Rightarrow> 'o \<Rightarrow> int \<Rightarrow> 'o disconnectedPeer list \<Rightarrow>
     ('o \<times> 'c) option \<times> 'o disconnectedPeer list" where
  "dialNewPeer dialer opts now failed =
     (case dialer opts of
        Inl err \<Rightarrow>
          (None, failed @ [\<lparr>dp_opts = opts, dp_peer = None, lastFailure = now, dp_count = 1,
                            lastError = [], checkFailed = False, missedHeartbeat = False\<rparr>])
      | Inr conn \<Rightarrow> (Some (opts, conn), failed))"

fun listener_loop :: "'c listened list \<Rightarrow> 'c list \<Rightarrow> go_error list \<Rightarrow> 'c list \<times> go_error list \<times> bool" where
  "listener_loop [] created obs = (created, obs, False)"
| "listener_loop (Listen_End # evs) created obs = (created, obs, True)"
| "listener_loop (Listen_Error err # evs) created obs = listener_loop evs created (obs @ [err])"
| "listener_loop (Listen_Conn c # evs) created obs = listener_loop evs (created @ [c]) obs"

section \<open>The router\<close>

record RouterConfig =
  HeartbeatTimeout :: int
  CheckInterval :: int
  MaxPeerAge :: int
  DialAttempts :: int

text \<open>The connections are those of the library's network; \<open>rt_closed\<close> are the ones that the router
  has closed, in order.\<close>

record ('o, 'p, 'c) Router =
  rt_self :: string
  rt_seq :: int
  rt_conf :: RouterConfig
  rt_outgoing :: "'p Envelope list"
  rt_peerPipe :: "'o list"
  rt_peers :: "string \<Rightarrow> 'c option"
  rt_store :: "'o peer_store"
  rt_connErrorPeers :: "'o disconnectedPeer list"
  rt_closed :: "'c list"

definition NewRouter :: "RouterConfig \<Rightarrow> (string, 'p, 'c) Router" where
  "NewRouter c = \<lparr>rt_self = [], rt_seq = 0, rt_conf = c, rt_outgoing = [], rt_peerPipe = [],
     rt_peers = Map.empty, rt_store = Map.empty, rt_connErrorPeers = [], rt_closed = []\<rparr>"

text \<open>Pushing to a queue of the library may be refused.\<close>

definition AddPeer ::
    "('o list \<Rightarrow> 'o \<Rightarrow> errors \<times> 'o list) \<Rightarrow> 'o \<Rightarrow> ('o, 'p, 'c) Router \<Rightarrow> errors \<times> ('o, 'p, 'c) Router" where
  "AddPeer push opt r = (case push (rt_peerPipe r) opt of (err, q) \<Rightarrow> (err, r\<lparr>rt_peerPipe := q\<rparr>))"

definition router_Send ::
    "('p Envelope list \<Rightarrow> 'p Envelope \<Rightarrow> errors \<times> 'p Envelope list) \<Rightarrow> 'p Envelope \<Rightarrow>
     ('o, 'p, 'c) Router \<Rightarrow> errors \<times> ('o, 'p, 'c) Router" where
  "router_Send push ep r = (case push (rt_outgoing r) ep of (err, q) \<Rightarrow> (err, r\<lparr>rt_outgoing := q\<rparr>))"

text \<open>The part of \<open>createNewPeer\<close> before its goroutines: the peer is stored, and a connection that
  \<open>peers\<close> holds for the same identifier is closed. Nothing is put into \<open>peers\<close>.\<close>

definition createNewPeer ::
    "'o store_set \<Rightarrow> 'o peer \<Rightarrow> ('c \<Rightarrow> string) \<Rightarrow> int \<Rightarrow> 'o \<Rightarrow> 'c \<Rightarrow> ('o, 'p, 'c) Router \<Rightarrow> ('o, 'p, 'c) Router" where
  "createNewPeer store_set zero conn_ID now opts conn r =
     (case new_peer store_set zero (conn_ID conn) opts now (rt_store r) of (p, store) \<Rightarrow>
        let r = r\<lparr>rt_store := store\<rparr>
        in case rt_peers r (conn_ID conn) of
             None \<Rightarrow> r
           | Some previous \<Rightarrow> r\<lparr>rt_closed := rt_closed r @ [previous]\<rparr>)"

text \<open>The goroutine of \<open>startDialer\<close>: every peer of the pipe is dialed, in order, at the given times.\<close>

fun dialer_loop ::
    "'o store_set \<Rightarrow> 'o peer \<Rightarrow> ('c \<Rightarrow> string) \<Rightarrow> ('o \<Rightarrow> go_error + 'c) \<Rightarrow> ('o \<times> int) list \<Rightarrow>
     ('o, 'p, 'c) Router \<Rightarrow> ('o, 'p, 'c) Router" where
  "dialer_loop store_set zero conn_ID dialer [] r = r"
| "dialer_loop store_set zero conn_ID dialer ((opts, now) # vals) r =
     dialer_loop store_set zero conn_ID dialer vals
       (case dialNewPeer dialer opts now (rt_connErrorPeers r) of
          (None, failed) \<Rightarrow> r\<lparr>rt_connErrorPeers := failed\<rparr>
        | (Some (opts, conn), failed) \<Rightarrow>
            createNewPeer store_set zero conn_ID now opts conn (r\<lparr>rt_connErrorPeers := failed\<rparr>))"

text \<open>\<open>Stream\<close> subscribes, defers the end of its subscription and returns the iterator: the subscription
  has ended when the iterator is read. A broker is the list of its subscribers with what each was
  sent.\<close>

definition broker_publish :: "'e \<Rightarrow> (nat \<times> 'e list) list \<Rightarrow> (nat \<times> 'e list) list" where
  "broker_publish e subs = map (\<lambda>(i, es). (i, es @ [e])) subs"

definition broker_subscribe :: "(nat \<times> 'e list) list \<Rightarrow> nat \<times> (nat \<times> 'e list) list" where
  "broker_subscribe subs = (let i = Suc (foldr (max \<circ> fst) subs 0) in (i, (i, []) # subs))"

definition broker_unsubscribe :: "nat \<Rightarrow> (nat \<times> 'e list) list \<Rightarrow> (nat \<times> 'e list) list" where
  "broker_unsubscribe i subs = filter (\<lambda>(j, es). j \<noteq> i) subs"

definition router_Stream :: "(nat \<times> 'e list) list \<Rightarrow> nat \<times> (nat \<times> 'e list) list" where
  "router_Stream subs =
     (case broker_subscribe subs of (sub, subs) \<Rightarrow> (sub, broker_unsubscribe sub subs))"

text \<open>The history of a peer, which \<open>createNewPeer\<close> does not make: a tick appends to it and drops the
  oldest entries beyond 360.\<close>

function trim_history :: "ConnectionInfo list \<Rightarrow> ConnectionInfo list" where
  "trim_history h = (if length h > 360 then trim_history (tl h) else h)"
  by pat_completeness auto
termination by (relation "measure length") auto

declare trim_history.simps [simp del]

definition record_history ::
    "ConnectionInfo list option \<Rightarrow> ConnectionInfo \<Rightarrow> ConnectionInfo list option outcome" where
  "record_history historic i =
     (case historic of
        None \<Rightarrow> Panic nil_deref
      | Some h \<Rightarrow> Return (Some (trim_history (h @ [i]))))"

section \<open>Facts\<close>

lemma receive_loop_drops:
  "self \<noteq> TargetNetwork \<Longrightarrow> pr_incoming (receive_loop self ce evs st) = pr_incoming st"
  by (induction self ce evs st rule: receive_loop.induct) (auto simp: Let_def)

lemma receive_loop_counts:
  "\<forall>ev \<in> set evs. ev \<noteq> Recv_End \<Longrightarrow>
     MessagesRecieved (info (pr_peer (receive_loop self ce evs st))) =
       MessagesRecieved (info (pr_peer st)) +
         int (length (filter (\<lambda>ev. case ev of Recv ep now \<Rightarrow> True | _ \<Rightarrow> False) evs))"
  by (induction self ce evs st rule: receive_loop.induct) (auto simp: Let_def)

lemma wrap64_Suc: "wrap64 (wrap64 i + 1) = wrap64 (i + 1)"
  by (simp add: wrap64_def mod_simps algebra_simps)

text \<open>The envelope that was the \<open>k\<close>-th to be numbered has the number \<open>ticket k\<close>.\<close>

definition ticket :: "nat \<Rightarrow> int" where
  "ticket k = wrap64 (int k + 1)"

lemma ticket_eq: "int k + 1 < 2 ^ 63 \<Longrightarrow> ticket k = int k + 1"
  by (simp add: ticket_def wrap64_id)

text \<open>What a goroutine has done: all it has numbered was sent, but for the last, which it still holds, or
  with which it ended.\<close>

definition sender_ok :: "string \<Rightarrow> ('o, 'p) sender \<Rightarrow> bool" where
  "sender_ok self sd \<longleftrightarrow>
     map (\<lambda>e. e\<lparr>Sequence := 0\<rparr>) (sd_numbered sd) =
       map (\<lambda>(ep, now). ep\<lparr>Sequence := 0, SentAt := now, Source := self\<rparr>) (sd_taken sd) \<and>
     (case sd_held sd of
        Some ep \<Rightarrow> sd_numbered sd = sd_sent sd @ [ep]
      | None \<Rightarrow> sd_numbered sd = sd_sent sd \<or>
                (sd_returned sd \<and> (\<exists>ep. sd_numbered sd = sd_sent sd @ [ep])))"

text \<open>\<open>kss\<close> are the tickets that each goroutine drew.\<close>

definition tickets_ok :: "('o, 'p) sending \<Rightarrow> nat list list \<Rightarrow> bool" where
  "tickets_ok s kss \<longleftrightarrow>
     map (map Sequence \<circ> sd_numbered) (sn_senders s) = map (map ticket) kss \<and>
     (\<forall>ks \<in> set kss. sorted_wrt (<) ks) \<and>
     mset (concat kss) = mset [0..<length (concat kss)] \<and>
     sn_seq s = wrap64 (int (length (concat kss)))"

definition sending_inv :: "string \<Rightarrow> ('o, 'p) sending \<Rightarrow> bool" where
  "sending_inv self s \<longleftrightarrow> (\<forall>sd \<in> set (sn_senders s). sender_ok self sd) \<and> (\<exists>kss. tickets_ok s kss)"

lemma mset_concat_update:
  "i < length xss \<Longrightarrow> mset (concat (xss[i := xss ! i @ [x]])) = mset (concat xss) + {#x#}"
  by (induction xss arbitrary: i) (auto split: nat.splits)

lemma tickets_ok_same:
  assumes "tickets_ok s kss" and "i < length (sn_senders s)"
    and "sd_numbered sd = sd_numbered (sn_senders s ! i)"
  shows "tickets_ok (s\<lparr>sn_senders := (sn_senders s)[i := sd]\<rparr>) kss"
proof -
  have "map (map Sequence \<circ> sd_numbered) ((sn_senders s)[i := sd]) = map (map Sequence \<circ> sd_numbered) (sn_senders s)"
    using assms(2,3) by (simp add: map_update list_update_same_conv)
  then show ?thesis using assms(1) by (simp add: tickets_ok_def)
qed

lemma tickets_ok_number:
  assumes ok: "tickets_ok s kss" and i: "i < length (sn_senders s)"
    and num: "number_envelope self ep now (sn_seq s) (sn_senders s ! i) = (seq, sd)"
  shows "tickets_ok (s\<lparr>sn_seq := seq, sn_senders := (sn_senders s)[i := sd]\<rparr>)
    (kss[i := kss ! i @ [length (concat kss)]])"
proof -
  define n where "n = length (concat kss)"
  have maps: "map (map Sequence \<circ> sd_numbered) (sn_senders s) = map (map ticket) kss"
    and sorted: "\<forall>ks \<in> set kss. sorted_wrt (<) ks" and ms: "mset (concat kss) = mset [0..<n]"
    and seq0: "sn_seq s = wrap64 (int n)"
    using ok by (simp_all add: tickets_ok_def n_def)
  have len: "length kss = length (sn_senders s)" using maps by (metis length_map)
  then have ik: "i < length kss" using i by simp
  have nth: "map Sequence (sd_numbered (sn_senders s ! i)) = map ticket (kss ! i)"
    using maps i ik by (metis comp_apply nth_map)
  have seq: "seq = ticket n" and sd: "map Sequence (sd_numbered sd) = map Sequence (sd_numbered (sn_senders s ! i)) @ [seq]"
    using num by (auto simp: number_envelope_def Let_def seq0 ticket_def wrap64_Suc)
  have small: "k < n" if "k \<in> set (concat kss)" for k
    using that ms by (metis atLeastLessThan_iff set_mset_mset set_upt)
  have sub: "set (kss ! i) \<subseteq> set (concat kss)" using nth_mem[OF ik] by fastforce
  have "sorted_wrt (<) (kss ! i @ [n])" 
  proof -
    have "x < n" if "x \<in> set (kss ! i)" for x using small sub that by blast
    then show ?thesis using sorted ik by (simp add: sorted_wrt_append)
  qed
  then have "\<forall>ks \<in> set (kss[i := kss ! i @ [n]]). sorted_wrt (<) ks"
    using sorted by (metis insert_iff set_update_subset_insert subset_iff)
  moreover have up: "mset (concat (kss[i := kss ! i @ [n]])) = mset [0..<Suc n]"
    using mset_concat_update[OF ik, of n] ms by simp
  then have "length (concat (kss[i := kss ! i @ [n]])) = Suc n" by (metis diff_zero length_upt size_mset)
  moreover have "map (map Sequence \<circ> sd_numbered) ((sn_senders s)[i := sd]) = map (map ticket) (kss[i := kss ! i @ [n]])"
    using maps by (simp add: map_update sd nth seq)
  moreover have "seq = wrap64 (int (Suc n))" using seq by (simp add: ticket_def add.commute)
  ultimately show ?thesis using up unfolding tickets_ok_def n_def [symmetric] by simp
qed

lemma sending_inv_step:
  assumes inv: "sending_inv self s" and step: "sending_step self s t"
  shows "sending_inv self t"
proof -
  obtain kss where kss: "tickets_ok s kss" using inv by (auto simp: sending_inv_def)
  have ok: "sender_ok self (sn_senders s ! i)" if "i < length (sn_senders s)" for i
    using inv that by (simp add: sending_inv_def)
  have upd: "sending_inv self u" if "sn_senders u = (sn_senders s)[i := sd]" "sender_ok self sd" "tickets_ok u kss'"
    for u i sd kss'
    using inv that unfolding sending_inv_def by (metis in_set_conv_nth length_list_update nth_list_update nth_list_update_neq)
  from step show ?thesis
  proof cases
    case (Start_Sender p)
    have "sender_ok self (start_sender p)" by (simp add: sender_ok_def start_sender_def)
    moreover have "tickets_ok t (kss @ [[]])"
      using kss Start_Sender by (simp add: tickets_ok_def start_sender_def)
    ultimately show ?thesis using inv Start_Sender by (auto simp: sending_inv_def)
  next
    case (Number_Envelope i ep now seq sd)
    have "sd = (sn_senders s ! i)\<lparr>sd_taken := sd_taken (sn_senders s ! i) @ [(ep, now)],
        sd_numbered := sd_numbered (sn_senders s ! i) @ [ep\<lparr>Sequence := seq, SentAt := now, Source := self\<rparr>],
        sd_held := Some (ep\<lparr>Sequence := seq, SentAt := now, Source := self\<rparr>)\<rparr>"
      using Number_Envelope by (auto simp: number_envelope_def Let_def)
    moreover have "sender_ok self (sn_senders s ! i)" by (rule ok[OF Number_Envelope(2)])
    ultimately have "sender_ok self sd"
      unfolding sender_ok_def using Number_Envelope(3,4) by (auto simp del: map_eq_conv)
    then show ?thesis using upd[of t i sd] tickets_ok_number[OF kss Number_Envelope(2,5)] Number_Envelope(1) by simp
  next
    case (Send_Envelope i ep err close_err now)
    define sd where "sd = send_envelope err close_err now ep (sn_senders s ! i)"
    have "sender_ok self sd" using ok[of i] Send_Envelope
      by (auto simp: sd_def send_envelope_def end_sender_def Let_def sender_ok_def)
    moreover have "sd_numbered sd = sd_numbered (sn_senders s ! i)"
      by (simp add: sd_def send_envelope_def end_sender_def Let_def)
    ultimately show ?thesis
      using upd[of t i sd kss] tickets_ok_same[OF kss Send_Envelope(2)] Send_Envelope(1) by (simp add: sd_def)
  next
    case (End_Iterator i close_err)
    define sd where "sd = end_sender close_err (sn_senders s ! i)"
    have "sender_ok self sd" using ok[of i] End_Iterator by (auto simp: sd_def end_sender_def sender_ok_def)
    moreover have "sd_numbered sd = sd_numbered (sn_senders s ! i)" by (simp add: sd_def end_sender_def)
    ultimately show ?thesis
      using upd[of t i sd kss] tickets_ok_same[OF kss End_Iterator(2)] End_Iterator(1) by (simp add: sd_def)
  qed
qed

lemma sending_inv_init: "sending_init s \<Longrightarrow> sending_inv self s"
  by (auto simp: sending_init_def sending_inv_def tickets_ok_def wrap64_def intro!: exI[of _ "[]"])

interpretation sending: step_invariant sending_init "sending_step self" "sending_inv self" for self
  by unfold_locales (rule sending_inv_init, assumption, rule sending_inv_step)

text \<open>C16: in every state that the sending goroutines of the connections of one router can reach, in any
  interleaving, whatever their iterators yield and their connections answer: as long as fewer than
  2 to the power 63 envelopes were numbered, the numbers drawn are 1, 2, and so on up to their
  count, each once over all connections. Each goroutine numbers the envelopes in the order in
  which its iterator yields them, changing them only by the number, the time and the name of this
  router; it has sent all that it has numbered but at most the last one, in this order, so that on
  every connection the numbers strictly increase.\<close>

theorem senders_strictly_increasing:
  assumes "reach sending_init (sending_step self) s"
    and "length (concat (map sd_numbered (sn_senders s))) < 2 ^ 63"
  shows "mset (map Sequence (concat (map sd_numbered (sn_senders s)))) =
      mset (map int [1 ..< Suc (length (concat (map sd_numbered (sn_senders s))))]) \<and>
    (\<forall>sd \<in> set (sn_senders s).
       map (\<lambda>e. e\<lparr>Sequence := 0\<rparr>) (sd_numbered sd) =
         map (\<lambda>(ep, now). ep\<lparr>Sequence := 0, SentAt := now, Source := self\<rparr>) (sd_taken sd) \<and>
       (\<exists>unsent. sd_numbered sd = sd_sent sd @ unsent \<and> length unsent \<le> 1) \<and>
       sorted_wrt (<) (map Sequence (sd_sent sd)))"
proof -
  have inv: "sending_inv self s" using assms(1) by (rule sending.inv_reach)
  then obtain kss where maps: "map (map Sequence \<circ> sd_numbered) (sn_senders s) = map (map ticket) kss"
    and sorted: "\<forall>ks \<in> set kss. sorted_wrt (<) ks"
    and ms: "mset (concat kss) = mset [0..<length (concat kss)]"
    by (auto simp: sending_inv_def tickets_ok_def)
  have all: "map Sequence (concat (map sd_numbered (sn_senders s))) = map ticket (concat kss)"
    using maps by (simp add: map_concat comp_def)
  then have len: "length (concat kss) = length (concat (map sd_numbered (sn_senders s)))" by (metis length_map)
  have num: "ticket k = int (Suc k)" if "k \<in> set (concat kss)" for k
  proof -
    have "k < length (concat kss)" using that ms by (metis atLeastLessThan_iff set_mset_mset set_upt)
    then show ?thesis using assms(2) len by (simp add: ticket_eq)
  qed
  have "mset (map ticket (concat kss)) = mset (map (\<lambda>k. int (Suc k)) (concat kss))"
    using num by (metis map_eq_conv)
  also have "\<dots> = image_mset (\<lambda>k. int (Suc k)) (mset [0..<length (concat kss)])" by (simp only: mset_map ms)
  also have "\<dots> = mset (map int (map Suc [0..<length (concat kss)]))" by (simp add: mset_map comp_def)
  finally have "mset (map Sequence (concat (map sd_numbered (sn_senders s)))) =
      mset (map int [1 ..< Suc (length (concat (map sd_numbered (sn_senders s))))])"
    unfolding all len map_Suc_upt by simp
  moreover have "map (\<lambda>e. e\<lparr>Sequence := 0\<rparr>) (sd_numbered sd) =
         map (\<lambda>(ep, now). ep\<lparr>Sequence := 0, SentAt := now, Source := self\<rparr>) (sd_taken sd) \<and>
       (\<exists>unsent. sd_numbered sd = sd_sent sd @ unsent \<and> length unsent \<le> 1) \<and>
       sorted_wrt (<) (map Sequence (sd_sent sd))" if sd: "sd \<in> set (sn_senders s)" for sd
  proof -
    have ok: "sender_ok self sd" using inv sd by (simp add: sending_inv_def)
    then obtain unsent where un: "sd_numbered sd = sd_sent sd @ unsent" "length unsent \<le> 1"
      by (auto simp: sender_ok_def split: option.splits)
    have "map Sequence (sd_numbered sd) \<in> set (map (map ticket) kss)"
      using sd maps by (metis comp_apply image_eqI list.set_map)
    then obtain ks where ks: "ks \<in> set kss" "map Sequence (sd_numbered sd) = map ticket ks" by auto
    then have eq: "map ticket ks = map (\<lambda>k. int (Suc k)) ks" using num by auto
    have "sorted_wrt (<) (map (\<lambda>k. int (Suc k)) ks)"
      unfolding sorted_wrt_map using sorted ks(1) by simp
    then have "sorted_wrt (<) (map Sequence (sd_numbered sd))" unfolding ks(2) eq .
    then have "sorted_wrt (<) (map Sequence (sd_sent sd))" by (simp add: un(1) sorted_wrt_append)
    with ok un show ?thesis by (auto simp: sender_ok_def)
  qed
  ultimately show ?thesis by blast
qed

definition demo_envelope :: "string Envelope" where
  "demo_envelope = heartbeat_request ''other'' ''now''"

definition demo_peer :: "nat peer" where
  "demo_peer = fresh_peer ''other'' 0 100"

theorem senders_strictly_increasing_witness:
  "\<exists>s :: (nat, string) sending. reach sending_init (sending_step ''me'') s \<and> length (sn_senders s) = 2 \<and>
     mset (map Sequence (concat (map sd_numbered (sn_senders s)))) = {# 1, 2 #}"
proof -
  define e where "e = (\<lambda>n. demo_envelope\<lparr>Sequence := n, SentAt := 5, Source := ''me''\<rparr>)"
  define held :: "int \<Rightarrow> (nat, string) sender" where "held = (\<lambda>n. (start_sender demo_peer)
    \<lparr>sd_taken := [(demo_envelope, 5)], sd_numbered := [e n], sd_held := Some (e n)\<rparr>)"
  define at :: "int \<Rightarrow> (nat, string) sender list \<Rightarrow> (nat, string) sending" where
    "at = (\<lambda>n sds. \<lparr>sn_seq = n, sn_senders = sds\<rparr>)"
  note defs = e_def held_def at_def
  have num: "number_envelope ''me'' demo_envelope 5 n (start_sender demo_peer) = (n + 1, held (n + 1))"
    if "n = 0 \<or> n = 1" for n
    using that by (auto simp: number_envelope_def Let_def start_sender_def defs wrap64_def)
  have "reach sending_init (sending_step ''me'') (at 0 [])" by (rule reach_init) (simp add: sending_init_def at_def)
  moreover have "sending_step ''me'' (at 0 []) (at 0 [start_sender demo_peer])"
    using Start_Sender[of "''me''" "at 0 []" demo_peer] by (simp add: at_def)
  moreover have "sending_step ''me'' (at 0 [start_sender demo_peer]) (at 0 [start_sender demo_peer, start_sender demo_peer])"
    using Start_Sender[of "''me''" "at 0 [start_sender demo_peer]" demo_peer] by (simp add: at_def)
  moreover have "sending_step ''me'' (at 0 [start_sender demo_peer, start_sender demo_peer])
      (at 1 [start_sender demo_peer, held 1])"
    using Number_Envelope[of 1 "at 0 [start_sender demo_peer, start_sender demo_peer]" "''me''" demo_envelope 5 1 "held 1"]
      num[of 0] by (simp add: at_def start_sender_def)
  moreover have "sending_step ''me'' (at 1 [start_sender demo_peer, held 1]) (at 2 [held 2, held 1])"
    using Number_Envelope[of 0 "at 1 [start_sender demo_peer, held 1]" "''me''" demo_envelope 5 2 "held 2"]
      num[of 1] by (simp add: at_def start_sender_def)
  ultimately have r: "reach sending_init (sending_step ''me'') (at 2 [held 2, held 1])" by (meson reach_step)
  have two: "length (concat (map sd_numbered (sn_senders (at 2 [held 2, held 1])))) = 2" by (simp add: defs)
  have "mset (map Sequence (concat (map sd_numbered (sn_senders (at 2 [held 2, held 1]))))) = {# 1, 2 #}"
    using conjunct1[OF senders_strictly_increasing[OF r]] unfolding two by (simp add: upt_rec add_mset_commute)
  with r show ?thesis by (intro exI[of _ "at 2 [held 2, held 1]"]) (simp add: at_def)
qed

text \<open>What the receiving side does not do: the filter compares the target with both the router
  and the whole network and drops an envelope that differs from either, hence all of them; they
  are counted, but nothing reaches the subscribers. \<open>Exec\<close> therefore never returns a response
  (and could not: its loop has no branch that does), only the error of a failed read. A
  heartbeat is never sent either, since the time since the last activity is computed with the
  wrong sign.\<close>

theorem router_never_delivers:
  assumes "self \<noteq> TargetNetwork" and "LastActive (info (mo_peer m)) \<le> now"
  shows "pr_incoming (receive_loop self ce evs st) = pr_incoming st \<and>
    (\<forall>rsp. Exec populate push_back reads ep \<noteq> Some (Inr rsp)) \<and>
    monitor_tick opts (Heartbeat now res) m = m"
proof -
  have "exec_loop mid reads \<noteq> Some (Inr rsp)" for mid rsp
    by (induction mid reads rule: exec_loop.induct) auto
  then have "\<forall>rsp. Exec populate push_back reads ep \<noteq> Some (Inr rsp)"
    by (simp add: Exec_def Let_def split: list.splits)
  moreover have "LastActive (info (mo_peer m)) - now < thirty_seconds"
    using assms(2) by (simp add: thirty_seconds_def)
  then have "monitor_tick opts (Heartbeat now res) m = m"
    by (simp add: monitor_tick_def split: prod.splits)
  ultimately show ?thesis using receive_loop_drops[OF assms(1)] by blast
qed

theorem router_never_delivers_witness:
  "pr_incoming (receive_loop ''me'' [] [Recv (demo_envelope\<lparr>Target := ''me''\<rparr>) 7]
      \<lparr>pr_peer = demo_peer, pr_incoming = [], pr_observed = [], pr_returned = False\<rparr>) = [] \<and>
   Exec (\<lambda>i. i) (\<lambda>_. []) [Inr demo_envelope, Inl peer_EOF] demo_envelope \<noteq> Some (Inr demo_envelope)"
  using router_never_delivers [of "''me''"
      "\<lparr>mo_peer = demo_peer, mo_failed = [], mo_beats = 0, mo_cancelled = False\<rparr>" 100 "[]"
      "[Recv (demo_envelope\<lparr>Target := ''me''\<rparr>) 7]"
      "\<lparr>pr_peer = demo_peer, pr_incoming = [], pr_observed = [], pr_returned = False\<rparr>"
      "\<lambda>i. i" "\<lambda>_. []" "[Inr demo_envelope, Inl peer_EOF]" demo_envelope 0 "(None, demo_envelope)"]
  by (simp add: TargetNetwork_def demo_peer_def fresh_peer_def Let_def)

lemma trim_history_drop: "trim_history h = drop (length h - 360) h"
proof (induction h rule: trim_history.induct)
  case (1 h)
  show ?case
  proof (cases "length h > 360")
    case True
    then have "trim_history h = drop (length (tl h) - 360) (tl h)"
      using 1 by (subst trim_history.simps) simp
    moreover have "Suc (length (tl h) - 360) = length h - 360" using True by simp
    ultimately show ?thesis using True by (metis drop_Suc)
  qed (subst trim_history.simps, simp)
qed

text \<open>The dialer reaches every peer of its pipe: each is stored under the identifier of its connection or
  listed as failed once, in order. No connection is ever closed in favour of a newer one of the
  same peer: the map that would know the older one stays empty.\<close>

lemma createNewPeer_keeps [simp]:
  "rt_peers (createNewPeer store_set zero conn_ID now opts conn r) = rt_peers r"
  "rt_connErrorPeers (createNewPeer store_set zero conn_ID now opts conn r) = rt_connErrorPeers r"
  "rt_peers r = Map.empty \<Longrightarrow> rt_closed (createNewPeer store_set zero conn_ID now opts conn r) = rt_closed r"
  by (auto simp: createNewPeer_def Let_def split: prod.splits option.splits)

theorem dialer_never_closes:
  assumes "rt_peers r = Map.empty"
  shows "rt_closed (dialer_loop store_set zero conn_ID dialer vals r) = rt_closed r \<and>
    rt_peers (dialer_loop store_set zero conn_ID dialer vals r) = Map.empty \<and>
    map dp_opts (rt_connErrorPeers (dialer_loop store_set zero conn_ID dialer vals r)) =
      map dp_opts (rt_connErrorPeers r) @
      map fst (filter (\<lambda>(opts, now). case dialer opts of Inl _ \<Rightarrow> True | Inr _ \<Rightarrow> False) vals)"
  using assms
proof (induction store_set zero conn_ID dialer vals r rule: dialer_loop.induct)
  case (2 store_set zero conn_ID dialer opts now vals r)
  show ?case
  proof (cases "dialer opts")
    case (Inl err)
    then show ?thesis using 2 by (simp add: dialNewPeer_def)
  next
    case (Inr conn)
    then show ?thesis using 2 by (simp add: dialNewPeer_def)
  qed
qed simp

text \<open>The iterator of a stream belongs to no subscriber of the broker: what is published later does not
  reach it, and the other subscribers are as before.\<close>

lemma fresh_subscriber: "(i, es) \<in> set subs \<Longrightarrow> i \<le> foldr (max \<circ> fst) subs (0 :: nat)"
  by (induction subs) (auto simp: le_max_iff_disj)

theorem stream_is_unsubscribed:
  assumes "router_Stream subs = (sub, subs')"
  shows "subs' = subs \<and> map_of (broker_publish e subs') sub = None"
proof -
  have new: "Suc (foldr (max \<circ> fst) subs 0) \<notin> fst ` set subs"
    using fresh_subscriber[of _ _ subs] by (fastforce simp: image_iff)
  then have "filter (\<lambda>(j, es). j \<noteq> Suc (foldr (max \<circ> fst) subs 0)) subs = subs"
    by (auto intro!: filter_True simp: image_iff)
  then have "subs' = subs" "sub = Suc (foldr (max \<circ> fst) subs 0)"
    using assms by (auto simp: router_Stream_def broker_subscribe_def broker_unsubscribe_def Let_def)
  moreover have "fst ` set (broker_publish e subs) = fst ` set subs"
    by (force simp: broker_publish_def)
  ultimately show ?thesis using new by (simp add: map_of_eq_None_iff)
qed

text \<open>A history never has more than 360 entries, and they are the latest; a peer that was just made
  has none, and recording panics.\<close>

theorem history_is_bounded:
  "record_history (Some h) i = Return (Some (drop (Suc (length h) - 360) (h @ [i]))) \<and>
   length (drop (Suc (length h) - 360) (h @ [i])) \<le> 360 \<and>
   record_history None i = Panic nil_deref"
  by (simp add: record_history_def trim_history_drop)

end
