(* ===== verification/Subexec_Command.thy ===== *)
theory Subexec_Command
  imports Jasper
begin

text \<open>
  \<open>subexec/commands.go\<close> and \<open>subexec/util.go\<close>: a command of the configuration, the process it
  starts, and the logging setting. A worker that runs in the program itself is a value of an
  abstract type \<open>'k\<close>, run by a parameter. A nil map of environment variables is \<open>None\<close>.
\<close>

section \<open>Commands\<close>

type_synonym env = "(string \<times> string) list"

record 'k Command =
  cmd_Name :: string
  cmd_GroupName :: string
  cmd_GroupCategory :: string
  cmd_Directory :: string
  cmd_Environment :: "env option"
  cmd_Command :: string
  cmd_Arg :: string
  cmd_Commands :: "string list"
  cmd_OverrideDefault :: bool
  cmd_Notify :: "bool option"
  cmd_Background :: "bool option"
  cmd_SortHint :: int
  cmd_Logs :: string
  cmd_WorkerDefinition :: "'k option"
  cmd_unaliasedName :: string

definition empty_Command :: "'k Command" where
  "empty_Command =
     \<lparr>cmd_Name = [], cmd_GroupName = [], cmd_GroupCategory = [], cmd_Directory = [],
      cmd_Environment = None, cmd_Command = [], cmd_Arg = [], cmd_Commands = [],
      cmd_OverrideDefault = False, cmd_Notify = None, cmd_Background = None, cmd_SortHint = 0,
      cmd_Logs = [], cmd_WorkerDefinition = None, cmd_unaliasedName = []\<rparr>"

definition NamePrime :: "'k Command \<Rightarrow> string" where
  "NamePrime c = Default [] (cmd_unaliasedName c) (cmd_Name c)"

definition FQN :: "'k Command \<Rightarrow> string" where
  "FQN c = DotJoin [cmd_GroupCategory c, cmd_GroupName c, NamePrime c]"

text \<open>\<open>env.Extend(iterator)\<close>: store the pairs one after another.\<close>

definition env_extend :: "env \<Rightarrow> env \<Rightarrow> env" where
  "env_extend e kvs = fold (\<lambda>(k, v) e. upd k v e) kvs e"

text \<open>What the worker of a command does: run its own definition when it has one, otherwise build
  one process with the command and then its further commands. The post hook pushes the error
  of the process to a collector and returns what the collector holds; the collector belongs to
  the worker, not to a run of it, so a run is given the errors collected so far. What is
  logged is left out, except which of the buffered output is copied to the log.\<close>

datatype copied_output = Copy_Nothing | Copy_As_Error | Copy_As_Info

definition LoggingErrorsOnly :: string where "LoggingErrorsOnly = ''errors-only''"
definition LoggingSuppress :: string where "LoggingSuppress = ''none''"
definition LoggingFull :: string where "LoggingFull = ''full''"

definition Logging_Default :: "string \<Rightarrow> string" where
  "Logging_Default ll = LoggingErrorsOnly"

definition Logging_Validate :: "string \<Rightarrow> errors" where
  "Logging_Validate ll =
     (if ll = [] then []
      else if ll \<in> {LoggingErrorsOnly, LoggingSuppress, LoggingFull} then []
      else [Errf ''%q is not a valid Logging configuration'' [S ll]])"

definition Logging_Full :: "string \<Rightarrow> bool" where "Logging_Full ll \<longleftrightarrow> ll = LoggingFull"
definition Logging_ErrorsOnly :: "string \<Rightarrow> bool" where "Logging_ErrorsOnly ll \<longleftrightarrow> ll = LoggingErrorsOnly"
definition Logging_Suppress :: "string \<Rightarrow> bool" where "Logging_Suppress ll \<longleftrightarrow> ll = LoggingSuppress"

definition worker_cmd :: "string \<Rightarrow> 'k Command \<Rightarrow> jcommand" where
  "worker_cmd hn c = CreateCommand
     \<lparr>jc_id := ''CMD('' @ cmd_Name c @ '').HOST('' @ hn @ '').NUM('' @
        show_nat (1 + length (cmd_Commands c)) @ '')'',
      jc_dir := cmd_Directory c,
      jc_env := deref_z [] (cmd_Environment c) @ [(''SARDIS_LOG_QUIET_STDOUT'', ''true'')],
      jc_background := deref_z False (cmd_Background c),
      jc_script := cmd_Command c # cmd_Commands c\<rparr>"

definition post_hook :: "'k Command \<Rightarrow> errors \<Rightarrow> errors \<Rightarrow> errors \<times> copied_output" where
  "post_hook c ec err =
     (let ec = ec @ err
      in if ec \<noteq> [] then (ec, Copy_As_Error)
         else if Logging_Full (cmd_Logs c) then ([], Copy_As_Info)
         else ([], Copy_Nothing))"

definition Command_Worker ::
    "('k \<Rightarrow> 'w \<Rightarrow> errors \<times> 'w) \<Rightarrow> 'w run \<Rightarrow> string \<Rightarrow> 'k Command \<Rightarrow> errors \<Rightarrow> 'w \<Rightarrow>
     errors \<times> errors \<times> 'w" where
  "Command_Worker run_worker run hn c ec w =
     (case cmd_WorkerDefinition c of
        Some k \<Rightarrow> (case run_worker k w of (err, w') \<Rightarrow> (err, ec, w'))
      | None \<Rightarrow> (case run (worker_cmd hn c) w of (err, w') \<Rightarrow> (fst (post_hook c ec err), ec @ err, w')))"

text \<open>One worker run several times, one run after the other: what the runs return, and what the
  processes they started returned.\<close>

fun worker_runs ::
    "nat \<Rightarrow> ('k \<Rightarrow> 'w \<Rightarrow> errors \<times> 'w) \<Rightarrow> 'w run \<Rightarrow> string \<Rightarrow> 'k Command \<Rightarrow> errors \<Rightarrow> 'w \<Rightarrow> errors list" where
  "worker_runs 0 run_worker run hn c ec w = []"
| "worker_runs (Suc n) run_worker run hn c ec w =
     (case Command_Worker run_worker run hn c ec w of
        (err, ec', w') \<Rightarrow> err # worker_runs n run_worker run hn c ec' w')"

fun process_runs :: "nat \<Rightarrow> 'w run \<Rightarrow> jcommand \<Rightarrow> 'w \<Rightarrow> errors list" where
  "process_runs 0 run cmd w = []"
| "process_runs (Suc n) run cmd w = (case run cmd w of (err, w') \<Rightarrow> err # process_runs n run cmd w')"

section \<open>util.go\<close>

text \<open>\<open>CommandPool\<close> converts the commands to workers and runs them in the library's pool, which is
  a parameter; the options of the caller are not passed on.\<close>

definition CommandPool ::
    "(('w \<Rightarrow> errors \<times> 'w) list \<Rightarrow> 'o list \<Rightarrow> 'w \<Rightarrow> errors \<times> 'w) \<Rightarrow>
     ('k Command \<Rightarrow> 'w \<Rightarrow> errors \<times> 'w) \<Rightarrow> 'k Command list \<Rightarrow> 'o list \<Rightarrow> 'w \<Rightarrow> errors \<times> 'w" where
  "CommandPool run_with_pool worker st opts w = run_with_pool (map worker st) [] w"

subsection \<open>Facts\<close>

lemma NamePrime_simps [simp]:
  "cmd_unaliasedName c = [] \<Longrightarrow> NamePrime c = cmd_Name c"
  "NamePrime (c\<lparr>cmd_Directory := d\<rparr>) = NamePrime c"
  by (simp_all add: NamePrime_def)

lemma map_of_env_extend: "map_of (env_extend e kvs) = map_of e ++ map_of (rev kvs)"
proof -
  have "map_of (fold (\<lambda>(k, v) e. upd k v e) kvs e) = map_of e ++ map_of (rev kvs)"
    by (induction kvs arbitrary: e) (auto simp: map_add_def fun_eq_iff split: option.splits)
  then show ?thesis by (simp add: env_extend_def)
qed

lemma distinct_env_extend:
  "distinct (map fst e) \<Longrightarrow> distinct (map fst (env_extend e kvs))"
  unfolding env_extend_def by (induction kvs arbitrary: e) auto

lemma Logging_Validate_iff:
  "Logging_Validate ll = [] \<longleftrightarrow> ll = [] \<or> Logging_Full ll \<or> Logging_ErrorsOnly ll \<or> Logging_Suppress ll"
  by (auto simp: Logging_Validate_def Logging_Full_def Logging_ErrorsOnly_def Logging_Suppress_def)

section \<open>Running a worker more than once\<close>

lemma fst_post_hook [simp]: "fst (post_hook c ec err) = ec @ err"
  by (simp add: post_hook_def Let_def)

lemma length_process_runs [simp]: "length (process_runs n run cmd w) = n"
  by (induction n arbitrary: w) (simp_all split: prod.splits)

lemma worker_runs_collect:
  assumes "cmd_WorkerDefinition c = None"
  shows "worker_runs n run_worker run hn c ec w =
    map (\<lambda>i. ec @ concat (take (Suc i) (process_runs n run (worker_cmd hn c) w))) [0..<n]"
proof (induction n arbitrary: ec w)
  case (Suc n)
  obtain err w' where r: "run (worker_cmd hn c) w = (err, w')" by fastforce
  show ?case
    by (simp add: Command_Worker_def assms r Suc.IH upt_conv_Cons map_Suc_upt [symmetric] del: upt_Suc)
qed simp

text \<open>The worker of a command returns, on each run, the errors of its process on this and on
  every earlier run: the first run is faithful, and once a run has failed no later run of the
  same worker succeeds, whatever its process does.\<close>

theorem worker_failures_stick:
  assumes "cmd_WorkerDefinition c = None" and "i < n"
  shows "worker_runs n run_worker run hn c [] w ! i =
      concat (take (Suc i) (process_runs n run (worker_cmd hn c) w)) \<and>
    (worker_runs n run_worker run hn c [] w ! i = [] \<longleftrightarrow>
      (\<forall>j \<le> i. process_runs n run (worker_cmd hn c) w ! j = []))"
proof -
  let ?ps = "process_runs n run (worker_cmd hn c) w"
  have r: "worker_runs n run_worker run hn c [] w ! i = concat (take (Suc i) ?ps)"
    using assms by (simp add: worker_runs_collect)
  have "concat (take (Suc i) ?ps) = [] \<longleftrightarrow> (\<forall>j < Suc i. ?ps ! j = [])"
    using \<open>i < n\<close> by (simp add: all_set_conv_all_nth min_absorb2 Suc_leI)
  then show ?thesis by (simp add: r less_Suc_eq_le)
qed

definition flaky_run :: "nat run" where
  "flaky_run cmd w = (if w = 0 then [Errf ''exit status 1'' []] else [], w + 1)"

lemma worker_failures_stick_witness:
  "worker_runs 3 (\<lambda>k w. ([], w)) flaky_run ''host'' (empty_Command :: unit Command) [] 0 ! 2 =
     [Errf ''exit status 1'' []]"
  using conjunct1 [OF worker_failures_stick [of "empty_Command :: unit Command" 2 3
      "\<lambda>k w. ([], w)" flaky_run "''host''" 0]]
  by (simp add: empty_Command_def flaky_run_def eval_nat_numeral)

end
