(* ===== verification/Subexec_Index.thy ===== *)
theory Subexec_Index
  imports Subexec_Command
begin

text \<open>
  \<open>subexec/index.go\<close>: the tree of commands by the words of their dotted names. A node's children
  are a map whose walk order is the order of the association list; a pointer to a node is the
  node, since every node of a tree has one parent.
\<close>

section \<open>Nodes\<close>

datatype 'k Node = Node (word: string) (command: "'k Command option")
    (children: "(string \<times> 'k Node) list")

definition NewNode :: "'k Node" where "NewNode = Node [] None []"

definition child :: "string \<Rightarrow> 'k Node \<Rightarrow> 'k Node option" where
  "child k n = map_of (children n) k"

fun set_child :: "string \<Rightarrow> 'k Node \<Rightarrow> 'k Node \<Rightarrow> 'k Node" where
  "set_child k c (Node w cmd ch) = Node w cmd (upd k c ch)"

fun set_word :: "string \<Rightarrow> 'k Node \<Rightarrow> 'k Node" where
  "set_word w (Node _ cmd ch) = Node w cmd ch"

fun set_command :: "'k Command \<Rightarrow> 'k Node \<Rightarrow> 'k Node" where
  "set_command c (Node w _ ch) = Node w (Some c) ch"

definition Push :: "'k Node \<Rightarrow> 'k Node option \<Rightarrow> bool \<times> 'k Node" where
  "Push n rhn = (case rhn of None \<Rightarrow> (False, n) | Some r \<Rightarrow> (True, set_child (word r) r n))"

definition Extend :: "'k Node \<Rightarrow> 'k Node option list \<Rightarrow> 'k Node" where
  "Extend n ns = fold (\<lambda>nn n. snd (Push n nn)) ns n"

definition NewTree :: "'k Node option list \<Rightarrow> 'k Node" where
  "NewTree nodes = fold (\<lambda>node n. snd (Push n node)) nodes NewNode"

definition KeysAtLevel :: "'k Node \<Rightarrow> string list" where
  "KeysAtLevel n = SparseString (map fst (children n))"

definition Node_Len :: "'k Node \<Rightarrow> nat" where "Node_Len n = length (children n)"
definition Children :: "'k Node \<Rightarrow> 'k Node list" where "Children n = map snd (children n)"
definition NarrowTo :: "'k Node \<Rightarrow> string \<Rightarrow> 'k Node option" where "NarrowTo n key = child key n"
definition HasCommand :: "'k Node \<Rightarrow> bool" where "HasCommand n \<longleftrightarrow> command n \<noteq> None"
definition HasChidren :: "'k Node \<Rightarrow> bool" where "HasChidren n \<longleftrightarrow> 0 < Node_Len n"
definition Node_ID :: "'k Node \<Rightarrow> string" where "Node_ID n = word n"

text \<open>The inner loop of \<open>add\<close>: walk down the parts, making the missing nodes, and store the command
  at the last.\<close>

fun add_parts :: "string list \<Rightarrow> 'k Command \<Rightarrow> 'k Node \<Rightarrow> 'k Node" where
  "add_parts [] cmd prev = prev"
| "add_parts (elem # rest) cmd prev =
     (let next = (case child elem prev of
                    Some c \<Rightarrow> c
                  | None \<Rightarrow> set_word elem NewNode);
          next = (if rest = [] then set_command cmd next else next)
      in set_child elem (add_parts rest cmd next) prev)"

definition Node_add :: "'k Command \<Rightarrow> 'k Node \<Rightarrow> 'k Node" where
  "Node_add cmd n = add_parts (SparseString (DotSplit (NamePrime cmd))) cmd n"

definition NewCommandTree :: "'k Command list \<Rightarrow> 'k Node" where
  "NewCommandTree commands = fold Node_add commands NewNode"

fun itersearch :: "string list \<Rightarrow> 'k Node \<Rightarrow> 'k Node option" where
  "itersearch [] n = Some n"
| "itersearch (part # parts) n =
     (case child part n of Some c \<Rightarrow> itersearch parts c | None \<Rightarrow> None)"

definition Find :: "'k Node \<Rightarrow> string \<Rightarrow> 'k Node option" where
  "Find n i = itersearch (SparseString (DotSplit i)) n"

definition FindCommand :: "'k Node \<Rightarrow> string \<Rightarrow> 'k Command option" where
  "FindCommand n i = (case Find n i of None \<Rightarrow> None | Some found \<Rightarrow> command found)"

text \<open>\<open>Resolve\<close> is a breadth-first iterator. Its queue is made when \<open>Resolve\<close> is called, not when
  the iteration starts, so that the queue that is left is part of the iterator's state.\<close>

fun node_count :: "'k Node \<Rightarrow> nat" where
  "node_count (Node w c ch) = Suc (sum_list (map (\<lambda>(k, n). node_count n) ch))"

function resolve_run ::
    "('k Command \<Rightarrow> 's \<Rightarrow> bool \<times> 's) \<Rightarrow> 'k Node list \<Rightarrow> 's \<Rightarrow> 's \<times> 'k Node list" where
  "resolve_run yield [] s = (s, [])"
| "resolve_run yield (Node w c ch # queue) s =
     (let (go, s') = (case c of None \<Rightarrow> (True, s) | Some cmd \<Rightarrow> yield cmd s)
      in if \<not> go then (s', queue)
         else resolve_run yield (queue @ map snd ch) s')"
  by pat_completeness auto
termination
  by (relation "measure (\<lambda>(y, q, s). sum_list (map node_count q))")
     (auto simp: comp_def case_prod_unfold)

definition collect_all :: "'k Command \<Rightarrow> 'k Command list \<Rightarrow> bool \<times> 'k Command list" where
  "collect_all c acc = (True, acc @ [c])"

definition Resolve :: "'k Node \<Rightarrow> 'k Command list" where
  "Resolve n = fst (resolve_run collect_all [n] [])"

section \<open>The index contract\<close>

text \<open>An index of commands by path: the empty one finds nothing, and a stored command replaces
  what its path held, leaving the other paths alone.\<close>

locale command_index =
  fixes empty :: 't
    and add :: "'c \<Rightarrow> 't \<Rightarrow> 't"
    and lookup :: "string list \<Rightarrow> 't \<Rightarrow> 'c option"
    and path :: "'c \<Rightarrow> string list"
  assumes lookup_empty: "lookup p empty = None"
    and lookup_add: "lookup p (add c t) = (if p = path c \<and> p \<noteq> [] then Some c else lookup p t)"
begin

lemma lookup_fold:
  "lookup p (fold add cs t) =
     (case find (\<lambda>c. path c = p \<and> p \<noteq> []) (rev cs) of Some c \<Rightarrow> Some c | None \<Rightarrow> lookup p t)"
  by (induction cs rule: rev_induct) (auto simp: lookup_add)

lemma lookup_built:
  "p \<noteq> [] \<Longrightarrow> lookup p (fold add cs empty) = find (\<lambda>c. path c = p) (rev cs)"
  by (simp add: lookup_fold lookup_empty split: option.splits)

end

definition cmd_path :: "'k Command \<Rightarrow> string list" where
  "cmd_path c = SparseString (DotSplit (NamePrime c))"

definition find_path :: "string list \<Rightarrow> 'k Node \<Rightarrow> 'k Command option" where
  "find_path p n = (case itersearch p n of None \<Rightarrow> None | Some f \<Rightarrow> command f)"

lemma node_selectors [simp]:
  "children (set_command cmd n) = children n" "children (set_word w n) = children n"
  "command (set_word w n) = command n" "command (set_child k c n) = command n"
  "command (set_command cmd n) = Some cmd"
  by (cases n; simp)+

lemma child_simps [simp]:
  "child k (set_child k' c n) = (if k = k' then Some c else child k n)"
  "child k (set_command cmd n) = child k n"
  "child k (set_word w n) = child k n"
  "child k NewNode = None"
  by (cases n; simp add: child_def NewNode_def)+

lemma find_path_Nil [simp]: "find_path [] n = command n"
  by (simp add: find_path_def)

lemma find_path_Cons: "find_path (k # p) n = (case child k n of None \<Rightarrow> None | Some c \<Rightarrow> find_path p c)"
  by (simp add: find_path_def split: option.splits)

lemma find_path_set_command:
  "find_path p (set_command c n) = (if p = [] then Some c else find_path p n)"
  by (cases p) (simp_all add: find_path_Cons)

lemma find_path_set_word [simp]: "find_path p (set_word w n) = find_path p n"
  by (cases p) (simp_all add: find_path_Cons)

lemma find_path_NewNode [simp]: "find_path p NewNode = None"
  by (cases p) (simp_all add: find_path_Cons, simp add: NewNode_def)

lemma find_path_add_parts:
  "find_path p (add_parts ps c n) = (if p = ps \<and> p \<noteq> [] then Some c else find_path p n)"
proof (induction ps c n arbitrary: p rule: add_parts.induct)
  case (2 elem rest cmd prev)
  show ?case
  proof (cases p)
    case (Cons k q)
    show ?thesis
    proof (cases "k = elem")
      case True
      with Cons 2[OF refl refl, of q] show ?thesis
        by (cases rest) (auto simp: find_path_Cons find_path_set_command Let_def split: option.splits)
    next
      case False
      with Cons show ?thesis by (simp add: find_path_Cons Let_def)
    qed
  qed (simp add: Let_def)
qed simp

interpretation tree_index: command_index NewNode Node_add find_path cmd_path
  by unfold_locales (simp_all add: Node_add_def cmd_path_def find_path_add_parts)

lemma FindCommand_path: "FindCommand n i = find_path (SparseString (DotSplit i)) n"
  by (simp add: FindCommand_def Find_def find_path_def)

text \<open>C8: looking a name up in a tree built from commands finds the last of them whose name has
  the same words, whatever empty words the two names hold between their dots, and nothing when
  there is none; a name without words finds nothing.\<close>

theorem FindCommand_last_added:
  "FindCommand (NewCommandTree cmds) i =
     (if SparseString (DotSplit i) = [] then None
      else find (\<lambda>c. SparseString (DotSplit (NamePrime c)) = SparseString (DotSplit i)) (rev cmds))"
proof (cases "SparseString (DotSplit i) = []")
  case True
  have "command (fold Node_add cs n) = command n" for cs and n :: "'a Node"
  proof -
    have "find (\<lambda>c :: 'a Command. False) (rev cs) = None" by (simp add: find_None_iff)
    with tree_index.lookup_fold[of "[]" cs n] show ?thesis by simp
  qed
  with True show ?thesis
    by (simp add: FindCommand_path NewCommandTree_def NewNode_def)
next
  case False
  then show ?thesis
    using tree_index.lookup_built[OF False, of cmds]
    by (simp only: FindCommand_path NewCommandTree_def cmd_path_def if_False)
qed

section \<open>Resolve\<close>

lemma node_induct [case_names Node]:
  assumes "\<And>w c ch. (\<And>k n. (k, n) \<in> set ch \<Longrightarrow> P n) \<Longrightarrow> P (Node w c ch)"
  shows "P n"
  by (induction n rule: Node.induct) (auto intro!: assms)

fun node_commands :: "'k Node \<Rightarrow> 'k Command list" where
  "node_commands (Node w c ch) =
     (case c of None \<Rightarrow> [] | Some cmd \<Rightarrow> [cmd]) @ concat (map (\<lambda>(k, n). node_commands n) ch)"

text \<open>The commands stand at the nodes their names lead to, and no node has two children of one
  word.\<close>

fun well_placed :: "string list \<Rightarrow> 'k Node \<Rightarrow> bool" where
  "well_placed pre (Node w c ch) \<longleftrightarrow>
     (case c of None \<Rightarrow> True | Some cmd \<Rightarrow> cmd_path cmd = pre) \<and> distinct (map fst ch) \<and>
     list_all (\<lambda>(k, n). well_placed (pre @ [k]) n) ch"

lemma resolve_run_all:
  "\<exists>out. resolve_run collect_all q acc = (acc @ out, []) \<and>
     mset out = mset (concat (map node_commands q))"
proof (induction "collect_all :: 'a Command \<Rightarrow> _" q acc rule: resolve_run.induct)
  case (2 w c ch queue acc)
  define acc' where "acc' = (case c of None \<Rightarrow> acc | Some cmd \<Rightarrow> acc @ [cmd])"
  have step: "(case c of None \<Rightarrow> (True, acc) | Some cmd \<Rightarrow> collect_all cmd acc) = (True, acc')"
    by (simp add: acc'_def collect_all_def split: option.splits)
  from 2[OF step[symmetric] refl] obtain out where
    out: "resolve_run collect_all (queue @ map snd ch) acc' = (acc' @ out, [])"
      "mset out = mset (concat (map node_commands (queue @ map snd ch)))" by auto
  have "resolve_run collect_all (Node w c ch # queue) acc = (acc' @ out, [])"
    using out(1) by (simp add: step)
  moreover have eq: "map (\<lambda>(k, n). node_commands n) ch = map node_commands (map snd ch)" by auto
  have "mset (concat (map node_commands (Node w c ch # queue))) =
      mset (case c of None \<Rightarrow> [] | Some cmd \<Rightarrow> [cmd]) + mset out"
    using out(2) by (simp only: node_commands.simps list.map concat.simps eq mset_append map_append
        concat_append ac_simps)
  ultimately show ?case by (cases c) (auto simp: acc'_def)
qed simp

lemma node_paths:
  "well_placed pre n \<Longrightarrow> c \<in> set (node_commands n) \<Longrightarrow> \<exists>s. cmd_path c = pre @ s \<and> find_path s n = Some c"
proof (induction n arbitrary: pre rule: node_induct)
  case (Node w cmd ch)
  show ?case
  proof (cases "cmd = Some c")
    case True
    with Node.prems show ?thesis by (intro exI[of _ "[]"]) simp
  next
    case False
    with Node.prems(2) obtain k n where kn: "(k, n) \<in> set ch" "c \<in> set (node_commands n)"
      by (auto split: option.splits)
    with Node.prems(1) have "well_placed (pre @ [k]) n" by (auto simp: list_all_iff)
    with Node.IH[OF kn(1)] kn(2) obtain s where s: "cmd_path c = pre @ k # s" "find_path s n = Some c"
      by fastforce
    from Node.prems(1) kn(1) have "map_of ch k = Some n" by simp
    with s show ?thesis by (intro exI[of _ "k # s"]) (simp add: find_path_Cons child_def)
  qed
qed

lemma node_commands_find: "find_path p n = Some c \<Longrightarrow> c \<in> set (node_commands n)"
proof (induction p arbitrary: n)
  case Nil
  then show ?case by (cases n) simp
next
  case (Cons k p)
  then obtain m where m: "child k n = Some m" "find_path p m = Some c"
    by (auto simp: find_path_Cons split: option.splits)
  then have "(k, m) \<in> set (children n)" by (simp add: child_def map_of_SomeD)
  with Cons.IH[OF m(2)] show ?case by (cases n) (force split: option.splits)
qed

lemma distinct_concat_keys:
  assumes "distinct (map fst ch)"
    and "\<And>k n. (k, n) \<in> set ch \<Longrightarrow> distinct (map f (g n))"
    and "\<And>k n x. (k, n) \<in> set ch \<Longrightarrow> x \<in> set (g n) \<Longrightarrow> key (f x) = Some k"
  shows "distinct (map f (concat (map (\<lambda>(k, n). g n) ch)))"
  using assms
proof (induction ch)
  case (Cons kn ch)
  obtain k n where kn: "kn = (k, n)" by fastforce
  have "distinct (map f (concat (map (\<lambda>(k, n). g n) ch)))"
  proof (rule Cons.IH)
    show "distinct (map fst ch)" using Cons.prems(1) by simp
    show "distinct (map f (g n))" if "(k, n) \<in> set ch" for k n using Cons.prems(2)[of k n] that by simp
    show "key (f x) = Some k" if "(k, n) \<in> set ch" "x \<in> set (g n)" for k n x
      using Cons.prems(3)[of k n x] that by simp
  qed
  moreover have "distinct (map f (g n))" using Cons.prems(2)[of k n] by (simp add: kn)
  moreover have "f x \<noteq> f y" if "x \<in> set (g n)" and "(k', n') \<in> set ch" and "y \<in> set (g n')" for x y k' n'
  proof -
    have "key (f x) = Some k" "key (f y) = Some k'"
      using Cons.prems(3)[of k n x] Cons.prems(3)[of k' n' y] that by (auto simp: kn)
    moreover have "k' \<noteq> k" using Cons.prems(1) that(2) by (force simp: kn)
    ultimately show ?thesis by auto
  qed
  ultimately show ?case unfolding kn by (fastforce simp: disjoint_iff)
qed simp

lemma node_commands_distinct: "well_placed pre n \<Longrightarrow> distinct (map cmd_path (node_commands n))"
proof (induction n arbitrary: pre rule: node_induct)
  case (Node w c ch)
  have below: "\<exists>s. cmd_path x = pre @ k # s" if "(k, n) \<in> set ch" "x \<in> set (node_commands n)" for k n x
    using node_paths[of "pre @ [k]" n x] that Node.prems by (auto simp: list_all_iff)
  have "distinct (map cmd_path (concat (map (\<lambda>(k, n). node_commands n) ch)))"
  proof (rule distinct_concat_keys[where key = "\<lambda>p. Some (p ! length pre)"])
    show "distinct (map fst ch)" using Node.prems by simp
    show "distinct (map cmd_path (node_commands n))" if "(k, n) \<in> set ch" for k n
      using Node.IH[OF that, of "pre @ [k]"] that Node.prems by (auto simp: list_all_iff)
    show "Some (cmd_path x ! length pre) = Some k" if "(k, n) \<in> set ch" "x \<in> set (node_commands n)" for k n x
      using below[OF that] by auto
  qed
  moreover have "pre \<notin> set (map cmd_path (concat (map (\<lambda>(k, n). node_commands n) ch)))"
    using below by fastforce
  ultimately show ?case using Node.prems by (cases c) auto
qed

lemma set_upd_subset: "x \<in> set (upd k v ps) \<Longrightarrow> x = (k, v) \<or> x \<in> set ps"
  by (induction k v ps rule: upd.induct) (auto split: if_splits)

lemma well_placed_set_child:
  "well_placed pre n \<Longrightarrow> well_placed (pre @ [k]) c \<Longrightarrow> well_placed pre (set_child k c n)"
  by (cases n) (auto simp: list_all_iff dest!: set_upd_subset)

lemma well_placed_child: "well_placed pre n \<Longrightarrow> child k n = Some c \<Longrightarrow> well_placed (pre @ [k]) c"
  by (cases n) (auto simp: child_def list_all_iff dest!: map_of_SomeD)

lemma well_placed_set_command:
  "well_placed pre n \<Longrightarrow> cmd_path cmd = pre \<Longrightarrow> well_placed pre (set_command cmd n)"
  by (cases n) simp

lemma well_placed_new [simp]: "well_placed pre NewNode" "well_placed pre (set_word w NewNode)"
  by (simp_all add: NewNode_def)

lemma well_placed_add_parts:
  "well_placed pre n \<Longrightarrow> cmd_path cmd = pre @ parts \<Longrightarrow> well_placed pre (add_parts parts cmd n)"
proof (induction parts cmd n arbitrary: pre rule: add_parts.induct)
  case (2 elem rest cmd prev)
  define nxt where "nxt = (case child elem prev of Some c \<Rightarrow> c | None \<Rightarrow> set_word elem NewNode)"
  have w: "well_placed (pre @ [elem]) nxt"
    using 2(2) by (auto simp: nxt_def well_placed_child split: option.splits)
  then have "well_placed (pre @ [elem]) (if rest = [] then set_command cmd nxt else nxt)"
    using 2(3) by (simp add: well_placed_set_command)
  then have "well_placed (pre @ [elem])
      (add_parts rest cmd (if rest = [] then set_command cmd nxt else nxt))"
    using 2(3) by (intro 2(1)[OF nxt_def refl]) simp_all
  then show ?case
    using 2(2) by (simp add: nxt_def [symmetric] well_placed_set_child)
qed simp

lemma well_placed_tree: "well_placed [] (NewCommandTree cmds)"
proof -
  have "well_placed [] n \<Longrightarrow> well_placed [] (fold Node_add cmds n)" for n :: "'a Node"
  proof (induction cmds arbitrary: n)
    case (Cons c cmds)
    have "well_placed [] (Node_add c n)"
      unfolding Node_add_def by (rule well_placed_add_parts[OF Cons.prems]) (simp add: cmd_path_def)
    then show ?case using Cons.IH by simp
  qed simp
  then show ?thesis by (simp add: NewCommandTree_def)
qed

text \<open>C9: walking a command tree yields every command that can be found in it exactly once: one
  command per distinct list of words. The iterator is spent after one full walk: since its queue
  is made outside of the iteration, a second walk yields nothing.\<close>

theorem Resolve_each_command_once:
  "distinct (map cmd_path (Resolve (NewCommandTree cmds))) \<and>
   (\<forall>c. c \<in> set (Resolve (NewCommandTree cmds)) \<longleftrightarrow>
        find_path (cmd_path c) (NewCommandTree cmds) = Some c) \<and>
   snd (resolve_run collect_all [NewCommandTree cmds] []) = []"
proof -
  define t where "t = NewCommandTree cmds"
  have wp: "well_placed [] t" by (simp add: t_def well_placed_tree)
  obtain out where out: "resolve_run collect_all [t] [] = (out, [])" "mset out = mset (node_commands t)"
    using resolve_run_all[of "[t]" "[]"] by auto
  have "mset (map cmd_path out) = mset (map cmd_path (node_commands t))" using out(2) by simp
  then have "distinct (map cmd_path out)"
    using node_commands_distinct[OF wp] by (metis mset_eq_imp_distinct_iff)
  moreover have "c \<in> set out \<longleftrightarrow> find_path (cmd_path c) t = Some c" for c
  proof -
    have "c \<in> set out \<longleftrightarrow> c \<in> set (node_commands t)" using out(2) by (metis mset_eq_setD)
    then show ?thesis using node_paths[OF wp, of c] node_commands_find[of "cmd_path c" t c] by auto
  qed
  ultimately show ?thesis using out(1) by (simp add: Resolve_def t_def)
qed

end
