(* ===== verification/Subexec_Group.thy ===== *)
theory Subexec_Group
  imports Subexec_Command
begin

text \<open>
  \<open>subexec/group.go\<close>: groups of commands, their validation (which fills in what a command takes
  from its group and expands the templates), merging, and the selection of commands by name.
  \<open>expand\<close> is the expansion of the home directory by the process library, \<open>home\<close> the home
  directory. Slices are values: a group and its copies share no storage here.
\<close>

section \<open>Groups\<close>

record 'k Group =
  g_Category :: string
  g_Name :: string
  g_Aliases :: "string list"
  g_Directory :: string
  g_Environment :: "env option"
  g_CmdNamePrefix :: string
  g_Command :: string
  g_Notify :: "bool option"
  g_Background :: "bool option"
  g_Host :: "string option"
  g_Commands :: "'k Command list"
  g_MenuSelections :: "string list"
  g_SortHint :: int
  g_Synthetic :: bool

definition empty_Group :: "'k Group" where
  "empty_Group =
     \<lparr>g_Category = [], g_Name = [], g_Aliases = [], g_Directory = [], g_Environment = None,
      g_CmdNamePrefix = [], g_Command = [], g_Notify = None, g_Background = None, g_Host = None,
      g_Commands = [], g_MenuSelections = [], g_SortHint = 0, g_Synthetic = False\<rparr>"

definition ResolvedCategory :: "'k Group \<Rightarrow> string" where
  "ResolvedCategory cg = (if g_Category cg \<noteq> [] then g_Category cg else g_Name cg)"

definition IDPath :: "'k Group \<Rightarrow> string list" where
  "IDPath cg = [g_Category cg, g_Name cg, g_CmdNamePrefix cg]"

definition Group_ID :: "'k Group \<Rightarrow> string" where
  "Group_ID cg = DotJoinParts (IDPath cg)"

definition NamesAtIndex :: "'k Group \<Rightarrow> int \<Rightarrow> string list outcome" where
  "NamesAtIndex cg idx =
     (if 0 \<le> idx \<and> idx < int (length (g_Commands cg))
      then Return (map (\<lambda>grp. DotJoin [g_Category cg, grp, cmd_Name (g_Commands cg ! nat idx)])
                     (g_Name cg # g_Aliases cg))
      else Panic (Errf ''command out of bounds'' [S (g_Name cg)]))"

text \<open>\<open>set_add\<close> is \<open>Add\<close> of the library's ordered set, kept as the list of its members in order of
  insertion: whether the member was there, and the set with it.\<close>

type_synonym set_add = "string \<Rightarrow> string list \<Rightarrow> bool \<times> string list"

definition Selectors :: "set_add \<Rightarrow> 'k Group \<Rightarrow> string list" where
  "Selectors set_add cg = fold (\<lambda>cmd set. snd (set_add (cmd_Name cmd) set)) (g_Commands cg) []"

section \<open>Validate\<close>

definition rename_group :: "'k Group \<Rightarrow> 'k Group" where
  "rename_group cg =
     (let cg = (if g_Category cg = [] \<and> g_Name cg \<noteq> [] \<and> g_CmdNamePrefix cg \<noteq> []
                then cg\<lparr>g_Category := g_Name cg, g_Name := g_CmdNamePrefix cg, g_CmdNamePrefix := []\<rparr>
                else cg)
      in if g_Name cg = [] \<and> g_CmdNamePrefix cg \<noteq> []
         then cg\<lparr>g_Name := g_CmdNamePrefix cg, g_CmdNamePrefix := []\<rparr> else cg)"

definition merge_env :: "env option \<Rightarrow> env option \<Rightarrow> env option" where
  "merge_env ge ce =
     (if ge \<noteq> None \<or> ce \<noteq> None
      then Some (env_extend (env_extend [] (deref_z [] ge)) (deref_z [] ce)) else ce)"

definition has_template :: "string \<Rightarrow> bool" where
  "has_template s \<longleftrightarrow> str_contains s ''{{'' \<and> str_contains s ''}}''"

text \<open>The command line that a command without override gets.\<close>

definition default_command :: "string \<Rightarrow> string \<Rightarrow> string \<Rightarrow> string" where
  "default_command group_cmd cmd name =
     (let c = Default [] cmd group_cmd;
          c = Default [] c name
      in Default [] (replace_all group_cmd ''{{command}}'' c) c)"

definition expand_command :: "'k Group \<Rightarrow> string \<Rightarrow> string \<Rightarrow> string \<Rightarrow> string" where
  "expand_command cg name arg c =
     (if has_template c then
        (let c = replace_all c ''{{name}}'' name;
             c = replace_all c ''{{group.category}}'' (g_Category cg);
             c = replace_all c ''{{group.name}}'' (g_Name cg);
             c = replace_all c ''{{host}}'' (deref_z [] (g_Host cg));
             c = replace_all c ''{{prefix}}'' (g_CmdNamePrefix cg)
         in replace_all c ''{{arg}}'' arg)
      else c)"

definition expand_further :: "'k Group \<Rightarrow> string \<Rightarrow> string \<Rightarrow> string \<Rightarrow> string \<Rightarrow> string" where
  "expand_further cg cmd name arg c =
     (if has_template c then
        (let c = replace_all c ''{{command}}'' cmd;
             c = replace_all c ''{{name}}'' name;
             c = replace_all c ''{{host}}'' (deref_z [] (g_Host cg));
             c = replace_all c ''{{group.name}}'' (g_Name cg);
             c = replace_all c ''{{group.category}}'' (g_Category cg);
             c = replace_all c ''{{prefix}}'' (g_Name cg)
         in replace_all c ''{{arg}}'' arg)
      else c)"

definition fill_command :: "(string \<Rightarrow> string) \<Rightarrow> string \<Rightarrow> 'k Group \<Rightarrow> 'k Command \<Rightarrow> 'k Command" where
  "fill_command expand home cg cmd =
     (let cmd = cmd\<lparr>cmd_GroupCategory := g_Category cg, cmd_GroupName := g_Name cg,
                    cmd_Notify := Default None (cmd_Notify cmd) (g_Notify cg),
                    cmd_Background := Default None (cmd_Background cmd) (g_Background cg),
                    cmd_Directory := expand (Default [] (cmd_Directory cmd) home),
                    cmd_Environment := merge_env (g_Environment cg) (cmd_Environment cmd)\<rparr>;
          cmd = (if \<not> cmd_OverrideDefault cmd
                 then cmd\<lparr>cmd_Command := default_command (g_Command cg) (cmd_Command cmd) (cmd_Name cmd)\<rparr>
                 else cmd);
          cmd = cmd\<lparr>cmd_Command := expand_command cg (cmd_Name cmd) (cmd_Arg cmd) (cmd_Command cmd)\<rparr>;
          cmd = cmd\<lparr>cmd_Commands :=
                  map (expand_further cg (cmd_Command cmd) (cmd_Name cmd) (cmd_Arg cmd)) (cmd_Commands cmd)\<rparr>
      in cmd\<lparr>cmd_Name := DotJoin [g_CmdNamePrefix cg, cmd_Name cmd]\<rparr>)"

definition command_errors :: "'k Group \<Rightarrow> nat \<Rightarrow> 'k Command \<Rightarrow> errors" where
  "command_errors cg idx cmd =
     when_err (cmd_Name cmd = [])
       (Errf ''command in group [%s](%d) must have a name'' [S (g_Name cg), I (int idx)]) @
     when_err (cmd_Command cmd = [] \<and> cmd_OverrideDefault cmd)
       (Errf ''cannot override default without an override, in group [%s] command [%s] at index (%d)''
          [S (g_Name cg), S (cmd_Name cmd), I (int idx)])"

definition Group_Validate :: "(string \<Rightarrow> string) \<Rightarrow> string \<Rightarrow> 'k Group \<Rightarrow> errors \<times> 'k Group" where
  "Group_Validate expand home cg =
     (let cg = cg\<lparr>g_Commands := g_Commands cg @
                    map (\<lambda>sel. empty_Command\<lparr>cmd_Name := sel, cmd_Command := sel\<rparr>) (g_MenuSelections cg)\<rparr>;
          cg = rename_group cg;
          ec = when_err (g_Name cg = []) (Errf ''command group must have name'' []);
          ec = ec @ concat (map (\<lambda>(idx, cmd). command_errors cg idx cmd)
                              (zip [0..<length (g_Commands cg)] (g_Commands cg)));
          cg = cg\<lparr>g_Commands := map (fill_command expand home cg) (g_Commands cg)\<rparr>
      in (ec, cg\<lparr>g_Command := [], g_Environment := None\<rparr>))"

section \<open>Merging\<close>

definition doMerge :: "'k Group \<Rightarrow> 'k Group \<Rightarrow> bool \<times> 'k Group" where
  "doMerge cg rhv =
     (if (g_Category cg = [] \<or> g_Category rhv = []) \<and> g_Name cg \<noteq> g_Name rhv then (False, cg)
      else if g_Category cg \<noteq> g_Category rhv then (False, cg)
      else
        let cg = cg\<lparr>g_Aliases := []\<rparr>;
            cg = (if g_SortHint rhv \<le> g_SortHint cg
                  then cg\<lparr>g_Commands := g_Commands cg @ g_Commands rhv\<rparr>
                  else cg\<lparr>g_Commands := g_Commands rhv @ g_Commands cg\<rparr>);
            absA = (if g_SortHint cg < 0 then - g_SortHint cg else g_SortHint cg);
            absB = (if g_SortHint rhv < 0 then - g_SortHint rhv else g_SortHint rhv)
        in (True, cg\<lparr>g_SortHint := (if absB \<le> absA then g_SortHint cg else g_SortHint rhv)\<rparr>))"

section \<open>Selecting and running commands\<close>

fun keep_first :: "set_add \<Rightarrow> string list \<Rightarrow> 'k Command list \<Rightarrow> string list \<Rightarrow> 'k Command list \<times> string list" where
  "keep_first set_add ops [] seen = ([], seen)"
| "keep_first set_add ops (cmd # cmds) seen =
     (let name = NamePrime cmd
      in if name \<in> set ops then
           (let (existed, seen') = set_add name seen;
                (out, seen'') = keep_first set_add ops cmds seen'
            in (if \<not> existed then cmd # out else out, seen''))
         else keep_first set_add ops cmds seen)"

definition FilterCommands ::
    "set_add \<Rightarrow> 'k Command list \<Rightarrow> string list \<Rightarrow> go_error + 'k Command list" where
  "FilterCommands set_add cmds args =
     (let ops = remdups args
      in if length cmds = 0 then Inl (Errf ''cannot resolve commands without input commands'' [])
         else if length args = 0 then Inl (Errf ''must specify one or more commands to resolve'' [])
         else if length ops \<noteq> length args
           then Inl (Errf ''ambiguous input with %d duplicate items %s''
                       [I (int (length ops) - int (length args)), L args])
         else
           let (out, seen) = keep_first set_add ops cmds []
           in if length ops \<noteq> length out
              then Inl (Errf ''found %d [%s] ops, of %d [%s] arguments''
                          [I (int (length out)), S (join_with '', '' seen), I (int (length ops)),
                           S (join_with '', '' ops)])
              else Inr out)"

definition RunCommands ::
    "(('w \<Rightarrow> errors \<times> 'w) list \<Rightarrow> nat list \<Rightarrow> 'w \<Rightarrow> errors \<times> 'w) \<Rightarrow> nat \<Rightarrow>
     ('k Command \<Rightarrow> 'w \<Rightarrow> errors \<times> 'w) \<Rightarrow> 'k Command list \<Rightarrow> 'w \<Rightarrow> errors \<times> 'w" where
  "RunCommands pool num_cpu worker cmds w =
     (let n = length cmds
      in if n = 1 then
           (case worker (cmds ! 0) w of (err, w') \<Rightarrow>
              (wrap_errs err ''running command %q'' [S (cmd_Name (cmds ! 0))], w'))
         else if n < num_cpu then
           (case CommandPool pool worker cmds [n] w of (err, w') \<Rightarrow>
              (wrap_errs err ''running %d batch of commands %s'' [I (int n), L (map cmd_Name cmds)], w'))
         else
           (case CommandPool pool worker cmds [] w of (err, w') \<Rightarrow>
              (wrap_errs err ''running %d batch of commands %s'' [I (int n), L (map cmd_Name cmds)], w')))"

subsection \<open>Facts\<close>

definition set_add_ok :: "set_add \<Rightarrow> bool" where
  "set_add_ok a \<longleftrightarrow> (\<forall>x s. a x s = (x \<in> set s, if x \<in> set s then s else s @ [x]))"

lemma keep_first_facts:
  assumes a: "set_add_ok a"
  shows "distinct (map NamePrime (fst (keep_first a ops cmds seen))) \<and>
    set (map NamePrime (fst (keep_first a ops cmds seen))) =
      (set (map NamePrime cmds) \<inter> set ops) - set seen \<and>
    (\<forall>c \<in> set (fst (keep_first a ops cmds seen)). find (\<lambda>d. NamePrime d = NamePrime c) cmds = Some c)"
proof (induction cmds arbitrary: seen)
  case (Cons cmd cmds)
  have ax: "a x s = (x \<in> set s, if x \<in> set s then s else s @ [x])" for x s
    using a by (simp add: set_add_ok_def)
  define seen' where "seen' = (if NamePrime cmd \<in> set ops then snd (a (NamePrime cmd) seen) else seen)"
  have s: "set seen' = (if NamePrime cmd \<in> set ops then insert (NamePrime cmd) (set seen) else set seen)"
    by (auto simp: seen'_def ax)
  have step: "fst (keep_first a ops (cmd # cmds) seen) =
      (if NamePrime cmd \<in> set ops \<and> NamePrime cmd \<notin> set seen then cmd # fst (keep_first a ops cmds seen')
       else fst (keep_first a ops cmds seen'))"
    by (cases "NamePrime cmd \<in> set seen") (simp_all add: seen'_def ax Let_def case_prod_unfold)
  note IH = Cons.IH[of seen']
  let ?out = "fst (keep_first a ops cmds seen')"
  have old: "find (\<lambda>d. NamePrime d = NamePrime c) (cmd # cmds) = Some c" if "c \<in> set ?out" for c
  proof -
    have "NamePrime c \<in> set (map NamePrime ?out)" using that by simp
    then have "NamePrime c \<in> set ops" "NamePrime c \<notin> set seen'" using IH by auto
    then have "NamePrime c \<noteq> NamePrime cmd" using s by (auto split: if_splits)
    moreover have "find (\<lambda>d. NamePrime d = NamePrime c) cmds = Some c" using IH that by blast
    ultimately show ?thesis by simp
  qed
  have eq: "set (map NamePrime ?out) = (set (map NamePrime cmds) \<inter> set ops) - set seen'"
    and dis: "distinct (map NamePrime ?out)" using IH by blast+
  show ?case
  proof (cases "NamePrime cmd \<in> set ops \<and> NamePrime cmd \<notin> set seen")
    case True
    then have "NamePrime cmd \<notin> set (map NamePrime ?out)" using eq s by auto
    moreover have "set (map NamePrime (cmd # ?out)) = set (map NamePrime (cmd # cmds)) \<inter> set ops - set seen"
      using True eq s by auto
    moreover have "fst (keep_first a ops (cmd # cmds) seen) = cmd # ?out" unfolding step using True by simp
    moreover have "\<forall>c \<in> set (cmd # ?out). find (\<lambda>d. NamePrime d = NamePrime c) (cmd # cmds) = Some c"
      using old by auto
    ultimately show ?thesis using dis by simp
  next
    case False
    with s have "set seen' = set seen \<union> (if NamePrime cmd \<in> set ops then {NamePrime cmd} else {})" by auto
    with False eq have "set (map NamePrime ?out) = set (map NamePrime (cmd # cmds)) \<inter> set ops - set seen"
      by (auto split: if_splits)
    moreover have "fst (keep_first a ops (cmd # cmds) seen) = ?out" unfolding step using False by simp
    ultimately show ?thesis using dis old by metis
  qed
qed simp

text \<open>What is kept, by position: the commands of a wanted name that neither \<open>seen\<close> nor a command before them
  has.\<close>

lemma keep_first_positions:
  assumes "set_add_ok a"
  shows "fst (keep_first a ops cmds seen) = map (\<lambda>i. cmds ! i)
    (filter (\<lambda>i. NamePrime (cmds ! i) \<in> set ops \<and>
        NamePrime (cmds ! i) \<notin> set seen \<union> NamePrime ` set (take i cmds)) [0..<length cmds])"
proof (induction cmds arbitrary: seen)
  case (Cons cmd cmds)
  obtain existed seen' where s: "a (NamePrime cmd) seen = (existed, seen')" by (cases "a (NamePrime cmd) seen")
  with assms have s': "existed = (NamePrime cmd \<in> set seen)" "set seen' = insert (NamePrime cmd) (set seen)"
    by (auto simp: set_add_ok_def)
  have upt: "[0..<length (cmd # cmds)] = 0 # map Suc [0..<length cmds]"
    by (simp only: length_Cons upt_conv_Cons zero_less_Suc map_Suc_upt)
  have tl: "filter (\<lambda>i. NamePrime (cmds ! i) \<in> set ops \<and>
        NamePrime (cmds ! i) \<notin> set seen \<union> insert (NamePrime cmd) (NamePrime ` set (take i cmds))) xs =
      filter (\<lambda>i. NamePrime (cmds ! i) \<in> set ops \<and>
        NamePrime (cmds ! i) \<notin> set seen'' \<union> NamePrime ` set (take i cmds)) xs"
    if "set seen'' \<union> {x. x \<notin> set ops} = insert (NamePrime cmd) (set seen) \<union> {x. x \<notin> set ops}" for seen'' xs
    using that by (intro filter_cong) blast+
  show ?case
  proof (cases "NamePrime cmd \<in> set ops")
    case True
    have "fst (keep_first a ops (cmd # cmds) seen) =
        (if NamePrime cmd \<notin> set seen then [cmd] else []) @ fst (keep_first a ops cmds seen')"
      using True s s'(1) by (simp add: Let_def case_prod_unfold)
    then show ?thesis unfolding Cons upt
      using True tl[of seen'] s'(2) by (simp add: filter_map comp_def conj_ac)
  next
    case False
    then have "set seen \<union> {x. x \<notin> set ops} = insert (NamePrime cmd) (set seen) \<union> {x. x \<notin> set ops}" by blast
    from tl[OF this] show ?thesis unfolding upt using Cons[of seen] False
      by (simp add: filter_map comp_def conj_ac)
  qed
qed simp

text \<open>C11: selecting commands by name succeeds exactly when there are commands, the names are given,
  without duplicates, and each is the name of a command; the result then has one command for
  each name, the first of that name, in the order of the commands: it is the list of those
  commands that have a wanted name and no command of that name before them.\<close>

theorem FilterCommands_selects_first:
  assumes "set_add_ok a"
  shows "case FilterCommands a cmds args of
      Inl e \<Rightarrow> cmds = [] \<or> args = [] \<or> \<not> distinct args \<or> \<not> set args \<subseteq> NamePrime ` set cmds
    | Inr out \<Rightarrow> distinct args \<and> args \<noteq> [] \<and> distinct (map NamePrime out) \<and>
        set (map NamePrime out) = set args \<and>
        (\<forall>c \<in> set out. find (\<lambda>d. NamePrime d = NamePrime c) cmds = Some c) \<and>
        out = map (\<lambda>i. cmds ! i) (filter (\<lambda>i. NamePrime (cmds ! i) \<in> set args \<and>
          (\<forall>j < i. NamePrime (cmds ! j) \<noteq> NamePrime (cmds ! i))) [0..<length cmds])"
proof -
  let ?out = "fst (keep_first a (remdups args) cmds [])"
  have f: "distinct (map NamePrime ?out)" "set (map NamePrime ?out) = NamePrime ` set cmds \<inter> set args"
    "\<forall>c \<in> set ?out. find (\<lambda>d. NamePrime d = NamePrime c) cmds = Some c"
    using keep_first_facts[OF assms, of "remdups args" cmds "[]"] by auto
  have card_out: "length ?out = card (NamePrime ` set cmds \<inter> set args)"
    using f(1,2) by (metis distinct_card length_map)
  have d: "length (remdups args) \<noteq> length args \<longleftrightarrow> \<not> distinct args"
    by simp
  have len: "length (remdups args) = card (set args)" by (simp add: length_remdups_card_conv)
  have sub: "length (remdups args) = length ?out \<longleftrightarrow> set args \<subseteq> NamePrime ` set cmds"
  proof
    assume "length (remdups args) = length ?out"
    then have "card (NamePrime ` set cmds \<inter> set args) = card (set args)" using card_out len by simp
    then have "NamePrime ` set cmds \<inter> set args = set args" by (intro card_subset_eq) auto
    then show "set args \<subseteq> NamePrime ` set cmds" by blast
  next
    assume "set args \<subseteq> NamePrime ` set cmds"
    then have "NamePrime ` set cmds \<inter> set args = set args" by blast
    then show "length (remdups args) = length ?out" using card_out len by simp
  qed
  show ?thesis
  proof (cases "cmds = [] \<or> args = [] \<or> \<not> distinct args \<or> \<not> set args \<subseteq> NamePrime ` set cmds")
    case True
    then have "\<exists>e. FilterCommands a cmds args = Inl e"
      using d sub by (auto simp: FilterCommands_def Let_def case_prod_unfold)
    with True show ?thesis by auto
  next
    case False
    have r: "remdups args = args" using False by simp
    have "FilterCommands a cmds args = Inr ?out"
      using sub False by (auto simp: r FilterCommands_def Let_def case_prod_unfold)
    moreover have "set (map NamePrime ?out) = set args" using f(2) False by blast
    moreover have "?out = map (\<lambda>i. cmds ! i) (filter (\<lambda>i. NamePrime (cmds ! i) \<in> set args \<and>
        (\<forall>j < i. NamePrime (cmds ! j) \<noteq> NamePrime (cmds ! i))) [0..<length cmds])"
      unfolding keep_first_positions[OF assms] r
      by (intro arg_cong[of _ _ "map ((!) cmds)"] filter_cong)
        (auto simp: nth_image [symmetric] image_iff atLeast0LessThan, metis lessThan_iff)
    ultimately show ?thesis using f False by simp
  qed
qed

definition list_add :: set_add where
  "list_add x s = (x \<in> set s, if x \<in> set s then s else s @ [x])"

definition demo_cmd :: "string \<Rightarrow> string \<Rightarrow> nat Command" where
  "demo_cmd name line = empty_Command\<lparr>cmd_Name := name, cmd_Command := line\<rparr>"

theorem FilterCommands_selects_first_witness:
  "set (map NamePrime [demo_cmd ''b'' ''1'', demo_cmd ''a'' ''2'']) = set [''a'', ''b''] \<and>
   FilterCommands list_add [demo_cmd ''b'' ''1'', demo_cmd ''a'' ''2'', demo_cmd ''b'' ''3''] [''a'', ''b''] =
     Inr [demo_cmd ''b'' ''1'', demo_cmd ''a'' ''2'']"
proof -
  have ok: "set_add_ok list_add" by (simp add: set_add_ok_def list_add_def)
  have eq: "FilterCommands list_add [demo_cmd ''b'' ''1'', demo_cmd ''a'' ''2'', demo_cmd ''b'' ''3''] [''a'', ''b''] =
     Inr [demo_cmd ''b'' ''1'', demo_cmd ''a'' ''2'']"
    by (simp add: FilterCommands_def list_add_def demo_cmd_def NamePrime_def empty_Command_def Let_def)
  from FilterCommands_selects_first [OF ok, of "[demo_cmd ''b'' ''1'', demo_cmd ''a'' ''2'', demo_cmd ''b'' ''3'']"
      "[''a'', ''b'']"]
  have "set (map NamePrime [demo_cmd ''b'' ''1'', demo_cmd ''a'' ''2'']) = set [''a'', ''b'']"
    unfolding eq sum.case by (elim conjE)
  with eq show ?thesis by blast
qed

section \<open>What validation does\<close>

lemma replace_all_once:
  assumes "p = c # r" and "c \<notin> set pre"
  shows "replace_all (pre @ p @ post) p new = pre @ new @ replace_all post p new"
  using assms(2)
proof (induction pre)
  case Nil
  have "has_prefix (c # r @ post) (c # r)" by (simp add: has_prefix_def)
  then show ?case by (simp add: assms(1))
next
  case (Cons a pre)
  then have "\<not> has_prefix (a # pre @ p @ post) p" by (auto simp: assms(1) has_prefix_def)
  with Cons show ?case by (simp add: assms(1))
qed

lemma replace_all_none: "p = c # r \<Longrightarrow> c \<notin> set s \<Longrightarrow> replace_all s p new = s"
  by (rule replace_all_absent) (auto simp: str_contains_iff)

text \<open>How the default command of a group wraps the commands of the group. A command line is
  put in the place of the template, and a group's line without the template replaces it; but for
  a command without a line of its own the template is filled with the group's line itself, and
  stays in the result, instead of with the name of the command as when the group has no line.\<close>

theorem default_command_template:
  assumes "CHR ''{'' \<notin> set pre" and "CHR ''{'' \<notin> set post"
  shows "(cmd \<noteq> [] \<longrightarrow> default_command (pre @ ''{{command}}'' @ post) cmd name = pre @ cmd @ post) \<and>
    default_command (pre @ ''{{command}}'' @ post) [] name =
      pre @ pre @ ''{{command}}'' @ post @ post \<and>
    (pre \<noteq> [] \<longrightarrow> default_command pre cmd name = pre) \<and>
    default_command [] cmd name = (if cmd = [] then name else cmd)"
proof -
  have once: "replace_all (pre @ ''{{command}}'' @ post) ''{{command}}'' new = pre @ new @ post" for new
    using assms replace_all_once[of "''{{command}}''" "CHR ''{''" "''{command}}''" pre post new]
      replace_all_none[of "''{{command}}''" "CHR ''{''" "''{command}}''" post new] by simp
  have none: "replace_all pre ''{{command}}'' new = pre" for new
    using assms replace_all_none[of "''{{command}}''" "CHR ''{''" "''{command}}''" pre new] by simp
  show ?thesis
    unfolding default_command_def Let_def
    using once[of cmd] once[of "pre @ ''{{command}}'' @ post"] none[of "Default [] (Default [] cmd pre) name"]
    by (auto simp: Default_def)
qed

theorem default_command_template_witness:
  "default_command ''ssh host {{command}}'' [] ''uptime'' = ''ssh host ssh host {{command}}'' \<and>
   default_command ''ssh host {{command}}'' ''uptime -p'' ''uptime'' = ''ssh host uptime -p''"
  using default_command_template [of "''ssh host ''" "[]" "''uptime -p''" "''uptime''"]
  by simp

lemma rename_group_simps [simp]:
  "g_Name (rename_group cg) = [] \<longleftrightarrow> g_Name cg = [] \<and> g_CmdNamePrefix cg = []"
  "g_Environment (rename_group cg) = g_Environment cg"
  "g_Command (rename_group cg) = g_Command cg"
  "g_Commands (rename_group cg) = g_Commands cg"
  "g_Notify (rename_group cg) = g_Notify cg"
  "g_Background (rename_group cg) = g_Background cg"
  by (auto simp: rename_group_def Let_def)

lemma fill_command_simps [simp]:
  "cmd_Name (fill_command expand home cg cmd) = DotJoin [g_CmdNamePrefix cg, cmd_Name cmd]"
  "cmd_GroupName (fill_command expand home cg cmd) = g_Name cg"
  "cmd_GroupCategory (fill_command expand home cg cmd) = g_Category cg"
  "cmd_Directory (fill_command expand home cg cmd) = expand (Default [] (cmd_Directory cmd) home)"
  "cmd_Notify (fill_command expand home cg cmd) = Default None (cmd_Notify cmd) (g_Notify cg)"
  "cmd_Environment (fill_command expand home cg cmd) = merge_env (g_Environment cg) (cmd_Environment cmd)"
  "length (cmd_Commands (fill_command expand home cg cmd)) = length (cmd_Commands cmd)"
  by (simp_all add: fill_command_def Let_def)

lemma merge_env_lookup:
  "merge_env ge ce = Some e \<Longrightarrow> distinct (map fst (deref_z [] ge)) \<Longrightarrow> distinct (map fst (deref_z [] ce)) \<Longrightarrow>
     map_of e k = (case map_of (deref_z [] ce) k of Some v \<Rightarrow> Some v | None \<Rightarrow> map_of (deref_z [] ge) k)"
  by (auto simp: merge_env_def map_of_env_extend map_of_rev_distinct map_add_def split: if_splits option.splits)

lemma concat_errors_nil:
  "concat (map (\<lambda>(idx, cmd). command_errors cg idx cmd) (zip [0..<length cmds] cmds)) = [] \<longleftrightarrow>
     (\<forall>cmd \<in> set cmds. cmd_Name cmd \<noteq> [] \<and> (cmd_OverrideDefault cmd \<longrightarrow> cmd_Command cmd \<noteq> []))"
proof -
  have "set cmds = snd ` set (zip [0..<length cmds] cmds)"
    by (metis length_map map_nth set_map map_snd_zip length_upt minus_nat.diff_0)
  then show ?thesis by (auto simp: command_errors_def split_beta)
qed

definition all_commands :: "'k Group \<Rightarrow> 'k Command list" where
  "all_commands cg = g_Commands cg @
     map (\<lambda>sel. empty_Command\<lparr>cmd_Name := sel, cmd_Command := sel\<rparr>) (g_MenuSelections cg)"

text \<open>C12: validating a group reports an error exactly when the group has neither a name nor a
  prefix, a command (or a menu selection) has no name, or a command overrides the default
  with nothing. Whatever it reports, every command is filled in: it belongs to the group, takes
  the prefix of the group into its name, runs in its own directory or the home directory, and sees
  the variables of the group overlaid by its own.\<close>

theorem Group_Validate_fills_commands:
  assumes "Group_Validate expand home cg = (ec, cg')"
    and "distinct (map fst (deref_z [] (g_Environment cg)))"
    and "\<forall>c \<in> set (g_Commands cg). distinct (map fst (deref_z [] (cmd_Environment c)))"
  shows "(ec = [] \<longleftrightarrow> (g_Name cg \<noteq> [] \<or> g_CmdNamePrefix cg \<noteq> []) \<and>
      (\<forall>c \<in> set (all_commands cg). cmd_Name c \<noteq> [] \<and> (cmd_OverrideDefault c \<longrightarrow> cmd_Command c \<noteq> []))) \<and>
    length (g_Commands cg') = length (all_commands cg) \<and>
    (\<forall>i < length (all_commands cg).
       cmd_Name (g_Commands cg' ! i) = DotJoin [g_CmdNamePrefix cg', cmd_Name (all_commands cg ! i)] \<and>
       cmd_GroupName (g_Commands cg' ! i) = g_Name cg' \<and>
       cmd_GroupCategory (g_Commands cg' ! i) = g_Category cg' \<and>
       cmd_Directory (g_Commands cg' ! i) =
         expand (if cmd_Directory (all_commands cg ! i) = [] then home else cmd_Directory (all_commands cg ! i)) \<and>
       (\<forall>k. map_of (deref_z [] (cmd_Environment (g_Commands cg' ! i))) k =
          (case map_of (deref_z [] (cmd_Environment (all_commands cg ! i))) k of
             Some v \<Rightarrow> Some v | None \<Rightarrow> map_of (deref_z [] (g_Environment cg)) k)))"
proof -
  define cg1 where "cg1 = rename_group (cg\<lparr>g_Commands := all_commands cg\<rparr>)"
  have cg': "cg' = cg1\<lparr>g_Commands := map (fill_command expand home cg1) (all_commands cg),
      g_Command := [], g_Environment := None\<rparr>"
    and ec: "ec = when_err (g_Name cg1 = []) (Errf ''command group must have name'' []) @
      concat (map (\<lambda>(idx, cmd). command_errors cg1 idx cmd) (zip [0..<length (all_commands cg)] (all_commands cg)))"
    using assms(1) by (auto simp: Group_Validate_def all_commands_def cg1_def Let_def)
  have "ec = [] \<longleftrightarrow> (g_Name cg \<noteq> [] \<or> g_CmdNamePrefix cg \<noteq> []) \<and>
      (\<forall>c \<in> set (all_commands cg). cmd_Name c \<noteq> [] \<and> (cmd_OverrideDefault c \<longrightarrow> cmd_Command c \<noteq> []))"
    unfolding ec append_is_Nil_conv concat_errors_nil by (auto simp: cg1_def)
  moreover have "map_of (deref_z [] (merge_env (g_Environment cg) (cmd_Environment c))) k =
      (case map_of (deref_z [] (cmd_Environment c)) k of
         Some v \<Rightarrow> Some v | None \<Rightarrow> map_of (deref_z [] (g_Environment cg)) k)"
    if "c \<in> set (all_commands cg)" for c k
  proof (cases "merge_env (g_Environment cg) (cmd_Environment c)")
    case None
    then show ?thesis by (auto simp: merge_env_def split: if_splits)
  next
    case (Some e)
    have "distinct (map fst (deref_z [] (cmd_Environment c)))"
      using that assms(3) by (auto simp: all_commands_def empty_Command_def)
    with Some assms(2) show ?thesis by (simp add: merge_env_lookup)
  qed
  ultimately show ?thesis unfolding cg' by (simp add: cg1_def Default_def)
qed

definition demo_group :: "nat Group" where
  "demo_group = empty_Group\<lparr>g_Name := ''repo'', g_CmdNamePrefix := ''pull'', g_Command := ''git pull'',
     g_Environment := Some [(''A'', ''1''), (''B'', ''2'')],
     g_Commands := [(demo_cmd ''sardis'' [])\<lparr>cmd_Environment := Some [(''B'', ''3'')]\<rparr>]\<rparr>"

theorem Group_Validate_fills_commands_witness:
  "fst (Group_Validate (\<lambda>s. s) ''/home/me'' demo_group) = [] \<and>
   map cmd_Name (g_Commands (snd (Group_Validate (\<lambda>s. s) ''/home/me'' demo_group))) = [''sardis''] \<and>
   map_of (deref_z [] (cmd_Environment (g_Commands (snd (Group_Validate (\<lambda>s. s) ''/home/me'' demo_group)) ! 0)))
     ''B'' = Some ''3''"
proof -
  have cat: "g_CmdNamePrefix (snd (Group_Validate (\<lambda>s. s) ''/home/me'' demo_group)) = []"
    by (simp add: Group_Validate_def rename_group_def demo_group_def empty_Group_def Let_def)
  have fields: "g_Name demo_group = ''repo''" "g_Environment demo_group = Some [(''A'', ''1''), (''B'', ''2'')]"
    "g_Commands demo_group = [(demo_cmd ''sardis'' [])\<lparr>cmd_Environment := Some [(''B'', ''3'')]\<rparr>]"
    by (simp_all add: demo_group_def empty_Group_def)
  have all: "all_commands demo_group = [(demo_cmd ''sardis'' [])\<lparr>cmd_Environment := Some [(''B'', ''3'')]\<rparr>]"
    by (simp add: all_commands_def demo_group_def empty_Group_def)
  have d: "distinct (map fst (deref_z [] (g_Environment demo_group)))"
    "\<forall>c \<in> set (g_Commands demo_group). distinct (map fst (deref_z [] (cmd_Environment c)))"
    by (simp_all add: fields)
  note f = Group_Validate_fills_commands [OF surjective_pairing d, of "\<lambda>s. s" "''/home/me''"]
  have "0 < length (all_commands demo_group)" by (simp add: all)
  note f0 = conjunct2 [OF conjunct2 [OF f], rule_format, OF this]
  have len: "length (g_Commands (snd (Group_Validate (\<lambda>s. s) ''/home/me'' demo_group))) = 1"
    using conjunct1 [OF conjunct2 [OF f]] by (simp add: all)
  have g: "fst (Group_Validate (\<lambda>s. s) ''/home/me'' demo_group) = []"
      "cmd_Name (g_Commands (snd (Group_Validate (\<lambda>s. s) ''/home/me'' demo_group)) ! 0) = ''sardis''"
      "map_of (deref_z [] (cmd_Environment (g_Commands (snd (Group_Validate (\<lambda>s. s) ''/home/me'' demo_group)) ! 0)))
        ''B'' = Some ''3''"
    subgoal using conjunct1 [OF f] by (simp add: all fields demo_cmd_def empty_Command_def)
    subgoal using conjunct1 [OF f0]
      by (simp add: all cat demo_cmd_def empty_Command_def DotJoin_def DotJoinParts_def)
    subgoal using conjunct2 [OF conjunct2 [OF conjunct2 [OF conjunct2 [OF f0]]], rule_format, of "''B''"]
      by (simp add: all)
    done
  from len obtain c where c: "g_Commands (snd (Group_Validate (\<lambda>s. s) ''/home/me'' demo_group)) = [c]"
    by (auto simp: length_Suc_conv)
  with g show ?thesis by simp
qed

end
