(* ===== verification/Go_Stable.thy ===== *)
theory Go_Stable
  imports Go_Prelude
begin

text \<open>
  \<open>slices.SortStableFunc\<close> for a comparison that need not be an order, as the one of the groups of
  commands is not when two groups hold different pointers to the same host. What such a sort
  answers depends on its algorithm, which is that of the standard library: blocks of 20 elements
  are sorted by insertion and then merged in pairs by \<open>symMerge\<close>, which searches where to rotate.
\<close>

section \<open>Insertion\<close>

text \<open>The new element is moved to the left as long as it is less than its neighbour; \<open>ins_back\<close> has the
  sorted prefix in reverse.\<close>

fun ins_back :: "('a \<Rightarrow> 'a \<Rightarrow> int) \<Rightarrow> 'a \<Rightarrow> 'a list \<Rightarrow> 'a list" where
  "ins_back cmp x [] = [x]"
| "ins_back cmp x (y # ys) = (if cmp x y < 0 then y # ins_back cmp x ys else x # y # ys)"

definition insertionSort :: "('a \<Rightarrow> 'a \<Rightarrow> int) \<Rightarrow> 'a list \<Rightarrow> 'a list" where
  "insertionSort cmp xs = rev (fold (ins_back cmp) xs [])"

section \<open>Merging two blocks\<close>

text \<open>The binary search of the first index in a range for which \<open>P\<close> fails.\<close>

function search :: "(nat \<Rightarrow> bool) \<Rightarrow> nat \<Rightarrow> nat \<Rightarrow> nat" where
  "search P i j =
     (if i < j then if P ((i + j) div 2) then search P ((i + j) div 2 + 1) j else search P i ((i + j) div 2)
      else i)"
  by pat_completeness auto
termination by (relation "measure (\<lambda>(P, i, j). j - i)") auto

declare search.simps [simp del]

definition sym_start :: "('a \<Rightarrow> 'a \<Rightarrow> int) \<Rightarrow> 'a list \<Rightarrow> 'a list \<Rightarrow> nat" where
  "sym_start cmp xs ys =
     (let data = xs @ ys; m = length xs; b = length data; mid = b div 2; n = mid + m; p = n - 1
      in search (\<lambda>c. \<not> cmp (data ! (p - c)) (data ! c) < 0)
           (if mid < m then n - b else 0) (if mid < m then mid else m))"

definition rotate_range :: "nat \<Rightarrow> nat \<Rightarrow> nat \<Rightarrow> 'a list \<Rightarrow> 'a list" where
  "rotate_range start m stop data =
     (if start < m \<and> m < stop
      then take start data @ drop m (take stop data) @ drop start (take m data) @ drop stop data
      else data)"

lemma length_rotate_range [simp]: "m \<le> length data \<Longrightarrow> length (rotate_range start m stop data) = length data"
  by (auto simp: rotate_range_def)

function symMerge :: "('a \<Rightarrow> 'a \<Rightarrow> int) \<Rightarrow> 'a list \<Rightarrow> 'a list \<Rightarrow> 'a list" where
  "symMerge cmp xs ys =
     (if length xs = 1
      then let i = search (\<lambda>h. cmp (ys ! h) (hd xs) < 0) 0 (length ys) in take i ys @ xs @ drop i ys
      else if length ys = 1
      then let i = search (\<lambda>h. \<not> cmp (hd ys) (xs ! h) < 0) 0 (length xs) in take i xs @ ys @ drop i xs
      else
        let b = length xs + length ys; mid = b div 2; start = sym_start cmp xs ys; stop = mid + length xs - start;
            data = rotate_range start (length xs) stop (xs @ ys); lo = take mid data; hi = drop mid data
        in (if 0 < start \<and> start < mid then symMerge cmp (take start lo) (drop start lo) else lo) @
           (if mid < stop \<and> stop < b then symMerge cmp (take (stop - mid) hi) (drop (stop - mid) hi) else hi))"
  by pat_completeness auto
termination by (relation "measure (\<lambda>(cmp, xs, ys). length xs + length ys)") auto

declare symMerge.simps [simp del]

section \<open>The sort\<close>

function blocks :: "'a list \<Rightarrow> 'a list list" where
  "blocks xs = (if length xs \<le> 20 then [xs] else take 20 xs # blocks (drop 20 xs))"
  by pat_completeness auto
termination by (relation "measure length") auto

declare blocks.simps [simp del]

fun merge_pass :: "('a \<Rightarrow> 'a \<Rightarrow> int) \<Rightarrow> 'a list list \<Rightarrow> 'a list list" where
  "merge_pass cmp (x # y # zs) = symMerge cmp x y # merge_pass cmp zs"
| "merge_pass cmp xs = xs"

lemma length_merge_pass: "length (merge_pass cmp xs) \<le> length xs"
  by (induction cmp xs rule: merge_pass.induct) auto

function merge_passes :: "('a \<Rightarrow> 'a \<Rightarrow> int) \<Rightarrow> 'a list list \<Rightarrow> 'a list" where
  "merge_passes cmp [] = []"
| "merge_passes cmp [x] = x"
| "merge_passes cmp (x # y # zs) = merge_passes cmp (symMerge cmp x y # merge_pass cmp zs)"
  by pat_completeness auto
termination
  by (relation "measure (\<lambda>(cmp, xs). length xs)") (auto simp: less_Suc_eq_le length_merge_pass)

definition stable_sort :: "('a \<Rightarrow> 'a \<Rightarrow> int) \<Rightarrow> 'a list \<Rightarrow> 'a list" where
  "stable_sort cmp xs = merge_passes cmp (map (insertionSort cmp) (blocks xs))"

section \<open>Facts\<close>

lemma stable_sort_small: "length xs \<le> 20 \<Longrightarrow> stable_sort cmp xs = insertionSort cmp xs"
  by (simp add: stable_sort_def blocks.simps)

lemma stable_sort_single: "stable_sort cmp [x] = [x]"
  by (simp add: stable_sort_small insertionSort_def)

lemma mset_ins_back [simp]: "mset (ins_back cmp x ys) = add_mset x (mset ys)"
  by (induction ys) auto

lemma mset_insertionSort [simp]: "mset (insertionSort cmp xs) = mset xs"
proof -
  have "mset (fold (ins_back cmp) xs acc) = mset xs + mset acc" for acc
    by (induction xs arbitrary: acc) auto
  then show ?thesis by (simp add: insertionSort_def)
qed

lemma mset_take_drop: "mset (take n xs) + mset (drop n xs) = mset xs"
  by (metis append_take_drop_id mset_append)

lemma mset_rotate_range:
  assumes "m \<le> length data"
  shows "mset (rotate_range start m stop data) = mset data"
proof (cases "start < m \<and> m < stop")
  case True
  have "mset (take stop data) = mset (take m data) + mset (drop m (take stop data))"
    using mset_take_drop[of m "take stop data"] True by (simp add: min_absorb1)
  moreover have "mset (take m data) = mset (take start data) + mset (drop start (take m data))"
    using mset_take_drop[of start "take m data"] True by (simp add: min_absorb1)
  ultimately show ?thesis
    using True mset_take_drop[of stop data] by (simp add: rotate_range_def ac_simps)
qed (auto simp: rotate_range_def)

lemma symMerge_one:
  "length xs = 1 \<Longrightarrow> symMerge cmp xs ys =
     take (search (\<lambda>h. cmp (ys ! h) (hd xs) < 0) 0 (length ys)) ys @ xs @
     drop (search (\<lambda>h. cmp (ys ! h) (hd xs) < 0) 0 (length ys)) ys"
  "length xs \<noteq> 1 \<Longrightarrow> length ys = 1 \<Longrightarrow> symMerge cmp xs ys =
     take (search (\<lambda>h. \<not> cmp (hd ys) (xs ! h) < 0) 0 (length xs)) xs @ ys @
     drop (search (\<lambda>h. \<not> cmp (hd ys) (xs ! h) < 0) 0 (length xs)) xs"
  by (subst symMerge.simps, simp only: Let_def if_True if_False simp_thms)+

text \<open>What a merge does when neither side has one element: two shorter merges of the rotated data.\<close>

lemma symMerge_step:
  assumes "length xs \<noteq> 1" and "length ys \<noteq> 1"
    and "b = length xs + length ys" and "start = sym_start cmp xs ys" and "stop = b div 2 + length xs - start"
    and "data = rotate_range start (length xs) stop (xs @ ys)"
  shows "symMerge cmp xs ys =
    (if 0 < start \<and> start < b div 2 then symMerge cmp (take start (take (b div 2) data)) (drop start (take (b div 2) data))
     else take (b div 2) data) @
    (if b div 2 < stop \<and> stop < b
     then symMerge cmp (take (stop - b div 2) (drop (b div 2) data)) (drop (stop - b div 2) (drop (b div 2) data))
     else drop (b div 2) data)"
  using assms(1,2) by (subst symMerge.simps) (simp only: Let_def if_False assms(3-6))

lemma mset_symMerge [simp]: "mset (symMerge cmp xs ys) = mset xs + mset ys"
proof (induction "length xs + length ys" arbitrary: xs ys rule: less_induct)
  case less
  show ?case
  proof (cases "length xs = 1 \<or> length ys = 1")
    case True
    have "mset (take i zs @ us @ drop i zs) = mset us + mset zs" for i and us zs :: "'a list"
      using mset_take_drop[of i zs] by (simp add: ac_simps)
    with True show ?thesis by (subst symMerge.simps) (auto simp: Let_def ac_simps simp del: mset_append)
  next
    case False
    define b where "b = length xs + length ys"
    define start where "start = sym_start cmp xs ys"
    define stop where "stop = b div 2 + length xs - start"
    define data where "data = rotate_range start (length xs) stop (xs @ ys)"
    have len: "length data = b" by (simp add: data_def b_def)
    have lo: "mset (symMerge cmp (take start (take (b div 2) data)) (drop start (take (b div 2) data))) =
        mset (take (b div 2) data)" if "0 < start" "start < b div 2"
      using less.hyps[of "take start (take (b div 2) data)" "drop start (take (b div 2) data)"] that len
      by (simp add: mset_take_drop b_def del: take_take drop_take)
    have hi: "mset (symMerge cmp (take (stop - b div 2) (drop (b div 2) data)) (drop (stop - b div 2) (drop (b div 2) data))) =
        mset (drop (b div 2) data)" if "b div 2 < stop" "stop < b"
      using less.hyps[of "take (stop - b div 2) (drop (b div 2) data)" "drop (stop - b div 2) (drop (b div 2) data)"] that len
      by (simp add: mset_take_drop b_def del: take_take drop_take drop_drop)
    have "mset (symMerge cmp xs ys) = mset (take (b div 2) data) + mset (drop (b div 2) data)"
      using False lo hi by (simp add: symMerge_step[OF _ _ b_def start_def stop_def data_def] del: take_take drop_take drop_drop)
    then show ?thesis by (simp add: mset_take_drop data_def mset_rotate_range)
  qed
qed

lemma mset_blocks: "sum_list (map mset (blocks xs)) = mset xs"
proof (induction xs rule: blocks.induct)
  case (1 xs)
  then show ?case by (subst blocks.simps) (simp add: mset_take_drop)
qed

lemma mset_merge_pass [simp]: "sum_list (map mset (merge_pass cmp xs)) = sum_list (map mset xs)"
  by (induction cmp xs rule: merge_pass.induct) (simp_all add: ac_simps)

lemma mset_merge_passes [simp]: "mset (merge_passes cmp xs) = sum_list (map mset xs)"
  by (induction cmp xs rule: merge_passes.induct) (simp_all add: ac_simps)

lemma mset_stable_sort [simp]: "mset (stable_sort cmp xs) = mset xs"
  by (simp add: stable_sort_def comp_def mset_blocks)

lemma set_stable_sort [simp]: "set (stable_sort cmp xs) = set xs"
  by (metis mset_stable_sort set_mset_mset)

text \<open>Sorting by a function of the elements.\<close>

lemma map_insertionSort: "map f (insertionSort (\<lambda>a b. cmp (f a) (f b)) xs) = insertionSort cmp (map f xs)"
proof -
  have ins: "map f (ins_back (\<lambda>a b. cmp (f a) (f b)) x ys) = ins_back cmp (f x) (map f ys)" for x ys
    by (induction ys) auto
  have "map f (fold (ins_back (\<lambda>a b. cmp (f a) (f b))) xs acc) = fold (ins_back cmp) (map f xs) (map f acc)" for acc
    by (induction xs arbitrary: acc) (simp_all add: ins)
  then show ?thesis by (simp add: insertionSort_def flip: rev_map)
qed

lemma search_cong: "(\<And>h. i \<le> h \<Longrightarrow> h < j \<Longrightarrow> P h = Q h) \<Longrightarrow> search P i j = search Q i j"
proof (induction P i j rule: search.induct)
  case (1 P i j)
  show ?case
  proof (cases "i < j")
    case True
    then have m: "i \<le> (i + j) div 2" "(i + j) div 2 < j" by auto
    have up: "search P ((i + j) div 2 + 1) j = search Q ((i + j) div 2 + 1) j" if "P ((i + j) div 2)"
      by (rule 1(1)[OF True that]) (use 1(3) m in auto)
    have down: "search P i ((i + j) div 2) = search Q i ((i + j) div 2)" if "\<not> P ((i + j) div 2)"
      by (rule 1(2)[OF True that]) (use 1(3) m in auto)
    show ?thesis using True up down 1(3)[OF m]
      by (subst search.simps, subst (2) search.simps) simp
  next
    case False
    then show ?thesis by (simp add: search.simps)
  qed
qed

lemma sym_start_map: "sym_start (\<lambda>a b. cmp (f a) (f b)) xs ys = sym_start cmp (map f xs) (map f ys)"
proof -
  define data where "data = xs @ ys"
  define m where "m = length xs"
  define b where "b = length data"
  define lo where "lo = (if b div 2 < m then b div 2 + m - b else 0)"
  define hi where "hi = (if b div 2 < m then b div 2 else m)"
  have m: "m \<le> b" by (simp add: m_def b_def data_def)
  have data: "map f xs @ map f ys = map f data" by (simp add: data_def)
  have eq: "search (\<lambda>c. \<not> cmp (f (data ! (b div 2 + m - 1 - c))) (f (data ! c)) < 0) lo hi =
      search (\<lambda>c. \<not> cmp (map f data ! (b div 2 + m - 1 - c)) (map f data ! c) < 0) lo hi"
  proof (rule search_cong)
    fix c
    assume c: "lo \<le> c" "c < hi"
    have "c < b" "b div 2 + m - 1 - c < b"
    proof -
      show "c < b" using c(2) m unfolding hi_def by (simp split: if_splits)
      show "b div 2 + m - 1 - c < b"
      proof (cases "b div 2 < m")
        case True
        then show ?thesis using c m unfolding lo_def hi_def by auto
      next
        case False
        then show ?thesis using c m unfolding hi_def by auto
      qed
    qed
    then show "(\<not> cmp (f (data ! (b div 2 + m - 1 - c))) (f (data ! c)) < 0) =
        (\<not> cmp (map f data ! (b div 2 + m - 1 - c)) (map f data ! c) < 0)"
      by (simp add: b_def)
  qed
  show ?thesis
    using eq unfolding sym_start_def Let_def lo_def hi_def b_def m_def data_def
    by (simp only: length_map length_append map_append)
qed

lemma rotate_range_map: "map f (rotate_range start m stop data) = rotate_range start m stop (map f data)"
  by (simp add: rotate_range_def take_map drop_map)

lemma map_symMerge: "map f (symMerge (\<lambda>a b. cmp (f a) (f b)) xs ys) = symMerge cmp (map f xs) (map f ys)"
proof (induction "length xs + length ys" arbitrary: xs ys rule: less_induct)
  case less
  let ?cmp = "\<lambda>a b. cmp (f a) (f b)"
  show ?case
  proof (cases "length xs = 1 \<or> length ys = 1")
    case True
    have x: "hd (map f us) = f (hd us)" if "length us = 1" for us using that by (cases us) auto
    have "search (\<lambda>h. ?cmp (ys ! h) (hd xs) < 0) 0 (length ys) =
        search (\<lambda>h. cmp (map f ys ! h) (f (hd xs)) < 0) 0 (length ys)"
      by (rule search_cong) simp
    moreover have "search (\<lambda>h. \<not> ?cmp (hd ys) (xs ! h) < 0) 0 (length xs) =
        search (\<lambda>h. \<not> cmp (f (hd ys)) (map f xs ! h) < 0) 0 (length xs)"
      by (rule search_cong) simp
    ultimately show ?thesis using True
      by (cases "length xs = 1") (simp_all only: symMerge_one length_map x map_append take_map drop_map simp_thms)
  next
    case False
    define b where "b = length xs + length ys"
    define start where "start = sym_start ?cmp xs ys"
    define stop where "stop = b div 2 + length xs - start"
    define data where "data = rotate_range start (length xs) stop (xs @ ys)"
    have len: "length data = b" by (simp add: data_def b_def)
    have fb: "b = length (map f xs) + length (map f ys)" by (simp add: b_def)
    have fstart: "start = sym_start cmp (map f xs) (map f ys)" unfolding start_def by (rule sym_start_map)
    have fstop: "stop = b div 2 + length (map f xs) - start" by (simp add: stop_def)
    have fdata: "map f data = rotate_range start (length (map f xs)) stop (map f xs @ map f ys)"
      by (simp add: data_def rotate_range_map)
    have lo: "map f (symMerge ?cmp (take start (take (b div 2) data)) (drop start (take (b div 2) data))) =
        symMerge cmp (take start (take (b div 2) (map f data))) (drop start (take (b div 2) (map f data)))"
      if "0 < start" "start < b div 2"
      using less.hyps[of "take start (take (b div 2) data)" "drop start (take (b div 2) data)"] that len
      by (simp add: b_def take_map drop_map del: take_take drop_take)
    have hi: "map f (symMerge ?cmp (take (stop - b div 2) (drop (b div 2) data)) (drop (stop - b div 2) (drop (b div 2) data))) =
        symMerge cmp (take (stop - b div 2) (drop (b div 2) (map f data))) (drop (stop - b div 2) (drop (b div 2) (map f data)))"
      if "b div 2 < stop" "stop < b"
      using less.hyps[of "take (stop - b div 2) (drop (b div 2) data)" "drop (stop - b div 2) (drop (b div 2) data)"] that len
      by (simp add: b_def take_map drop_map del: take_take drop_take drop_drop)
    show ?thesis
      using False lo hi symMerge_step[OF _ _ b_def start_def stop_def data_def]
        symMerge_step[OF _ _ fb fstart fstop fdata]
      by (simp add: take_map drop_map del: take_take drop_take drop_drop)
  qed
qed

lemma map_stable_sort: "map f (stable_sort (\<lambda>a b. cmp (f a) (f b)) xs) = stable_sort cmp (map f xs)"
proof -
  have pass: "map (map f) (merge_pass (\<lambda>a b. cmp (f a) (f b)) xss) = merge_pass cmp (map (map f) xss)" for xss
    by (induction "\<lambda>a b. cmp (f a) (f b)" xss rule: merge_pass.induct) (simp_all add: map_symMerge)
  have "map f (merge_passes (\<lambda>a b. cmp (f a) (f b)) xss) = merge_passes cmp (map (map f) xss)" for xss
    by (induction "\<lambda>a b. cmp (f a) (f b)" xss rule: merge_passes.induct) (simp_all add: map_symMerge pass)
  moreover have "map (map f) (blocks xs) = blocks (map f xs)"
  proof (induction xs rule: blocks.induct)
    case (1 xs)
    then show ?case by (subst blocks.simps, subst (2) blocks.simps) (simp add: take_map drop_map)
  qed
  ultimately show ?thesis
    by (simp add: stable_sort_def comp_def map_insertionSort flip: \<open>map (map f) (blocks xs) = blocks (map f xs)\<close>)
qed

end
