(* ===== verification/Subexec_Conf.thy ===== *)
theory Subexec_Conf
  imports Subexec_Group Go_Stable
begin

text \<open>
  \<open>subexec/subexec.go\<close> and \<open>subexec/list.go\<close>: the configuration of the command groups: joining
  configuration files, validation with the expansion of aliases and the merging of groups, the
  exported views, and the stages of the command menu. The values that are computed once and
  cached are the results of the functions here. \<open>hostname\<close> is the name of this host; the order
  in which a Go map is walked is the parameter \<open>map_order\<close>, or the order of the list that stands
  for the map.
\<close>

section \<open>Configuration\<close>

record 'k Configuration =
  c_Commands :: "'k Group list"
  c_SSHAgentSocketPath :: string
  c_AlacrittySocketPath :: string
  c_IncludeLocalSHH :: "bool option"
  c_AllowUndefinedSockets :: "bool option"

definition empty_Configuration :: "'k Configuration" where
  "empty_Configuration =
     \<lparr>c_Commands = [], c_SSHAgentSocketPath = [], c_AlacrittySocketPath = [], c_IncludeLocalSHH = None,
      c_AllowUndefinedSockets = None\<rparr>"

definition Configuration_Join :: "'k Configuration \<Rightarrow> 'k Configuration \<Rightarrow> 'k Configuration" where
  "Configuration_Join conf mcf =
     conf\<lparr>c_AlacrittySocketPath := Default [] (c_AlacrittySocketPath mcf) (c_AlacrittySocketPath conf),
          c_SSHAgentSocketPath := Default [] (c_SSHAgentSocketPath mcf) (c_SSHAgentSocketPath conf),
          c_IncludeLocalSHH := Default None (c_IncludeLocalSHH mcf) (c_IncludeLocalSHH conf),
          c_AllowUndefinedSockets := Default None (c_AllowUndefinedSockets mcf) (c_AllowUndefinedSockets conf),
          c_Commands := c_Commands conf @ c_Commands mcf\<rparr>"

interpretation subexec_join: config_join Configuration_Join empty_Configuration
  by unfold_locales (simp_all add: Configuration_Join_def empty_Configuration_def)

text \<open>The two socket paths: the setting, or what the search finds (\<open>Util\<close>).\<close>

definition resolve_socket :: "string \<Rightarrow> go_error + string \<Rightarrow> string" where
  "resolve_socket setting found =
     (if setting \<noteq> [] then setting else case found of Inr path \<Rightarrow> path | Inl err \<Rightarrow> [])"

section \<open>Aliases and merging\<close>

definition group_key :: "'k Group \<Rightarrow> string" where
  "group_key g = DotJoin [g_Category g, g_Name g]"

definition local_ssh :: "string \<Rightarrow> 'k Configuration \<Rightarrow> 'k Group \<Rightarrow> bool" where
  "local_ssh hostname conf g \<longleftrightarrow>
     (case g_Host g of
        None \<Rightarrow> False
      | Some h \<Rightarrow> h \<noteq> [] \<and> h = hostname \<and> \<not> deref_z False (c_IncludeLocalSHH conf))"

definition with_aliases :: "string \<Rightarrow> 'k Configuration \<Rightarrow> 'k Group list" where
  "with_aliases hostname conf =
     concat (map (\<lambda>cg. if local_ssh hostname conf cg then []
                       else cg # map (\<lambda>alias. cg\<lparr>g_Aliases := [], g_Name := alias\<rparr>) (g_Aliases cg))
               (c_Commands conf))"

fun merge_loop ::
    "nat list \<Rightarrow> 'k Group list \<Rightarrow> (string \<times> nat) list \<Rightarrow> bool \<Rightarrow>
     'k Group list \<times> (string \<times> nat) list \<times> bool" where
  "merge_loop [] groups index haveMerged = (groups, index, haveMerged)"
| "merge_loop (idx # idxs) groups index haveMerged =
     (let lhn = group_key (groups ! idx)
      in case map_of index lhn of
           None \<Rightarrow> merge_loop idxs groups (index @ [(lhn, idx)]) haveMerged
         | Some j \<Rightarrow>
             merge_loop idxs (groups[j := snd (doMerge (groups ! j) (groups ! idx))]) index True)"

definition command_cmp :: "'k Command \<Rightarrow> 'k Command \<Rightarrow> int" where
  "command_cmp lhv rhv =
     (let cc = compare (cmd_SortHint rhv) (cmd_SortHint lhv)
      in if cc = 0 then compare (cmd_Name lhv) (cmd_Name rhv) else cc)"

text \<open>The first test of the comparison of groups compares the \<open>Host\<close> pointers, not what they point
  to: \<open>same_host\<close> says whether two groups hold the same pointer. Groups with different pointers to
  the same name are equal whatever their other fields are, so this is not a total preorder and
  the result of sorting depends on the algorithm, which is that of \<open>Go_Stable\<close>.\<close>

definition group_cmp :: "('k Group \<Rightarrow> 'k Group \<Rightarrow> bool) \<Rightarrow> 'k Group \<Rightarrow> 'k Group \<Rightarrow> int" where
  "group_cmp same_host lhv rhv =
     (if \<not> same_host lhv rhv \<and> (g_Host lhv \<noteq> None \<or> g_Host rhv \<noteq> None)
        then compare (deref_z [] (g_Host lhv)) (deref_z [] (g_Host rhv))
      else if g_Synthetic lhv \<noteq> g_Synthetic rhv then (if g_Synthetic lhv then 1 else - 1)
      else if g_SortHint lhv \<noteq> g_SortHint rhv then compare (g_SortHint rhv) (g_SortHint lhv)
      else if g_Category lhv \<noteq> g_Category rhv then compare (g_Category lhv) (g_Category rhv)
      else if g_Name lhv \<noteq> g_Name rhv then compare (g_Name lhv) (g_Name rhv)
      else if g_CmdNamePrefix lhv \<noteq> g_CmdNamePrefix rhv
        then compare (g_CmdNamePrefix lhv) (g_CmdNamePrefix rhv)
      else if length (g_Commands lhv) \<noteq> length (g_Commands rhv)
        then compare (length (g_Commands lhv)) (length (g_Commands rhv))
      else 0)"

definition sort_commands :: "'k Group \<Rightarrow> 'k Group" where
  "sort_commands grp = grp\<lparr>g_Commands := sort_cmp command_cmp (g_Commands grp)\<rparr>"

definition resolveAliasesAndMergeGroups ::
    "('k Group \<Rightarrow> 'k Group \<Rightarrow> bool) \<Rightarrow> ((string \<times> nat) list \<Rightarrow> (string \<times> nat) list) \<Rightarrow> string \<Rightarrow>
     'k Configuration \<Rightarrow> 'k Configuration" where
  "resolveAliasesAndMergeGroups same_host map_order hostname conf =
     (if length (c_Commands conf) = 0 then conf
      else
        let withAliases = with_aliases hostname conf;
            (groups, index, haveMerged) = merge_loop [0..<length withAliases] withAliases [] False
        in if \<not> haveMerged then conf\<lparr>c_Commands := groups\<rparr>
           else
             let sparse = sort_cmp (\<lambda>a b. compare (snd a) (snd b)) (map_order index);
                 resolved = map sort_commands (map (\<lambda>j. groups ! j) (map snd sparse))
             in conf\<lparr>c_Commands := stable_sort (group_cmp same_host) resolved\<rparr>)"

definition Configuration_Validate ::
    "(string \<Rightarrow> string) \<Rightarrow> string \<Rightarrow> ('k Group \<Rightarrow> 'k Group \<Rightarrow> bool) \<Rightarrow>
     ((string \<times> nat) list \<Rightarrow> (string \<times> nat) list) \<Rightarrow> string \<Rightarrow> 'k Configuration \<Rightarrow>
     errors \<times> 'k Configuration" where
  "Configuration_Validate expand home same_host map_order hostname conf =
     (let rs = map (Group_Validate expand home) (c_Commands conf);
          ec = concat (map (\<lambda>(idx, err). wrap_errs err ''%d of %T is not valid'' [I (int idx)])
                         (zip [0..<length rs] (map fst rs)));
          conf = conf\<lparr>c_Commands := map snd rs\<rparr>
      in (ec, resolveAliasesAndMergeGroups same_host map_order hostname conf))"

section \<open>Exports\<close>

definition doExportAllCommands :: "string \<Rightarrow> 'k Configuration \<Rightarrow> 'k Command list" where
  "doExportAllCommands hostname conf =
     concat (map (\<lambda>grp. if local_ssh hostname conf grp then []
                        else map (\<lambda>cmd. cmd\<lparr>cmd_Name := DotJoin [g_Category grp, g_Name grp, cmd_Name cmd]\<rparr>)
                               (g_Commands grp))
               (c_Commands conf))"

definition doExportCommandGroups :: "string \<Rightarrow> 'k Configuration \<Rightarrow> (string \<times> 'k Group) list" where
  "doExportCommandGroups hostname conf =
     fold (\<lambda>grp out. if local_ssh hostname conf grp then out
                     else fold (\<lambda>alias out. upd alias grp out) (g_Aliases grp) (upd (group_key grp) grp out))
       (c_Commands conf) []"

definition doExportGroupNames :: "string \<Rightarrow> 'k Configuration \<Rightarrow> string list" where
  "doExportGroupNames hostname conf = map fst (doExportCommandGroups hostname conf)"

section \<open>list.go\<close>

record 'k CommandListStage =
  Selections :: "string list"
  Prefixed :: "string list"
  Commands :: "'k Command list"
  Prefix :: string
  NextLabel :: string

definition stage0 :: "'k CommandListStage" where
  "stage0 = \<lparr>Selections = [], Prefixed = [], Commands = [], Prefix = [], NextLabel = []\<rparr>"

definition SelectionAt :: "'k CommandListStage \<Rightarrow> nat \<Rightarrow> string outcome" where
  "SelectionAt cls idx =
     (if idx < length (Selections cls) then Return (Selections cls ! idx) else Panic index_out_of_range)"

fun stage_Resolve :: "'k CommandListStage \<Rightarrow> nat list \<Rightarrow> string list outcome" where
  "stage_Resolve cls [] = Return []"
| "stage_Resolve cls (v # idxs) =
     (let source = (if length (Prefixed cls) \<noteq> 0 then Prefixed cls else Selections cls)
      in if v < length source
         then (case stage_Resolve cls idxs of
                 Return out \<Rightarrow> Return (source ! v # out) | Panic e \<Rightarrow> Panic e)
         else Panic index_out_of_range)"

definition CommandNames :: "'k CommandListStage \<Rightarrow> string list" where
  "CommandNames cls = (if length (Commands cls) = 0 then [] else map FQN (Commands cls))"

definition all_stage :: "'k Command list \<Rightarrow> 'k CommandListStage" where
  "all_stage cmds = stage0\<lparr>NextLabel := ''sardis'', Selections := map NamePrime cmds\<rparr>"

definition group_stage :: "string \<Rightarrow> 'k Group \<Rightarrow> 'k CommandListStage" where
  "group_stage selection gr = stage0
     \<lparr>NextLabel := selection, Prefix := selection,
      Selections := map NamePrime (g_Commands gr),
      Prefixed := map (\<lambda>c. DotJoin [selection, NamePrime c]) (g_Commands gr)\<rparr>"

definition group_keywords :: "string list" where
  "group_keywords = [''groups'', ''group'', ''g'']"

definition ResolveCommands ::
    "set_add \<Rightarrow> string \<Rightarrow> 'k Configuration \<Rightarrow> string list \<Rightarrow> (go_error + 'k CommandListStage) outcome" where
  "ResolveCommands set_add hostname conf args =
     (let cmds = doExportAllCommands hostname conf; groupMap = doExportCommandGroups hostname conf
      in case args of
           [] \<Rightarrow> Return (Inr (all_stage cmds))
         | [selection] \<Rightarrow>
             if selection \<in> set [''all'', ''a''] then Return (Inr (all_stage cmds))
             else if selection \<in> set group_keywords
               then Return (Inr (stage0\<lparr>Selections := map fst groupMap, NextLabel := ''groups''\<rparr>))
             else
               (case map_of groupMap selection of
                  Some gr \<Rightarrow> Return (Inr (group_stage selection gr))
                | None \<Rightarrow>
                    (case FilterCommands set_add cmds args of
                       Inl err \<Rightarrow> Return (Inl err)
                     | Inr out \<Rightarrow> Return (Inr (stage0\<lparr>NextLabel := ''sardis'', Commands := out\<rparr>))))
         | first # rest \<Rightarrow>
             if first \<in> set ([''all'', ''a''] @ group_keywords)
             then Return (Inl (Errf ''cannot use keyword %q in context of a multi-command selection %s''
                                 [S first, L args]))
             else
               let groups = filter (\<lambda>item. map_of groupMap item \<noteq> None) args;
                   missing = filter (\<lambda>item. map_of groupMap item = None) args
               in if 0 < length missing \<and> 0 < length groups
                    then Return (Inl (Errf ''ambiguous operation, cannot mix groups %s and commands %s''
                                        [L groups, L missing]))
                  else if 0 < length groups
                    then (if length (remdups args) \<noteq> length args
                          then Return (Inl (Errf ''invalid list of groups %d vs %d %s''
                                 [I (int (length (remdups args))), I (int (length args)), L args]))
                          else Return (Inr (stage0\<lparr>Selections := args, NextLabel := ''groups''\<rparr>)))
                  else if 0 < length missing
                    then (case FilterCommands set_add cmds args of
                            Inl err \<Rightarrow> Return (Inl err)
                          | Inr cmds \<Rightarrow> Return (Inr (stage0\<lparr>Commands := cmds\<rparr>)))
                  else Panic (Errf ''unreachable'' []))"

section \<open>Merging conserves the commands\<close>

text \<open>Two groups are merged only when they agree on the category and, lacking one, on the name.\<close>

definition mergeable :: "'k Group list \<Rightarrow> bool" where
  "mergeable gs \<longleftrightarrow> (\<forall>g \<in> set gs. \<forall>h \<in> set gs. group_key g = group_key h \<longrightarrow>
     g_Category g = g_Category h \<and> g_Name g = g_Name h)"

lemma doMerge_same:
  assumes "g_Category g = g_Category h" and "g_Name g = g_Name h"
  shows "fst (doMerge g h)" and "mset (g_Commands (snd (doMerge g h))) = mset (g_Commands g) + mset (g_Commands h)"
    and "g_Category (snd (doMerge g h)) = g_Category g" and "g_Name (snd (doMerge g h)) = g_Name g"
  using assms by (auto simp: doMerge_def Let_def)

definition same_ids :: "'k Group list \<Rightarrow> 'k Group list \<Rightarrow> bool" where
  "same_ids gs hs \<longleftrightarrow> map g_Category gs = map g_Category hs \<and> map g_Name gs = map g_Name hs"

lemma same_ids_nth:
  "same_ids gs hs \<Longrightarrow> i < length hs \<Longrightarrow>
     g_Category (gs ! i) = g_Category (hs ! i) \<and> g_Name (gs ! i) = g_Name (hs ! i) \<and> length gs = length hs"
  unfolding same_ids_def by (metis length_map nth_map)

lemma same_ids_update:
  "same_ids gs hs \<Longrightarrow> g_Category g = g_Category (gs ! j) \<Longrightarrow> g_Name g = g_Name (gs ! j) \<Longrightarrow>
     same_ids (gs[j := g]) hs"
  unfolding same_ids_def map_update by (metis length_map list_update_id nth_map list_update_beyond not_less map_update)

text \<open>The commands of the groups of one full name.\<close>

definition named_commands :: "string \<Rightarrow> 'k Group list \<Rightarrow> 'k Command list" where
  "named_commands n gs = concat (map g_Commands (filter (\<lambda>g. group_key g = n) gs))"

lemma named_commands_simps [simp]:
  "named_commands n [] = []"
  "named_commands n (g # gs) = (if group_key g = n then g_Commands g else []) @ named_commands n gs"
  "named_commands n (gs @ hs) = named_commands n gs @ named_commands n hs"
  by (simp_all add: named_commands_def)

definition merge_inv :: "'k Group list \<Rightarrow> nat \<Rightarrow> 'k Group list \<Rightarrow> (string \<times> nat) list \<Rightarrow> bool \<Rightarrow> bool" where
  "merge_inv ws k groups index merged \<longleftrightarrow>
     same_ids groups ws \<and> drop k groups = drop k ws \<and>
     distinct (map fst index) \<and> distinct (map snd index) \<and>
     fst ` set index = group_key ` set (take k ws) \<and>
     (\<forall>(n, j) \<in> set index. j < k \<and> group_key (ws ! j) = n) \<and>
     (\<forall>n. mset (concat (map (\<lambda>p. g_Commands (groups ! snd p)) (filter (\<lambda>p. fst p = n) index))) =
          mset (named_commands n (take k ws))) \<and>
     (\<not> merged \<longrightarrow> map snd index = [0..<k] \<and> groups = ws)"

lemma map_of_split:
  assumes "map_of xs k = Some v"
  obtains as bs where "xs = as @ (k, v) # bs"
  using map_of_SomeD[OF assms] by (metis in_set_conv_decomp)

lemma merge_inv_step:
  assumes inv: "merge_inv ws k groups index merged" and k: "k < length ws" and ok: "mergeable ws"
  shows "case map_of index (group_key (groups ! k)) of
      None \<Rightarrow> merge_inv ws (Suc k) groups (index @ [(group_key (groups ! k), k)]) merged
    | Some j \<Rightarrow> merge_inv ws (Suc k) (groups[j := snd (doMerge (groups ! j) (groups ! k))]) index True"
proof -
  have ids: "same_ids groups ws" and drp: "drop k groups = drop k ws"
    and dis: "distinct (map fst index)" "distinct (map snd index)"
    and keys: "fst ` set index = group_key ` set (take k ws)"
    and idx: "\<forall>(n, j) \<in> set index. j < k \<and> group_key (ws ! j) = n"
    and cmds: "\<forall>n. mset (concat (map (\<lambda>p. g_Commands (groups ! snd p)) (filter (\<lambda>p. fst p = n) index))) =
      mset (named_commands n (take k ws))"
    and unm: "\<not> merged \<longrightarrow> map snd index = [0..<k] \<and> groups = ws"
    using inv by (auto simp: merge_inv_def)
  have len: "length groups = length ws" using same_ids_nth[OF ids k] by simp
  have gk: "groups ! k = ws ! k" using drp k len by (metis Cons_nth_drop_Suc nth_Cons_0)
  have drp': "drop (Suc k) groups = drop (Suc k) ws" using drp k len by (metis Cons_nth_drop_Suc list.inject)
  have tk: "take (Suc k) ws = take k ws @ [ws ! k]" using k by (simp add: take_Suc_conv_app_nth)
  show ?thesis
  proof (cases "map_of index (group_key (groups ! k))")
    case None
    then have new: "group_key (ws ! k) \<notin> fst ` set index" by (simp add: gk map_of_eq_None_iff)
    have "k \<notin> snd ` set index" using idx by fastforce
    then show ?thesis
      using None new dis keys idx cmds unm ids drp' gk tk
      by (auto simp: merge_inv_def less_Suc_eq)
  next
    case (Some j)
    then obtain as bs where ab: "index = as @ (group_key (ws ! k), j) # bs" using gk by (metis map_of_split)
    with idx have j: "j < k" "group_key (ws ! j) = group_key (ws ! k)" by auto
    have mem: "ws ! j \<in> set ws" "ws ! k \<in> set ws" using j k by auto
    with j ok have "g_Category (ws ! j) = g_Category (ws ! k)" "g_Name (ws ! j) = g_Name (ws ! k)"
      unfolding mergeable_def by blast+
    then have cn: "g_Category (groups ! j) = g_Category (groups ! k)" "g_Name (groups ! j) = g_Name (groups ! k)"
      using same_ids_nth[OF ids, of j] same_ids_nth[OF ids, of k] j k by simp_all
    note m = doMerge_same[OF cn]
    define g where "g = snd (doMerge (groups ! j) (groups ! k))"
    have others: "i \<noteq> j" if "(n, i) \<in> set as \<union> set bs" for n i
      using dis(2) that unfolding ab by force
    have same: "\<forall>x \<in> set as \<union> set bs. groups[j := g] ! snd x = groups ! snd x"
      using others by (metis nth_list_update_neq prod.collapse)
    have maps: "map (\<lambda>p. g_Commands (groups[j := g] ! snd p)) (filter Q as) =
        map (\<lambda>p. g_Commands (groups ! snd p)) (filter Q as)"
      "map (\<lambda>p. g_Commands (groups[j := g] ! snd p)) (filter Q bs) =
        map (\<lambda>p. g_Commands (groups ! snd p)) (filter Q bs)" for Q
      using same by auto
    have gj: "groups[j := g] ! j = g" using j k len by simp
    have gm: "mset (g_Commands g) = mset (g_Commands (groups ! j)) + mset (g_Commands (ws ! k))"
      using m(2) by (simp add: g_def gk)
    have "mset (concat (map (\<lambda>p. g_Commands (groups[j := g] ! snd p)) (filter (\<lambda>p. fst p = n) index))) =
        mset (named_commands n (take (Suc k) ws))" for n
      using cmds[rule_format, of n] by (simp add: ab maps gj gm tk split: if_splits)
    moreover have "same_ids (groups[j := g]) ws" using ids m(3,4) by (simp add: g_def same_ids_update)
    moreover have "drop (Suc k) (groups[j := g]) = drop (Suc k) ws" using drp' j by simp
    moreover have "fst ` set index = group_key ` set (take (Suc k) ws)"
      using keys ab by (auto simp: tk)
    moreover have "\<forall>(n, i) \<in> set index. i < Suc k \<and> group_key (ws ! i) = n" using idx by fastforce
    ultimately show ?thesis using Some dis cmds by (simp add: merge_inv_def tk g_def)
  qed
qed

lemma merge_loop_inv:
  assumes "mergeable ws" and "merge_loop [k..<length ws] groups index merged = (groups', index', merged')"
    and "merge_inv ws k groups index merged" and "k \<le> length ws"
  shows "merge_inv ws (length ws) groups' index' merged'"
  using assms(2-)
proof (induction "length ws - k" arbitrary: k groups index merged)
  case 0
  then show ?case by simp
next
  case (Suc n)
  then have k: "k < length ws" by simp
  then have "[k..<length ws] = k # [Suc k..<length ws]" by (rule upt_conv_Cons)
  with Suc.prems(1) have step: "(case map_of index (group_key (groups ! k)) of
      None \<Rightarrow> merge_loop [Suc k..<length ws] groups (index @ [(group_key (groups ! k), k)]) merged
    | Some j \<Rightarrow> merge_loop [Suc k..<length ws] (groups[j := snd (doMerge (groups ! j) (groups ! k))]) index True)
    = (groups', index', merged')" by (simp add: Let_def)
  note inv = merge_inv_step[OF Suc.prems(2) k assms(1)]
  show ?case
  proof (cases "map_of index (group_key (groups ! k))")
    case None
    with step inv show ?thesis using Suc.hyps k by (intro Suc.hyps(1)[of "Suc k"]) auto
  next
    case (Some j)
    with step inv show ?thesis using Suc.hyps k by (intro Suc.hyps(1)[of "Suc k"]) auto
  qed
qed

lemma sort_commands_simps [simp]:
  "mset (g_Commands (sort_commands g)) = mset (g_Commands g)" "group_key (sort_commands g) = group_key g"
  by (simp_all add: sort_commands_def group_key_def)

lemma mset_concat_cong: "mset (map mset xs) = mset (map mset ys) \<Longrightarrow> mset (concat xs) = mset (concat ys)"
  by (metis mset_concat sum_mset_sum_list)

lemma same_ids_key: "same_ids gs ws \<Longrightarrow> i < length ws \<Longrightarrow> group_key (gs ! i) = group_key (ws ! i)"
  using same_ids_nth[of gs ws i] by (simp add: group_key_def)

lemma mset_groups:
  assumes "mset gs = mset hs"
  shows "mset (named_commands n gs) = mset (named_commands n hs)"
    and "mset (map group_key gs) = mset (map group_key hs)"
proof -
  have "mset (filter (\<lambda>g. group_key g = n) gs) = mset (filter (\<lambda>g. group_key g = n) hs)"
    using assms by (simp only: mset_filter)
  then show "mset (named_commands n gs) = mset (named_commands n hs)"
    unfolding named_commands_def
    by (intro mset_concat_cong) (metis (no_types, lifting) list.map_comp mset_map)
  show "mset (map group_key gs) = mset (map group_key hs)" using assms by (simp add: mset_map)
qed

text \<open>Merging the groups of one full name loses none of the commands under that name and invents none,
  as long as groups are values; \<open>Subexec_Slices\<close> says when the arrays behind them allow that.\<close>

lemma values_conserve_commands:
  assumes "mergeable (with_aliases hostname conf)"
    and "\<And>xs. mset (map_order xs) = mset xs"
    and "c_Commands conf \<noteq> []"
  shows "let gs = c_Commands (resolveAliasesAndMergeGroups same_host map_order hostname conf) in
    distinct (map group_key gs) \<and>
    (\<forall>n. mset (named_commands n gs) = mset (named_commands n (with_aliases hostname conf)))"
proof -
  define ws where "ws = with_aliases hostname conf"
  obtain groups index merged where loop: "merge_loop [0..<length ws] ws [] False = (groups, index, merged)"
    by (metis prod_cases3)
  have "merge_inv ws 0 ws [] False" by (simp add: merge_inv_def same_ids_def)
  then have inv: "merge_inv ws (length ws) groups index merged"
    using merge_loop_inv[OF assms(1)[folded ws_def] loop] by simp
  define hs where "hs = map (\<lambda>(n, j). groups ! j) index"
  have ids: "same_ids groups ws" and idx: "\<forall>(n, j) \<in> set index. j < length ws \<and> group_key (ws ! j) = n"
    using inv by (simp_all add: merge_inv_def)
  have "\<forall>(n, j) \<in> set index. group_key (groups ! j) = n" using idx same_ids_key[OF ids] by fastforce
  then have hkeys: "map group_key hs = map fst index" by (auto simp: hs_def)
  have hcmds: "mset (named_commands n hs) = mset (named_commands n ws)" for n
  proof -
    have "\<forall>p \<in> set index. group_key (groups ! snd p) = fst p"
      using \<open>\<forall>(n, j) \<in> set index. group_key (groups ! j) = n\<close> by (simp add: case_prod_unfold)
    then have "named_commands n (map (\<lambda>(n, j). groups ! j) ps) =
        concat (map (\<lambda>p. g_Commands (groups ! snd p)) (filter (\<lambda>p. fst p = n) ps))"
      if "set ps \<subseteq> set index" for ps using that by (induction ps) auto
    from this[of index] show ?thesis using inv by (simp add: merge_inv_def hs_def)
  qed
  have hdis: "distinct (map group_key hs)" unfolding hkeys using inv by (simp add: merge_inv_def)
  define gs where "gs = c_Commands (resolveAliasesAndMergeGroups same_host map_order hostname conf)"
  show ?thesis
  proof (cases merged)
    case False
    then have "map snd index = [0..<length ws]" "groups = ws" using inv by (auto simp: merge_inv_def)
    moreover have "hs = map (\<lambda>j. groups ! j) (map snd index)" by (auto simp: hs_def)
    ultimately have "hs = ws" by (simp only: map_nth)
    moreover have "gs = ws"
      using False loop assms(3) inv by (simp add: merge_inv_def gs_def resolveAliasesAndMergeGroups_def ws_def)
    ultimately show ?thesis using hdis by (simp add: Let_def gs_def [symmetric] ws_def [symmetric])
  next
    case True
    define sparse where "sparse = sort_cmp (\<lambda>a b. compare (snd a) (snd b)) (map_order index)"
    define rs where "rs = map (\<lambda>j. groups ! j) (map snd sparse)"
    have "mset rs = mset hs"
    proof -
      have "rs = map (\<lambda>(n, j). groups ! j) sparse" by (auto simp: rs_def)
      then show ?thesis using assms(2) by (simp add: sparse_def hs_def)
    qed
    note r = mset_groups[OF this]
    have "gs = stable_sort (group_cmp same_host) (map sort_commands rs)"
      using True loop assms(3)
      by (simp add: gs_def resolveAliasesAndMergeGroups_def ws_def rs_def sparse_def Let_def)
    then have "mset gs = mset (map sort_commands rs)" by simp
    note g = mset_groups[OF this]
    have mk: "map group_key (map sort_commands rs) = map group_key rs" by simp
    have mc: "mset (named_commands n (map sort_commands rs)) = mset (named_commands n rs)" for n
      by (induction rs) simp_all
    have "mset (map group_key gs) = mset (map group_key hs)" using g(2) r(2) mk by metis
    moreover have "\<forall>n. mset (named_commands n gs) = mset (named_commands n ws)"
      using g(1) r(1) mc hcmds by metis
    ultimately have "mset (map group_key gs) = mset (map group_key hs)"
      "\<forall>n. mset (named_commands n gs) = mset (named_commands n ws)" by blast+
    moreover have "distinct (map group_key gs)"
      using hdis calculation(1) by (metis mset_eq_imp_distinct_iff)
    ultimately show ?thesis by (simp add: Let_def gs_def [symmetric] ws_def [symmetric])
  qed
qed

definition two_files :: "nat Configuration" where
  "two_files = empty_Configuration\<lparr>c_Commands :=
     [empty_Group\<lparr>g_Name := ''repo'', g_Aliases := [''r''], g_Commands := [demo_cmd ''pull'' ''git pull'']\<rparr>,
      empty_Group\<lparr>g_Name := ''repo'', g_SortHint := 2, g_Commands := [demo_cmd ''push'' ''git push'']\<rparr>]\<rparr>"

text \<open>Groups of one full name that disagree on where the category ends are not merged, and yet
  only the first is kept: the commands of the second disappear from the configuration.\<close>

theorem unmergeable_group_is_dropped:
  assumes "group_key g = group_key h" and "g_Category g \<noteq> g_Category h"
    and "g_Host g = None" and "g_Host h = None" and "g_Aliases g = []" and "g_Aliases h = []"
    and "\<And>xs. mset (map_order xs) = mset xs"
  shows "c_Commands (resolveAliasesAndMergeGroups same_host map_order hostname
      (empty_Configuration\<lparr>c_Commands := [g, h]\<rparr>)) = [sort_commands g]"
proof -
  have w: "with_aliases hostname (empty_Configuration\<lparr>c_Commands := [g, h]\<rparr>) = [g, h]"
    using assms(3-6) by (simp add: with_aliases_def local_ssh_def)
  have m: "doMerge g h = (False, g)" using assms(2) by (simp add: doMerge_def)
  have "merge_loop [0, Suc 0] [g, h] [] False = ([g, h], [(group_key g, 0)], True)"
    using assms(1) m by simp
  moreover have "map_order [(group_key g, 0::nat)] = [(group_key g, 0)]"
    using assms(7)[of "[(group_key g, 0)]"] by simp
  ultimately show ?thesis
    by (simp add: resolveAliasesAndMergeGroups_def w sort_cmp_def stable_sort_single numeral_2_eq_2)
qed

theorem unmergeable_group_is_dropped_witness:
  "concat (map g_Commands (c_Commands (resolveAliasesAndMergeGroups (\<lambda>g h. True) rev ''me''
     (empty_Configuration\<lparr>c_Commands :=
        [empty_Group\<lparr>g_Category := ''a'', g_Name := ''b.c''\<rparr>,
         empty_Group\<lparr>g_Category := ''a.b'', g_Name := ''c'', g_Commands := [demo_cmd ''lost'' ''x'']\<rparr>]\<rparr>)))) = []"
proof -
  let ?g = "empty_Group\<lparr>g_Category := ''a'', g_Name := ''b.c''\<rparr> :: nat Group"
  let ?h = "empty_Group\<lparr>g_Category := ''a.b'', g_Name := ''c'', g_Commands := [demo_cmd ''lost'' ''x'']\<rparr>"
  have k: "group_key ?g = group_key ?h" by (simp add: group_key_def DotJoin_def DotJoinParts_def)
  show ?thesis
    by (subst unmergeable_group_is_dropped [OF k])
       (simp_all add: empty_Group_def sort_commands_def sort_cmp_def)
qed

section \<open>The command menu\<close>

lemma DotJoin_nested: "DotJoin [DotJoin [a, b], c] = DotJoin [a, b, c]"
  by (simp add: DotJoin_def DotJoinParts_def)

lemma fold_alias_lookup:
  "map_of (fold (\<lambda>alias out. upd alias grp out) as out) k =
     (if k \<in> set as then Some grp else map_of out k)"
  by (induction as arbitrary: out) auto

definition reachable_as :: "string \<Rightarrow> 'k Configuration \<Rightarrow> string \<Rightarrow> 'k Group \<Rightarrow> bool" where
  "reachable_as hostname conf k grp \<longleftrightarrow>
     grp \<in> set (c_Commands conf) \<and> \<not> local_ssh hostname conf grp \<and> (k = group_key grp \<or> k \<in> set (g_Aliases grp))"

lemma doExportCommandGroups_lookup:
  "map_of (doExportCommandGroups hostname conf) k = Some grp \<Longrightarrow> reachable_as hostname conf k grp"
proof -
  have "map_of (fold (\<lambda>grp out. if local_ssh hostname conf grp then out
       else fold (\<lambda>alias out. upd alias grp out) (g_Aliases grp) (upd (group_key grp) grp out)) gs out) k = Some grp \<Longrightarrow>
     map_of out k = Some grp \<or> (grp \<in> set gs \<and> \<not> local_ssh hostname conf grp \<and>
       (k = group_key grp \<or> k \<in> set (g_Aliases grp)))" for gs out
  proof (induction gs arbitrary: out)
    case (Cons g gs)
    from Cons.IH[OF Cons.prems[simplified]] show ?case
      by (auto simp: fold_alias_lookup split: if_splits)
  qed simp
  from this[of "c_Commands conf" "[]"] show "map_of (doExportCommandGroups hostname conf) k = Some grp \<Longrightarrow> ?thesis"
    by (simp add: doExportCommandGroups_def reachable_as_def)
qed

lemma stage_Resolve_set:
  "stage_Resolve cls idxs = Return out \<Longrightarrow> Prefixed cls \<noteq> [] \<Longrightarrow> set out \<subseteq> set (Prefixed cls)"
  by (induction cls idxs arbitrary: out rule: stage_Resolve.induct)
     (fastforce simp: Let_def split: if_splits outcome.splits)+

lemma stage_Resolve_ok:
  "Prefixed cls \<noteq> [] \<Longrightarrow> \<forall>v \<in> set idxs. v < length (Prefixed cls) \<Longrightarrow> \<exists>out. stage_Resolve cls idxs = Return out"
  by (induction cls idxs rule: stage_Resolve.induct) auto



end
