(* ===== verification/Subexec_Slices.thy ===== *)
theory Subexec_Slices
  imports Subexec_Conf
begin

text \<open>
  \<open>subexec/subexec.go\<close> and \<open>group.go\<close>: the merging of groups over the arrays that hold their commands.
  A group has a slice of commands, and the copies of it that are made for its aliases have the
  same slice. \<open>append\<close> writes into the array of its first argument when that has room, and the sort of
  a slice writes into its array, so that what one group does can be seen through another. Shown
  is that the groups behave as the values of \<open>Subexec_Conf\<close> as long as no array with room is shared,
  and that a command is lost when one is.
\<close>

section \<open>Arrays and slices\<close>

text \<open>Addresses below \<open>ar_fresh\<close> have been allocated; the length of a list of cells is the capacity of
  the slices over it. A slice starts at the first cell, since nothing here cuts slices.\<close>

record 'a arrays =
  ar_cells :: "nat \<Rightarrow> 'a list"
  ar_fresh :: nat

type_synonym slice = "nat \<times> nat"

fun slice_read :: "'a arrays \<Rightarrow> slice \<Rightarrow> 'a list" where
  "slice_read st (a, n) = take n (ar_cells st a)"

text \<open>\<open>append(s, xs...)\<close>; \<open>grow\<close> is the room that the runtime leaves in the array it allocates, given the
  old capacity and the length that is needed.\<close>

fun slice_append :: "(nat \<Rightarrow> nat \<Rightarrow> nat) \<Rightarrow> 'a \<Rightarrow> slice \<Rightarrow> 'a list \<Rightarrow> 'a arrays \<Rightarrow> slice \<times> 'a arrays" where
  "slice_append grow zero (a, n) xs st =
     (let cells = ar_cells st a; len = n + length xs
      in if len \<le> length cells
         then ((a, len), st\<lparr>ar_cells := (ar_cells st)(a := take n cells @ xs @ drop len cells)\<rparr>)
         else ((ar_fresh st, len),
               st\<lparr>ar_cells := (ar_cells st)(ar_fresh st :=
                    take n cells @ xs @ replicate (grow (length cells) len) zero),
                  ar_fresh := ar_fresh st + 1\<rparr>))"

text \<open>\<open>slices.SortStableFunc\<close> sorts in place.\<close>

fun slice_sort :: "('a \<Rightarrow> 'a \<Rightarrow> int) \<Rightarrow> slice \<Rightarrow> 'a arrays \<Rightarrow> 'a arrays" where
  "slice_sort cmp (a, n) st =
     st\<lparr>ar_cells := (ar_cells st)(a := sort_cmp cmp (take n (ar_cells st a)) @ drop n (ar_cells st a))\<rparr>"

section \<open>Groups over arrays\<close>

text \<open>A group and the slice that is its field \<open>Commands\<close>; the field of \<open>sg_group\<close> is not used.\<close>

record 'k shared_group =
  sg_group :: "'k Group"
  sg_slice :: slice

definition read_group :: "'k Command arrays \<Rightarrow> 'k shared_group \<Rightarrow> 'k Group" where
  "read_group st sg = (sg_group sg)\<lparr>g_Commands := slice_read st (sg_slice sg)\<rparr>"

text \<open>\<open>doMerge\<close>: the fields other than the commands are merged as in \<open>Subexec_Group\<close>.\<close>

definition shared_doMerge ::
    "(nat \<Rightarrow> nat \<Rightarrow> nat) \<Rightarrow> 'k shared_group \<Rightarrow> 'k shared_group \<Rightarrow> 'k Command arrays \<Rightarrow>
     bool \<times> 'k shared_group \<times> 'k Command arrays" where
  "shared_doMerge grow cg rhv st =
     (case doMerge (sg_group cg) (sg_group rhv) of
        (False, g) \<Rightarrow> (False, cg, st)
      | (True, g) \<Rightarrow>
          let (s, st) = (if g_SortHint (sg_group rhv) \<le> g_SortHint (sg_group cg)
                then slice_append grow empty_Command (sg_slice cg) (slice_read st (sg_slice rhv)) st
                else slice_append grow empty_Command (sg_slice rhv) (slice_read st (sg_slice cg)) st)
          in (True, \<lparr>sg_group = g, sg_slice = s\<rparr>, st))"

text \<open>The copies made for aliases share the slice of the group.\<close>

definition shared_with_aliases :: "string \<Rightarrow> 'k Configuration \<Rightarrow> 'k shared_group list \<Rightarrow> 'k shared_group list" where
  "shared_with_aliases hostname conf sgs =
     concat (map (\<lambda>sg. if local_ssh hostname conf (sg_group sg) then []
               else sg # map (\<lambda>alias. sg\<lparr>sg_group := (sg_group sg)\<lparr>g_Aliases := [], g_Name := alias\<rparr>\<rparr>)
                           (g_Aliases (sg_group sg))) sgs)"

fun shared_merge_loop ::
    "(nat \<Rightarrow> nat \<Rightarrow> nat) \<Rightarrow> nat list \<Rightarrow> 'k shared_group list \<Rightarrow> (string \<times> nat) list \<Rightarrow> bool \<Rightarrow> 'k Command arrays \<Rightarrow>
     'k shared_group list \<times> (string \<times> nat) list \<times> bool \<times> 'k Command arrays" where
  "shared_merge_loop grow [] groups index haveMerged st = (groups, index, haveMerged, st)"
| "shared_merge_loop grow (idx # idxs) groups index haveMerged st =
     (let lhn = group_key (sg_group (groups ! idx))
      in case map_of index lhn of
           None \<Rightarrow> shared_merge_loop grow idxs groups (index @ [(lhn, idx)]) haveMerged st
         | Some j \<Rightarrow>
             (case shared_doMerge grow (groups ! j) (groups ! idx) st of
                (ok, cg, st) \<Rightarrow> shared_merge_loop grow idxs (groups[j := cg]) index True st))"

definition shared_resolve ::
    "(nat \<Rightarrow> nat \<Rightarrow> nat) \<Rightarrow> ('k Group \<Rightarrow> 'k Group \<Rightarrow> bool) \<Rightarrow> ((string \<times> nat) list \<Rightarrow> (string \<times> nat) list) \<Rightarrow>
     string \<Rightarrow> 'k Configuration \<Rightarrow> 'k shared_group list \<Rightarrow> 'k Command arrays \<Rightarrow>
     'k shared_group list \<times> 'k Command arrays" where
  "shared_resolve grow same_host map_order hostname conf sgs st =
     (if length sgs = 0 then (sgs, st)
      else
        let withAliases = shared_with_aliases hostname conf sgs;
            (groups, index, haveMerged, st) =
              shared_merge_loop grow [0..<length withAliases] withAliases [] False st
        in if \<not> haveMerged then (groups, st)
           else
             let sparse = sort_cmp (\<lambda>a b. compare (snd a) (snd b)) (map_order index);
                 resolved = map (\<lambda>j. groups ! j) (map snd sparse);
                 st = fold (\<lambda>sg. slice_sort command_cmp (sg_slice sg)) resolved st
             in (stable_sort (\<lambda>a b. group_cmp same_host (read_group st a) (read_group st b)) resolved, st))"

text \<open>No array with room beyond the commands of a group is shared with another group. \<open>ok_slice\<close>: a
  slice lies within an allocated array.\<close>

definition ok_slice :: "'a arrays \<Rightarrow> slice \<Rightarrow> bool" where
  "ok_slice st s \<longleftrightarrow> fst s < ar_fresh st \<and> snd s \<le> length (ar_cells st (fst s))"

definition full :: "'a arrays \<Rightarrow> slice \<Rightarrow> bool" where
  "full st s \<longleftrightarrow> snd s = length (ar_cells st (fst s))"

definition room_unshared :: "'a arrays \<Rightarrow> (nat \<Rightarrow> slice) \<Rightarrow> nat set \<Rightarrow> bool" where
  "room_unshared st sl A \<longleftrightarrow>
     (\<forall>i \<in> A. ok_slice st (sl i) \<and>
        (full st (sl i) \<or> (\<forall>j \<in> A. j \<noteq> i \<longrightarrow> fst (sl j) \<noteq> fst (sl i))))"

section \<open>Appending\<close>

lemma slice_append_fits:
  assumes "n + length xs \<le> length (ar_cells st a)"
  shows "slice_append grow zero (a, n) xs st =
    ((a, n + length xs),
     st\<lparr>ar_cells := (ar_cells st)(a := take n (ar_cells st a) @ xs @ drop (n + length xs) (ar_cells st a))\<rparr>)"
  using assms by (simp add: Let_def)

lemma slice_append_allocates:
  assumes "length (ar_cells st a) < n + length xs"
  shows "slice_append grow zero (a, n) xs st =
    ((ar_fresh st, n + length xs),
     st\<lparr>ar_cells := (ar_cells st)(ar_fresh st := take n (ar_cells st a) @ xs @
          replicate (grow (length (ar_cells st a)) (n + length xs)) zero),
        ar_fresh := ar_fresh st + 1\<rparr>)"
  using assms by (simp add: Let_def)

declare slice_append.simps [simp del]

text \<open>What \<open>append\<close> does to the slices of a set: those other than its first argument are read as before,
  and the slice it returns shares an array only with slices without room.\<close>

lemma slice_append_unshared:
  assumes sep: "room_unshared st sl A" and b: "b \<in> A"
    and app: "slice_append grow zero (sl b) xs st = (s', st')"
  shows "slice_read st' s' = slice_read st (sl b) @ xs" "ok_slice st' s'"
    and "l \<in> A \<Longrightarrow> l \<noteq> b \<Longrightarrow> slice_read st' (sl l) = slice_read st (sl l)"
    and "l \<in> A \<Longrightarrow> l \<noteq> b \<Longrightarrow> ok_slice st' (sl l)"
    and "l \<in> A \<Longrightarrow> l \<noteq> b \<Longrightarrow> full st (sl l) \<Longrightarrow> full st' (sl l)"
    and "l \<in> A \<Longrightarrow> l \<noteq> b \<Longrightarrow> fst (sl l) = fst s' \<Longrightarrow> full st' (sl l) \<and> full st' s'"
proof -
  obtain a n where ab: "sl b = (a, n)" by (cases "sl b")
  note eqs = slice_append_fits[of n xs st a grow zero] slice_append_allocates[of st a n xs grow zero]
  have ok: "ok_slice st (sl i)" if "i \<in> A" for i using sep that by (auto simp: room_unshared_def)
  have shared: "full st (sl i)" if "i \<in> A" "k \<in> A" "k \<noteq> i" "fst (sl k) = fst (sl i)" for i k
    using sep that unfolding room_unshared_def by blast
  have n: "n \<le> length (ar_cells st a)" "a < ar_fresh st" using ok[OF b] ab by (auto simp: ok_slice_def)
  have "slice_read st' s' = slice_read st (sl b) @ xs \<and> ok_slice st' s' \<and>
    (\<forall>l \<in> A. l \<noteq> b \<longrightarrow> slice_read st' (sl l) = slice_read st (sl l) \<and> ok_slice st' (sl l) \<and>
       (full st (sl l) \<longrightarrow> full st' (sl l)) \<and> (fst (sl l) = fst s' \<longrightarrow> full st' (sl l) \<and> full st' s'))"
  proof (cases "n + length xs \<le> length (ar_cells st a)")
    case fits: True
    show ?thesis
    proof (cases "xs = []")
      case True
      then have "(s', st') = ((a, n), st\<lparr>ar_cells := (ar_cells st)(a := take n (ar_cells st a) @ drop n (ar_cells st a))\<rparr>)"
        using app eqs(1)[OF fits] ab by simp
      then have "st' = st" "s' = sl b" using ab by simp_all
      moreover have "full st (sl l) \<and> full st (sl b)" if "l \<in> A" "l \<noteq> b" "fst (sl l) = fst (sl b)" for l
        using shared[of l b] shared[of b l] that b by simp
      ultimately show ?thesis using True b ok by simp
    next
      case False
      then have "\<not> full st (sl b)" using fits ab by (auto simp: full_def)
      then have "\<forall>l \<in> A. l \<noteq> b \<longrightarrow> fst (sl l) \<noteq> a" using shared[OF b] ab by (metis fst_conv)
      moreover have "s' = (a, n + length xs)"
        and "st' = st\<lparr>ar_cells := (ar_cells st)(a := take n (ar_cells st a) @ xs @ drop (n + length xs) (ar_cells st a))\<rparr>"
        using app ab eqs(1)[OF fits] by simp_all
      moreover have "slice_read st' (sl l) = slice_read st (sl l) \<and> ok_slice st' (sl l) \<and> full st' (sl l) = full st (sl l)"
        if "l \<in> A" "fst (sl l) \<noteq> a" for l
        using that ok[OF that(1)] calculation by (cases "sl l") (auto simp: ok_slice_def full_def)
      ultimately show ?thesis using fits n ab by (auto simp: ok_slice_def)
    qed
  next
    case False
    then have s': "s' = (ar_fresh st, n + length xs)"
      and st': "ar_fresh st' = ar_fresh st + 1" "ar_cells st' (ar_fresh st) = take n (ar_cells st a) @ xs @
             replicate (grow (length (ar_cells st a)) (n + length xs)) zero"
        "\<And>x. x \<noteq> ar_fresh st \<Longrightarrow> ar_cells st' x = ar_cells st x"
      using app ab eqs(2) False by auto
    have "slice_read st' (sl l) = slice_read st (sl l) \<and> ok_slice st' (sl l) \<and> full st' (sl l) = full st (sl l) \<and>
        fst (sl l) \<noteq> fst s'" if "l \<in> A" for l
      using ok[OF that] s' st' by (cases "sl l") (auto simp: ok_slice_def full_def)
    moreover have "slice_read st' s' = slice_read st (sl b) @ xs" "ok_slice st' s'"
      using n s' st' ab by (simp_all add: ok_slice_def)
    ultimately show ?thesis by blast
  qed
  then show "slice_read st' s' = slice_read st (sl b) @ xs" "ok_slice st' s'"
    and "l \<in> A \<Longrightarrow> l \<noteq> b \<Longrightarrow> slice_read st' (sl l) = slice_read st (sl l)"
    and "l \<in> A \<Longrightarrow> l \<noteq> b \<Longrightarrow> ok_slice st' (sl l)"
    and "l \<in> A \<Longrightarrow> l \<noteq> b \<Longrightarrow> full st (sl l) \<Longrightarrow> full st' (sl l)"
    and "l \<in> A \<Longrightarrow> l \<noteq> b \<Longrightarrow> fst (sl l) = fst s' \<Longrightarrow> full st' (sl l) \<and> full st' s'"
    by blast+
qed

text \<open>The slice takes the place of one of two slices, and the other is not looked at any more.\<close>

lemma room_unshared_append:
  assumes "room_unshared st sl A" and "b \<in> {i, j}" and "i \<in> A" and "j \<in> A"
    and "slice_append grow zero (sl b) xs st = (s', st')" and "i \<noteq> j"
  shows "room_unshared st' (sl(j := s')) (A - {i})"
proof -
  have b: "b \<in> A" using assms(2-4) by auto
  note app = slice_append_unshared[OF assms(1) b assms(5)]
  have out: "l \<in> A \<and> l \<noteq> b" if "l \<in> A - {i}" "l \<noteq> j" for l using that assms(2) by auto
  show ?thesis unfolding room_unshared_def
  proof (intro ballI conjI)
    fix l assume l: "l \<in> A - {i}"
    show "ok_slice st' ((sl(j := s')) l)" using app(2) app(4)[of l] out[OF l] by (cases "l = j") simp_all
    show "full st' ((sl(j := s')) l) \<or>
        (\<forall>m \<in> A - {i}. m \<noteq> l \<longrightarrow> fst ((sl(j := s')) m) \<noteq> fst ((sl(j := s')) l))"
    proof (cases "l = j")
      case True
      have "full st' s' \<or> fst (sl m) \<noteq> fst s'" if "m \<in> A - {i}" "m \<noteq> j" for m
        using app(6)[of m] out[OF that] by blast
      then show ?thesis using True by (metis fun_upd_apply)
    next
      case False
      note ol = out[OF l False]
      have "full st (sl l) \<or> (\<forall>m \<in> A. m \<noteq> l \<longrightarrow> fst (sl m) \<noteq> fst (sl l))"
        using assms(1) ol by (auto simp: room_unshared_def)
      then show ?thesis
      proof
        assume "full st (sl l)"
        then show ?thesis using app(5)[of l] ol False by simp
      next
        assume un: "\<forall>m \<in> A. m \<noteq> l \<longrightarrow> fst (sl m) \<noteq> fst (sl l)"
        show ?thesis using app(6)[of l] ol un False by (metis Diff_iff fun_upd_apply)
      qed
    qed
  qed
qed

section \<open>Merging\<close>

lemma room_unshared_subset: "room_unshared st sl A \<Longrightarrow> B \<subseteq> A \<Longrightarrow> room_unshared st sl B"
  unfolding room_unshared_def by blast

lemma room_unshared_cong:
  "(\<And>i. i \<in> A \<Longrightarrow> sl i = sl' i) \<Longrightarrow> room_unshared st sl A = room_unshared st sl' A"
  unfolding room_unshared_def by auto

lemma group_key_read [simp]: "group_key (read_group st sg) = group_key (sg_group sg)"
  by (simp add: group_key_def read_group_def)

text \<open>Whether groups are merged does not depend on their commands.\<close>

lemma doMerge_commands:
  "doMerge (g\<lparr>g_Commands := xs\<rparr>) (h\<lparr>g_Commands := ys\<rparr>) =
     (fst (doMerge g h),
      (snd (doMerge g h))\<lparr>g_Commands :=
         (if \<not> fst (doMerge g h) then xs else if g_SortHint h \<le> g_SortHint g then xs @ ys else ys @ xs)\<rparr>)"
  by (auto simp: doMerge_def Let_def)

lemma shared_doMerge_sim:
  fixes groups :: "'k shared_group list"
  assumes sep: "room_unshared st (\<lambda>l. sg_slice (groups ! l)) A" and ij: "i \<in> A" "j \<in> A" "i \<noteq> j"
    and inside: "\<forall>l \<in> A. l < length groups"
    and merge: "shared_doMerge grow (groups ! j) (groups ! i) st = (ok, cg, st')"
  shows "room_unshared st' (\<lambda>l. sg_slice (groups[j := cg] ! l)) (A - {i})"
    and "read_group st' cg = snd (doMerge (read_group st (groups ! j)) (read_group st (groups ! i)))"
    and "\<forall>l \<in> A - {i}. l \<noteq> j \<longrightarrow> read_group st' (groups ! l) = read_group st (groups ! l)"
proof -
  let ?sl = "\<lambda>l. sg_slice (groups ! l)"
  let ?g = "sg_group (groups ! j)" and ?h = "sg_group (groups ! i)"
  obtain m g where mg: "doMerge ?g ?h = (m, g)" by (cases "doMerge ?g ?h")
  have "room_unshared st' (\<lambda>l. sg_slice (groups[j := cg] ! l)) (A - {i}) \<and>
      read_group st' cg = snd (doMerge (read_group st (groups ! j)) (read_group st (groups ! i))) \<and>
      (\<forall>l \<in> A - {i}. l \<noteq> j \<longrightarrow> read_group st' (groups ! l) = read_group st (groups ! l))"
  proof (cases m)
    case False
    then have same: "cg = groups ! j" "st' = st" using merge mg by (simp_all add: shared_doMerge_def)
    have "g = ?g" using mg False by (auto simp: doMerge_def Let_def split: if_splits)
    then have "read_group st' cg = snd (doMerge (read_group st (groups ! j)) (read_group st (groups ! i)))"
      using mg False same by (simp add: read_group_def doMerge_commands)
    moreover have "groups[j := cg] = groups" using same by simp
    ultimately show ?thesis using same room_unshared_subset[OF sep, of "A - {i}"] by auto
  next
    case True
    define b where "b = (if g_SortHint ?h \<le> g_SortHint ?g then j else i)"
    define xs where "xs = slice_read st (?sl (if b = j then i else j))"
    have b: "b \<in> {i, j}" "b \<in> A" using ij by (auto simp: b_def)
    obtain s' where app: "slice_append grow empty_Command (?sl b) xs st = (s', st')"
      and cg: "cg = \<lparr>sg_group = g, sg_slice = s'\<rparr>"
    proof -
      obtain s' u where app: "slice_append grow empty_Command (?sl b) xs st = (s', u)" by (rule prod.exhaust)
      then have "shared_doMerge grow (groups ! j) (groups ! i) st = (True, \<lparr>sg_group = g, sg_slice = s'\<rparr>, u)"
        using mg True ij(3) unfolding shared_doMerge_def b_def xs_def by (simp split: if_splits)
      then show thesis using that app merge by simp
    qed
    note a = slice_append_unshared[OF sep b(2) app]
    have "room_unshared st' (?sl(j := s')) (A - {i})"
      by (rule room_unshared_append[OF sep b(1) ij(1,2) app ij(3)])
    moreover have "(?sl(j := s')) l = sg_slice (groups[j := cg] ! l)" if "l \<in> A - {i}" for l
      using that inside cg by (auto simp: nth_list_update)
    ultimately have "room_unshared st' (\<lambda>l. sg_slice (groups[j := cg] ! l)) (A - {i})"
      using room_unshared_cong[of "A - {i}" "?sl(j := s')" "\<lambda>l. sg_slice (groups[j := cg] ! l)" st'] by simp
    moreover have "read_group st' cg = snd (doMerge (read_group st (groups ! j)) (read_group st (groups ! i)))"
      using mg True a(1) cg ij(3) by (simp add: read_group_def doMerge_commands xs_def b_def split: if_splits)
    moreover have "read_group st' (groups ! l) = read_group st (groups ! l)" if "l \<in> A - {i}" "l \<noteq> j" for l
      using a(3)[of l] that b(1) by (auto simp: read_group_def)
    ultimately show ?thesis by blast
  qed
  then show "room_unshared st' (\<lambda>l. sg_slice (groups[j := cg] ! l)) (A - {i})"
    and "read_group st' cg = snd (doMerge (read_group st (groups ! j)) (read_group st (groups ! i)))"
    and "\<forall>l \<in> A - {i}. l \<noteq> j \<longrightarrow> read_group st' (groups ! l) = read_group st (groups ! l)"
    by blast+
qed

text \<open>The groups that the loop may still look at: those in the index and those that it has not reached.
  These are read as the values that the loop over values has.\<close>

definition live :: "(string \<times> nat) list \<Rightarrow> nat \<Rightarrow> nat \<Rightarrow> nat set" where
  "live index k n = snd ` set index \<union> {k..<n}"

definition merge_sim ::
    "'k Command arrays \<Rightarrow> 'k shared_group list \<Rightarrow> 'k Group list \<Rightarrow> (string \<times> nat) list \<Rightarrow> nat \<Rightarrow> nat \<Rightarrow> bool" where
  "merge_sim st groups values_of index k n \<longleftrightarrow>
     length groups = n \<and> length values_of = n \<and> (\<forall>j \<in> snd ` set index. j < k) \<and>
     room_unshared st (\<lambda>l. sg_slice (groups ! l)) (live index k n) \<and>
     (\<forall>l \<in> live index k n. read_group st (groups ! l) = values_of ! l)"

lemma shared_merge_loop_sim:
  assumes "shared_merge_loop grow [k..<n] groups index merged st = (groups', index', merged', st')"
    and "merge_sim st groups vs index k n" and "k \<le> n"
  shows "\<exists>vs'. merge_loop [k..<n] vs index merged = (vs', index', merged') \<and> merge_sim st' groups' vs' index' n n"
  using assms
proof (induction "n - k" arbitrary: k groups vs index merged st)
  case 0
  then show ?case by simp
next
  case (Suc d)
  then have k: "k < n" by simp
  then have upt: "[k..<n] = k # [Suc k..<n]" by (rule upt_conv_Cons)
  have less: "d = n - Suc k" and next_k: "Suc k \<le> n" using Suc.hyps(2) k by auto
  have sim: "length groups = n" "length vs = n" "\<forall>j \<in> snd ` set index. j < k"
      "room_unshared st (\<lambda>l. sg_slice (groups ! l)) (live index k n)"
      "\<forall>l \<in> live index k n. read_group st (groups ! l) = vs ! l"
    using Suc.prems(2) by (auto simp: merge_sim_def)
  have kl: "k \<in> live index k n" using k by (simp add: live_def)
  then have key: "group_key (vs ! k) = group_key (sg_group (groups ! k))" using sim(5) group_key_read by metis
  show ?case
  proof (cases "map_of index (group_key (sg_group (groups ! k)))")
    case None
    let ?index = "index @ [(group_key (sg_group (groups ! k)), k)]"
    have lv: "live ?index (Suc k) n = live index k n" using k by (auto simp: live_def)
    have "merge_sim st groups vs ?index (Suc k) n" using sim k unfolding merge_sim_def lv by auto
    moreover have "shared_merge_loop grow [Suc k..<n] groups ?index merged st = (groups', index', merged', st')"
      using Suc.prems(1) None upt by (simp add: Let_def)
    ultimately obtain vs' where "merge_loop [Suc k..<n] vs ?index merged = (vs', index', merged')"
        "merge_sim st' groups' vs' index' n n"
      using Suc.hyps(1)[OF less] next_k by blast
    moreover have "merge_loop [k..<n] vs index merged = merge_loop [Suc k..<n] vs ?index merged"
      using None by (simp add: upt key Let_def)
    ultimately show ?thesis by simp
  next
    case (Some j)
    then have "(group_key (sg_group (groups ! k)), j) \<in> set index" by (rule map_of_SomeD)
    then have js: "j \<in> snd ` set index" by force
    then have j: "j < k" "j \<in> live index k n" using sim(3) by (auto simp: live_def)
    obtain ok cg st1 where dm: "shared_doMerge grow (groups ! j) (groups ! k) st = (ok, cg, st1)"
      by (cases "shared_doMerge grow (groups ! j) (groups ! k) st") auto
    let ?v = "snd (doMerge (vs ! j) (vs ! k))"
    have lv: "live index (Suc k) n = live index k n - {k}" using sim(3) k by (auto simp: live_def)
    have inside: "\<forall>l \<in> live index k n. l < length groups" using sim(1,3) k by (auto simp: live_def)
    note step = shared_doMerge_sim[OF sim(4) kl j(2) _ inside dm]
    have "k \<noteq> j" using j(1) by simp
    note step = step[OF this]
    have "read_group st1 (groups[j := cg] ! l) = vs[j := ?v] ! l" if "l \<in> live index k n - {k}" for l
    proof (cases "l = j")
      case True
      then show ?thesis using step(2) sim(1,2,5) kl j k by simp
    next
      case False
      then show ?thesis using step(3) sim(5) that by auto
    qed
    then have "merge_sim st1 (groups[j := cg]) (vs[j := ?v]) index (Suc k) n"
      using sim step(1) unfolding merge_sim_def lv by auto
    moreover have "shared_merge_loop grow [Suc k..<n] (groups[j := cg]) index True st1 = (groups', index', merged', st')"
      using Suc.prems(1) Some upt dm by (simp add: Let_def)
    ultimately obtain vs' where "merge_loop [Suc k..<n] (vs[j := ?v]) index True = (vs', index', merged')"
        "merge_sim st' groups' vs' index' n n"
      using Suc.hyps(1)[OF less] next_k by blast
    moreover have "merge_loop [k..<n] vs index merged = merge_loop [Suc k..<n] (vs[j := ?v]) index True"
      using Some by (simp add: upt key Let_def)
    ultimately show ?thesis by simp
  qed
qed

section \<open>Sorting in place\<close>

lemma cmp_ok_command_cmp: "cmp_ok command_cmp"
  unfolding cmp_ok_def command_cmp_def Let_def by (auto simp: compare_def split: if_splits)

lemma slice_read_sort:
  "slice_read (slice_sort cmp r st) s =
     (if s = r then sort_cmp cmp (slice_read st s)
      else if fst s = fst r then take (snd s) (sort_cmp cmp (slice_read st r) @ drop (snd r) (ar_cells st (fst r)))
      else slice_read st s)"
  by (cases s; cases r) auto

text \<open>Slices that share an array and have the same length can be sorted one after the other.\<close>

lemma fold_slice_sort:
  assumes "cmp_ok cmp" and "\<forall>r \<in> set rs. fst r = fst s \<longrightarrow> r = s"
  shows "slice_read (fold (slice_sort cmp) rs st) s =
    (if s \<in> set rs then sort_cmp cmp (slice_read st s) else slice_read st s)"
  using assms(2)
proof (induction rs arbitrary: st)
  case (Cons r rs)
  then have "slice_read (slice_sort cmp r st) s =
      (if s = r then sort_cmp cmp (slice_read st s) else slice_read st s)"
    unfolding slice_read_sort by auto
  moreover have "slice_read (fold (slice_sort cmp) rs st') s =
      (if s \<in> set rs then sort_cmp cmp (slice_read st' s) else slice_read st' s)" for st'
    using Cons by simp
  ultimately show ?case using sort_cmp_idem[OF assms(1)] by auto
qed simp

text \<open>Without a merge the loop changes nothing, and its index has every group.\<close>

lemma merge_loop_merged: "snd (snd (merge_loop idxs groups index True))"
  by (induction idxs arbitrary: groups index) (auto simp: Let_def split: option.splits)

lemma merge_loop_unmerged:
  "merge_loop idxs groups index False = (groups', index', False) \<Longrightarrow>
     groups' = groups \<and> set idxs \<union> snd ` set index \<subseteq> snd ` set index'"
proof (induction idxs arbitrary: index)
  case (Cons idx idxs)
  show ?case
  proof (cases "map_of index (group_key (groups ! idx))")
    case None
    then have "merge_loop idxs groups (index @ [(group_key (groups ! idx), idx)]) False = (groups', index', False)"
      using Cons.prems by (simp add: Let_def)
    from Cons.IH[OF this] show ?thesis by auto
  next
    case (Some j)
    then have "merge_loop idxs (groups[j := snd (doMerge (groups ! j) (groups ! idx))]) index True = (groups', index', False)"
      using Cons.prems by (simp add: Let_def)
    then show ?thesis using merge_loop_merged by (metis snd_conv)
  qed
qed simp

section \<open>Groups as values\<close>

text \<open>When the configuration has been read and validated: the array of a group that has aliases has no
  room, and neither has one that two groups share.\<close>

definition own_arrays :: "'k Command arrays \<Rightarrow> 'k shared_group list \<Rightarrow> bool" where
  "own_arrays st sgs \<longleftrightarrow>
     (\<forall>sg \<in> set sgs. ok_slice st (sg_slice sg) \<and>
        (full st (sg_slice sg) \<or>
         g_Aliases (sg_group sg) = [] \<and> count_list (map (fst \<circ> sg_slice) sgs) (fst (sg_slice sg)) = 1))"

lemma count_list_1_nth: "count_list xs (xs ! i) \<le> 1 \<Longrightarrow> i < length xs \<Longrightarrow> j < length xs \<Longrightarrow> i \<noteq> j \<Longrightarrow> xs ! j \<noteq> xs ! i"
proof (induction xs arbitrary: i j)
  case (Cons x xs)
  have none: "count_list xs y = 0 \<longleftrightarrow> y \<notin> set xs" for y by (simp add: count_list_0_iff)
  show ?case
  proof (cases i)
    case 0
    then show ?thesis using Cons.prems none[of x] by (cases j) auto
  next
    case (Suc i')
    show ?thesis
    proof (cases j)
      case 0
      have "xs ! i' \<in> set xs" using Suc Cons.prems(2) by simp
      then have "0 < count_list xs (xs ! i')" using none[of "xs ! i'"] by simp
      then show ?thesis using 0 Suc Cons.prems(1) by (auto split: if_splits)
    next
      case (Suc j')
      then show ?thesis using \<open>i = Suc i'\<close> Cons.IH[of i' j'] Cons.prems by (auto split: if_splits)
    qed
  qed
qed simp

lemma set_shared_with_aliases:
  "sg \<in> set (shared_with_aliases hostname conf sgs) \<Longrightarrow>
     \<exists>sg' \<in> set sgs. sg_slice sg = sg_slice sg' \<and> (g_Aliases (sg_group sg') = [] \<longrightarrow> sg = sg')"
  by (auto simp: shared_with_aliases_def split: if_splits)

lemma count_shared_with_aliases:
  assumes "\<forall>sg \<in> set sgs. fst (sg_slice sg) = a \<longrightarrow> g_Aliases (sg_group sg) = []"
  shows "count_list (map (fst \<circ> sg_slice) (shared_with_aliases hostname conf sgs)) a \<le>
    count_list (map (fst \<circ> sg_slice) sgs) a"
  using assms
proof (induction sgs)
  case (Cons sg sgs)
  define copies where "copies = (if local_ssh hostname conf (sg_group sg) then []
         else sg # map (\<lambda>alias. sg\<lparr>sg_group := (sg_group sg)\<lparr>g_Aliases := [], g_Name := alias\<rparr>\<rparr>)
                     (g_Aliases (sg_group sg)))"
  have "count_list (map (fst \<circ> sg_slice) copies) a \<le> count_list [fst (sg_slice sg)] a"
    using Cons.prems by (auto simp: copies_def count_list_0_iff)
  moreover have "shared_with_aliases hostname conf (sg # sgs) = copies @ shared_with_aliases hostname conf sgs"
    by (simp add: shared_with_aliases_def copies_def)
  moreover have "count_list (map (fst \<circ> sg_slice) (shared_with_aliases hostname conf sgs)) a \<le>
      count_list (map (fst \<circ> sg_slice) sgs) a"
    by (rule Cons.IH) (use Cons.prems in simp)
  ultimately show ?case by (simp add: comp_def split: if_splits)
qed (simp add: shared_with_aliases_def)

lemma own_arrays_unshared:
  assumes "own_arrays st sgs" and "ws = shared_with_aliases hostname conf sgs"
  shows "room_unshared st (\<lambda>i. sg_slice (ws ! i)) {0..<length ws}"
  unfolding room_unshared_def
proof (intro ballI conjI)
  fix i assume "i \<in> {0..<length ws}"
  then have i: "i < length ws" by simp
  then obtain sg where sg: "sg \<in> set sgs" "sg_slice (ws ! i) = sg_slice sg"
    using set_shared_with_aliases assms(2) nth_mem by blast
  then show "ok_slice st (sg_slice (ws ! i))" using assms(1) by (auto simp: own_arrays_def)
  let ?f = "fst \<circ> sg_slice"
  show "full st (sg_slice (ws ! i)) \<or>
      (\<forall>j \<in> {0..<length ws}. j \<noteq> i \<longrightarrow> fst (sg_slice (ws ! j)) \<noteq> fst (sg_slice (ws ! i)))"
  proof (cases "full st (sg_slice (ws ! i))")
    case False
    have "g_Aliases (sg_group sg') = []" if mem: "sg' \<in> set sgs" and fs: "?f sg' = ?f sg" for sg'
    proof -
      have one: "count_list (map ?f sgs) (?f sg) = 1" and nf: "\<not> full st (sg_slice sg)"
        using assms(1) sg False by (auto simp: own_arrays_def)
      obtain x where x: "x < length sgs" "sgs ! x = sg" using sg(1) unfolding in_set_conv_nth by blast
      obtain y where y: "y < length sgs" "sgs ! y = sg'" using mem unfolding in_set_conv_nth by blast
      note xy = x y
      have nth: "map ?f sgs ! x = ?f sg" "map ?f sgs ! y = ?f sg" using xy fs by simp_all
      have "x = y"
      proof (rule ccontr)
        assume "x \<noteq> y"
        moreover have "count_list (map ?f sgs) (map ?f sgs ! x) \<le> 1" unfolding nth one by (rule order_refl)
        ultimately have "map ?f sgs ! y \<noteq> map ?f sgs ! x"
          using count_list_1_nth[of "map ?f sgs" x y] xy(1,3) unfolding length_map by blast
        then show False unfolding nth by (rule notE) (rule refl)
      qed
      then show ?thesis using xy assms(1) sg nf by (auto simp: own_arrays_def)
    qed
    then have "count_list (map ?f ws) (?f sg) \<le> count_list (map ?f sgs) (?f sg)"
      using count_shared_with_aliases[of sgs "?f sg"] assms(2) by simp
    also have "\<dots> = 1" using assms(1) sg False by (auto simp: own_arrays_def)
    finally have "count_list (map ?f ws) (map ?f ws ! i) \<le> 1" using i sg(2) by simp
    then show ?thesis using count_list_1_nth[of "map ?f ws" i] i by fastforce
  qed simp
qed

definition with_commands :: "'k Configuration \<Rightarrow> 'k Command arrays \<Rightarrow> 'k shared_group list \<Rightarrow> 'k Configuration" where
  "with_commands conf st sgs = conf\<lparr>c_Commands := map (read_group st) sgs\<rparr>"

lemma read_shared_with_aliases:
  "map (read_group st) (shared_with_aliases hostname conf sgs) = with_aliases hostname (with_commands conf st sgs)"
proof -
  have "map (read_group st) (shared_with_aliases hostname conf sgs) =
      concat (map (\<lambda>cg. if local_ssh hostname conf cg then []
         else cg # map (\<lambda>alias. cg\<lparr>g_Aliases := [], g_Name := alias\<rparr>) (g_Aliases cg)) (map (read_group st) sgs))"
    by (induction sgs)
      (auto simp: shared_with_aliases_def read_group_def local_ssh_def comp_def)
  moreover have "local_ssh hostname (with_commands conf st sgs) = local_ssh hostname conf"
    by (simp add: with_commands_def local_ssh_def fun_eq_iff split: option.split)
  moreover have "c_Commands (with_commands conf st sgs) = map (read_group st) sgs" by (simp add: with_commands_def)
  ultimately show ?thesis unfolding with_aliases_def by simp
qed

text \<open>The groups that result are read as those of \<open>Subexec_Conf\<close>.\<close>

lemma shared_resolve_read:
  assumes own: "own_arrays st sgs" and perm: "\<And>xs. mset (map_order xs) = mset xs"
    and run: "shared_resolve grow same_host map_order hostname conf sgs st = (gs, st')"
  shows "map (read_group st') gs =
    c_Commands (resolveAliasesAndMergeGroups same_host map_order hostname (with_commands conf st sgs))"
proof (cases "sgs = []")
  case True
  then show ?thesis using run by (simp add: shared_resolve_def with_commands_def resolveAliasesAndMergeGroups_def)
next
  case False
  define ws where "ws = shared_with_aliases hostname conf sgs"
  define vs where "vs = map (read_group st) ws"
  let ?n = "length ws"
  have vs: "with_aliases hostname (with_commands conf st sgs) = vs"
    by (simp add: vs_def ws_def read_shared_with_aliases)
  obtain groups index merged st1 where loop:
      "shared_merge_loop grow [0..<?n] ws [] False st = (groups, index, merged, st1)"
    by (metis prod_cases4)
  have "merge_sim st ws vs [] 0 ?n"
    using own_arrays_unshared[OF own ws_def] by (simp add: merge_sim_def live_def vs_def)
  then obtain vs' where vloop: "merge_loop [0..<?n] vs [] False = (vs', index, merged)"
      and sim: "merge_sim st1 groups vs' index ?n ?n"
    using shared_merge_loop_sim[OF loop] by blast
  have lv: "live index ?n ?n = snd ` set index" by (simp add: live_def)
  have lens: "length groups = ?n" "length vs' = ?n" "length vs = ?n"
    and sep: "room_unshared st1 (\<lambda>l. sg_slice (groups ! l)) (snd ` set index)"
    and all_same: "\<forall>l \<in> snd ` set index. read_group st1 (groups ! l) = vs' ! l"
    using sim by (auto simp: merge_sim_def lv vs_def)
  note same = all_same[rule_format]
  show ?thesis
  proof (cases merged)
    case False
    then have "set [0..<?n] \<subseteq> snd ` set index"
      using merge_loop_unmerged[of "[0..<?n]" vs "[]" vs' index] vloop by simp
    then have "map (read_group st1) groups = vs'"
      using lens same by (intro nth_equalityI) (auto simp: subset_iff)
    moreover have "gs = groups" "st' = st1"
      using run loop False \<open>sgs \<noteq> []\<close> by (simp_all add: shared_resolve_def ws_def)
    moreover have "c_Commands (with_commands conf st sgs) \<noteq> []" using \<open>sgs \<noteq> []\<close> by (simp add: with_commands_def)
    ultimately show ?thesis
      using vloop False lens by (simp add: resolveAliasesAndMergeGroups_def vs)
  next
    case True
    define sparse where "sparse = sort_cmp (\<lambda>a b. compare (snd a) (snd b)) (map_order index)"
    define rs where "rs = map (\<lambda>j. groups ! j) (map snd sparse)"
    define st2 where "st2 = fold (\<lambda>sg. slice_sort command_cmp (sg_slice sg)) rs st1"
    have "shared_resolve grow same_host map_order hostname conf sgs st =
        (stable_sort (\<lambda>a b. group_cmp same_host (read_group st2 a) (read_group st2 b)) rs, st2)"
      using True \<open>sgs \<noteq> []\<close> unfolding shared_resolve_def ws_def [symmetric] Let_def loop sparse_def rs_def st2_def
      by simp
    then have gs: "st' = fold (slice_sort command_cmp) (map sg_slice rs) st1"
        "gs = stable_sort (\<lambda>a b. group_cmp same_host (read_group st' a) (read_group st' b)) rs"
      using run by (simp_all add: st2_def fold_map comp_def)
    have "set sparse = set index" using perm[of index] by (metis mset_eq_setD set_sort_cmp sparse_def)
    then have idx: "set (map snd sparse) = snd ` set index" by simp
    have set_rs: "set rs = (\<lambda>j. groups ! j) ` (snd ` set index)" by (metis idx rs_def list.set_map)
    have eq: "sg_slice (groups ! j) = sg_slice (groups ! l)"
      if "j \<in> snd ` set index" "l \<in> snd ` set index" "fst (sg_slice (groups ! j)) = fst (sg_slice (groups ! l))" for j l
    proof (cases "j = l")
      case False
      then have "full st1 (sg_slice (groups ! j))" "full st1 (sg_slice (groups ! l))"
        using sep that unfolding room_unshared_def by metis+
      then show ?thesis using that(3) by (simp add: full_def prod_eq_iff)
    qed simp
    have srt: "read_group st' (groups ! j) = sort_commands (vs' ! j)" if "j \<in> snd ` set index" for j
    proof -
      have "\<forall>r \<in> set (map sg_slice rs). fst r = fst (sg_slice (groups ! j)) \<longrightarrow> r = sg_slice (groups ! j)"
        using eq[OF _ that] set_rs by auto
      moreover have "sg_slice (groups ! j) \<in> set (map sg_slice rs)" using that set_rs by auto
      ultimately have "slice_read st' (sg_slice (groups ! j)) = sort_cmp command_cmp (slice_read st1 (sg_slice (groups ! j)))"
        unfolding gs(1)
        using fold_slice_sort[OF cmp_ok_command_cmp, of "map sg_slice rs" "sg_slice (groups ! j)" st1]
        by (simp only: if_True)
      then show ?thesis unfolding same[OF that, symmetric] by (simp add: read_group_def sort_commands_def)
    qed
    have "\<forall>j \<in> set (map snd sparse). read_group st' (groups ! j) = sort_commands (vs' ! j)"
      using srt unfolding idx by blast
    then have "map (read_group st') rs = map sort_commands (map (\<lambda>j. vs' ! j) (map snd sparse))"
      by (simp add: rs_def)
    moreover have "map (read_group st') gs = stable_sort (group_cmp same_host) (map (read_group st') rs)"
      unfolding gs(2) by (rule map_stable_sort)
    moreover have "c_Commands (with_commands conf st sgs) \<noteq> []" using \<open>sgs \<noteq> []\<close> by (simp add: with_commands_def)
    ultimately show ?thesis
      using vloop True lens by (simp add: resolveAliasesAndMergeGroups_def vs Let_def sparse_def)
  qed
qed

text \<open>C5: when each array that has room belongs to one group and no alias is a second name for it, merging
  the groups in place is merging them as values: whatever the runtime allocates and in whatever
  order it walks the index, the groups that are left, read from the arrays at the end, are those
  of the merge over values, in the same order.\<close>

theorem merging_in_place_refines_values:
  assumes "own_arrays st sgs" and "\<And>xs. mset (map_order xs) = mset xs"
  shows "case shared_resolve grow same_host map_order hostname conf sgs st of (gs, st') \<Rightarrow>
    map (read_group st') gs =
    c_Commands (resolveAliasesAndMergeGroups same_host map_order hostname (with_commands conf st sgs))"
  by (cases "shared_resolve grow same_host map_order hostname conf sgs st")
    (simp add: shared_resolve_read[OF assms])

text \<open>A group that runs over ssh on this very host, which is not kept unless the settings ask for it, and
  the names under which a group can be called: its own and its aliases.\<close>

definition this_host_only :: "string \<Rightarrow> 'k Configuration \<Rightarrow> 'k Group \<Rightarrow> bool" where
  "this_host_only hostname conf g \<longleftrightarrow>
     hostname \<noteq> [] \<and> g_Host g = Some hostname \<and> c_IncludeLocalSHH conf \<noteq> Some True"

definition called :: "'k Group \<Rightarrow> string list" where
  "called g = g_Name g # g_Aliases g"

lemma local_ssh_iff: "local_ssh hostname conf g \<longleftrightarrow> this_host_only hostname conf g"
  by (cases "c_IncludeLocalSHH conf") (auto simp: local_ssh_def this_host_only_def split: option.splits)

lemma set_called_groups:
  "g \<in> set (map (read_group st) (shared_with_aliases hostname conf sgs)) \<Longrightarrow>
     \<exists>sg \<in> set sgs. \<not> this_host_only hostname conf (sg_group sg) \<and>
       g_Category g = g_Category (sg_group sg) \<and> g_Name g \<in> set (called (sg_group sg))"
  by (auto simp: shared_with_aliases_def read_group_def called_def local_ssh_iff split: if_splits)

lemma named_commands_called:
  "mset (named_commands n (map (read_group st) (shared_with_aliases hostname conf sgs))) =
   (\<Sum>sg \<leftarrow> filter (\<lambda>sg. \<not> this_host_only hostname conf (sg_group sg)) sgs.
      \<Sum>nm \<leftarrow> called (sg_group sg).
        if DotJoin [g_Category (sg_group sg), nm] = n then mset (slice_read st (sg_slice sg)) else {#})"
proof (induction sgs)
  case (Cons sg sgs)
  have "mset (named_commands n (map (\<lambda>alias. read_group st
          (sg\<lparr>sg_group := (sg_group sg)\<lparr>g_Aliases := [], g_Name := alias\<rparr>\<rparr>)) as)) =
      (\<Sum>nm \<leftarrow> as. if DotJoin [g_Category (sg_group sg), nm] = n then mset (slice_read st (sg_slice sg)) else {#})"
    for as by (induction as) (auto simp: read_group_def group_key_def)
  with Cons show ?case
    by (simp add: shared_with_aliases_def local_ssh_iff called_def comp_def)
       (simp add: read_group_def group_key_def)
qed (simp add: shared_with_aliases_def)

text \<open>C4: expanding the aliases and merging the groups loses no command and invents none. A group whose
  host is this one is dropped, unless the settings ask for such groups; any other group can be
  called by its name and by each of its aliases. Under the hypotheses that two kept groups which
  can be called by the same full name (category and name joined with a dot) agree on both
  parts, and that an array with room belongs to one group and that one has no alias, the groups that result have pairwise different full
  names, and under every full name the commands found in the arrays at the end are, with their
  multiplicity, those of all kept groups that can be called by it, once for each way of calling
  them, whatever the runtime allocates and in whatever order it walks the index.\<close>

theorem merge_conserves_commands:
  assumes "own_arrays st sgs" and "\<And>xs. mset (map_order xs) = mset xs"
    and "\<And>g h x y. g \<in> sg_group ` set sgs \<Longrightarrow> h \<in> sg_group ` set sgs \<Longrightarrow>
      \<not> this_host_only hostname conf g \<Longrightarrow> \<not> this_host_only hostname conf h \<Longrightarrow>
      x \<in> set (called g) \<Longrightarrow> y \<in> set (called h) \<Longrightarrow>
      DotJoin [g_Category g, x] = DotJoin [g_Category h, y] \<Longrightarrow> g_Category g = g_Category h \<and> x = y"
  shows "case shared_resolve grow same_host map_order hostname conf sgs st of (gs, st') \<Rightarrow>
    distinct (map (\<lambda>sg. DotJoin [g_Category (sg_group sg), g_Name (sg_group sg)]) gs) \<and>
    (\<forall>n. mset (concat (map (\<lambda>sg. slice_read st' (sg_slice sg))
              (filter (\<lambda>sg. DotJoin [g_Category (sg_group sg), g_Name (sg_group sg)] = n) gs))) =
       (\<Sum>sg \<leftarrow> filter (\<lambda>sg. \<not> this_host_only hostname conf (sg_group sg)) sgs.
          \<Sum>nm \<leftarrow> called (sg_group sg).
            if DotJoin [g_Category (sg_group sg), nm] = n then mset (slice_read st (sg_slice sg)) else {#}))"
proof (cases "shared_resolve grow same_host map_order hostname conf sgs st")
  case (Pair gs st')
  have "mergeable (map (read_group st) (shared_with_aliases hostname conf sgs))"
    unfolding mergeable_def
  proof (intro ballI impI)
    fix g h
    assume g: "g \<in> set (map (read_group st) (shared_with_aliases hostname conf sgs))"
      and h: "h \<in> set (map (read_group st) (shared_with_aliases hostname conf sgs))"
      and eq: "group_key g = group_key h"
    from set_called_groups[OF g] obtain a where a: "a \<in> sg_group ` set sgs"
      "\<not> this_host_only hostname conf a" "g_Category g = g_Category a" "g_Name g \<in> set (called a)" by blast
    from set_called_groups[OF h] obtain b where b: "b \<in> sg_group ` set sgs"
      "\<not> this_host_only hostname conf b" "g_Category h = g_Category b" "g_Name h \<in> set (called b)" by blast
    show "g_Category g = g_Category h \<and> g_Name g = g_Name h"
      using assms(3)[OF a(1) b(1) a(2) b(2) a(4) b(4)] eq a(3) b(3) by (simp add: group_key_def)
  qed
  moreover have "c_Commands (with_commands conf st sgs) \<noteq> []" if "sgs \<noteq> []"
    using that by (simp add: with_commands_def)
  ultimately have vals: "distinct (map group_key (map (read_group st') gs)) \<and>
      (\<forall>n. mset (named_commands n (map (read_group st') gs)) =
           mset (named_commands n (map (read_group st) (shared_with_aliases hostname conf sgs))))" if "sgs \<noteq> []"
    using that values_conserve_commands[OF _ assms(2), of hostname "with_commands conf st sgs" same_host]
    unfolding Let_def shared_resolve_read[OF assms(1,2) Pair, symmetric] read_shared_with_aliases by blast
  have nc: "named_commands n (map (read_group st') gs) = concat (map (\<lambda>sg. slice_read st' (sg_slice sg))
      (filter (\<lambda>sg. DotJoin [g_Category (sg_group sg), g_Name (sg_group sg)] = n) gs))" for n
    by (induction gs) (simp_all add: read_group_def group_key_def)
  have gk: "map group_key (map (read_group st') gs) =
      map (\<lambda>sg. DotJoin [g_Category (sg_group sg), g_Name (sg_group sg)]) gs"
    by (simp add: group_key_def read_group_def)
  show ?thesis
  proof (cases "sgs = []")
    case True
    with Pair show ?thesis by (auto simp: shared_resolve_def)
  next
    case False
    from vals[OF this] show ?thesis unfolding Pair named_commands_called nc gk by simp
  qed
qed

text \<open>Two groups of the name \<open>repo\<close>, the first with the alias \<open>r\<close> and with an array that may have room.\<close>

definition demo_arrays :: "nat \<Rightarrow> nat Command arrays" where
  "demo_arrays room =
     \<lparr>ar_cells = (\<lambda>a. if a = 0 then [demo_cmd ''status'' ''git status'', demo_cmd ''pull'' ''git pull''] @
                               replicate room empty_Command
                    else if a = 1 then [demo_cmd ''fetch'' ''git fetch''] else []),
      ar_fresh = 2\<rparr>"

definition demo_groups :: "nat shared_group list" where
  "demo_groups =
     [\<lparr>sg_group = empty_Group\<lparr>g_Name := ''repo'', g_Aliases := [''r'']\<rparr>, sg_slice = (0, 2)\<rparr>,
      \<lparr>sg_group = empty_Group\<lparr>g_Name := ''repo''\<rparr>, sg_slice = (1, 1)\<rparr>]"

definition demo_resolve :: "nat \<Rightarrow> (string \<times> string list) list" where
  "demo_resolve room =
     (case shared_resolve (\<lambda>c n. n) (\<lambda>g h. True) rev ''me'' empty_Configuration demo_groups (demo_arrays room) of
        (gs, st') \<Rightarrow> map (\<lambda>sg. (g_Name (sg_group sg), map cmd_Name (slice_read st' (sg_slice sg)))) gs)"

lemma demo_own: "own_arrays (demo_arrays 0) demo_groups"
  by (simp add: own_arrays_def demo_arrays_def demo_groups_def ok_slice_def full_def)

theorem merging_in_place_refines_values_witness:
  "(case shared_resolve (\<lambda>c n. n) (\<lambda>g h. True) rev ''me'' empty_Configuration demo_groups (demo_arrays 0) of
      (gs, st') \<Rightarrow> map (read_group st') gs = c_Commands (resolveAliasesAndMergeGroups (\<lambda>g h. True) rev ''me''
        (with_commands empty_Configuration (demo_arrays 0) demo_groups))) \<and>
   demo_resolve 0 = [(''r'', [''pull'', ''status'']), (''repo'', [''fetch'', ''pull'', ''status''])]"
proof
  show "case shared_resolve (\<lambda>c n. n) (\<lambda>g h. True) rev ''me'' empty_Configuration demo_groups (demo_arrays 0) of
      (gs, st') \<Rightarrow> map (read_group st') gs = c_Commands (resolveAliasesAndMergeGroups (\<lambda>g h. True) rev ''me''
        (with_commands empty_Configuration (demo_arrays 0) demo_groups))"
    by (rule merging_in_place_refines_values[OF demo_own]) simp
  show "demo_resolve 0 = [(''r'', [''pull'', ''status'']), (''repo'', [''fetch'', ''pull'', ''status''])]"
    by code_simp
qed

theorem merge_conserves_commands_witness:
  "case shared_resolve (\<lambda>c n. n) (\<lambda>g h. True) rev ''me'' empty_Configuration demo_groups (demo_arrays 0) of
     (gs, st') \<Rightarrow>
       mset (concat (map (\<lambda>sg. slice_read st' (sg_slice sg))
         (filter (\<lambda>sg. DotJoin [g_Category (sg_group sg), g_Name (sg_group sg)] = ''repo'') gs))) =
       {# demo_cmd ''status'' ''git status'', demo_cmd ''pull'' ''git pull'', demo_cmd ''fetch'' ''git fetch'' #}"
proof -
  have "case shared_resolve (\<lambda>c n. n) (\<lambda>g h. True) rev ''me'' empty_Configuration demo_groups (demo_arrays 0) of
     (gs, st') \<Rightarrow>
       distinct (map (\<lambda>sg. DotJoin [g_Category (sg_group sg), g_Name (sg_group sg)]) gs) \<and>
       (\<forall>n. mset (concat (map (\<lambda>sg. slice_read st' (sg_slice sg))
                (filter (\<lambda>sg. DotJoin [g_Category (sg_group sg), g_Name (sg_group sg)] = n) gs))) =
         (\<Sum>sg \<leftarrow> filter (\<lambda>sg. \<not> this_host_only ''me'' empty_Configuration (sg_group sg)) demo_groups.
            \<Sum>nm \<leftarrow> called (sg_group sg). if DotJoin [g_Category (sg_group sg), nm] = n
              then mset (slice_read (demo_arrays 0) (sg_slice sg)) else {#}))"
    by (rule merge_conserves_commands[OF demo_own])
       (auto simp: demo_groups_def called_def empty_Group_def DotJoin_def DotJoinParts_def)
  moreover have "(\<Sum>sg \<leftarrow> filter (\<lambda>sg. \<not> this_host_only ''me'' empty_Configuration (sg_group sg)) demo_groups.
      \<Sum>nm \<leftarrow> called (sg_group sg). if DotJoin [g_Category (sg_group sg), nm] = ''repo''
        then mset (slice_read (demo_arrays 0) (sg_slice sg)) else {#}) =
      {# demo_cmd ''status'' ''git status'', demo_cmd ''pull'' ''git pull'', demo_cmd ''fetch'' ''git fetch'' #}"
    by (simp add: demo_groups_def called_def empty_Group_def DotJoin_def DotJoinParts_def this_host_only_def
        demo_arrays_def)
  ultimately show ?thesis by (simp add: case_prod_unfold)
qed

text \<open>With room for one more command, the command of the second group is appended in the array that the
  alias shares, and sorting moves it to the front of what the alias sees: the alias loses \<open>status\<close>, which it
  had, and has \<open>fetch\<close>, which it had not. The selections of a menu are such a group: validating it
  appends them to its commands, which leaves room.\<close>

theorem shared_room_loses_commands:
  "demo_resolve 1 = [(''r'', [''fetch'', ''pull'']), (''repo'', [''fetch'', ''pull'', ''status''])]"
  by code_simp

end
