(* ===== verification/Index_Json.thy ===== *)
theory Index_Json
  imports Subexec_Index
begin

text \<open>
  \<open>subexec/index.go\<close>: the JSON form of the command tree. A node prints its word and encodes its children as
  a map: the encoder of the standard library sorts the keys and checks and compacts what the
  method of each child has printed (\<open>compact\<close>), and writes a key as a string (\<open>quote\<close>). The word itself is
  printed without quoting.
\<close>

section \<open>MarshalJSON\<close>

definition str_of_bool :: "bool \<Rightarrow> string" where
  "str_of_bool b = (if b then ''true'' else ''false'')"

definition dq :: string where "dq = [CHR 0x22]"

text \<open>The encoder stops at the first member, by key, that is no JSON; \<open>erc.Must\<close> then panics.\<close>

fun first_panic :: "(string \<times> string outcome) list \<Rightarrow> (string \<times> string) list outcome" where
  "first_panic [] = Return []"
| "first_panic ((k, r) # ms) =
     (case r of
        Panic e \<Rightarrow> Panic e
      | Return v \<Rightarrow> (case first_panic ms of Panic e \<Rightarrow> Panic e | Return out \<Rightarrow> Return ((k, v) # out)))"

definition encode_map ::
    "(string \<Rightarrow> go_error + string) \<Rightarrow> (string \<Rightarrow> string) \<Rightarrow> (string \<times> string outcome) list \<Rightarrow> string outcome" where
  "encode_map compact quote ms =
     (let ms = sort_cmp (\<lambda>a b. compare (fst a) (fst b)) ms;
          ms = map (\<lambda>(k, r). (k, case r of Panic e \<Rightarrow> Panic e | Return v \<Rightarrow>
                 (case compact v of Inl e \<Rightarrow> Panic e | Inr v \<Rightarrow> Return v))) ms
      in case first_panic ms of
           Panic e \<Rightarrow> Panic e
         | Return ms \<Rightarrow>
             Return (''{'' @ join_with '','' (map (\<lambda>(k, v). quote k @ '':'' @ v) ms) @ ''}''))"

primrec MarshalJSON ::
    "(string \<Rightarrow> go_error + string) \<Rightarrow> (string \<Rightarrow> string) \<Rightarrow> 'k Node \<Rightarrow> string outcome" where
  "MarshalJSON compact quote (Node w cmd ch) =
     (case encode_map compact quote (map (map_prod id (MarshalJSON compact quote)) ch) of
        Panic e \<Rightarrow> Panic e
      | Return tree \<Rightarrow>
          Return (''{'' @ dq @ ''word'' @ dq @ '':'' @ dq @ w @ dq @ '','' @
            dq @ ''has_command'' @ dq @ '':'' @ str_of_bool (cmd \<noteq> None) @ '','' @
            dq @ ''tree'' @ dq @ '':'' @ tree @ ''}''))"

section \<open>What is printed\<close>

text \<open>The value that a node stands for, and how a value is written. Strings here have only characters that
  need no escape.\<close>

datatype json = J_String string | J_Bool bool | J_Object "(string \<times> json) list"

primrec render :: "json \<Rightarrow> string" where
  "render (J_String s) = dq @ s @ dq"
| "render (J_Bool b) = str_of_bool b"
| "render (J_Object ms) =
     ''{'' @ join_with '','' (map (\<lambda>(k, v). dq @ k @ dq @ '':'' @ v) (map (map_prod id render) ms)) @ ''}''"

primrec node_value :: "'k Node \<Rightarrow> json" where
  "node_value (Node w cmd ch) = J_Object
     [(''word'', J_String w), (''has_command'', J_Bool (cmd \<noteq> None)),
      (''tree'', J_Object (sort_cmp (\<lambda>a b. compare (fst a) (fst b)) (map (map_prod id node_value) ch)))]"

definition plain_char :: "char \<Rightarrow> bool" where
  "plain_char c \<longleftrightarrow> (32::nat) \<le> of_char c \<and> of_char c < (128::nat) \<and> c \<notin> set ''<>&'' \<and> c \<noteq> CHR 0x5C \<and> c \<noteq> CHR 0x22"

primrec plain_node :: "'k Node \<Rightarrow> bool" where
  "plain_node (Node w cmd ch) \<longleftrightarrow> list_all plain_char w \<and>
     list_all (\<lambda>(k, ok). list_all plain_char k \<and> ok) (map (map_prod id plain_node) ch)"

primrec plain_json :: "json \<Rightarrow> bool" where
  "plain_json (J_String s) \<longleftrightarrow> list_all plain_char s"
| "plain_json (J_Bool b) \<longleftrightarrow> True"
| "plain_json (J_Object ms) \<longleftrightarrow> list_all (\<lambda>(k, ok). list_all plain_char k \<and> ok) (map (map_prod id plain_json) ms)"

text \<open>What the standard library documents: compacting leaves compact JSON alone, and quoting only adds
  the quotes, when nothing is to be escaped.\<close>

definition json_encoder :: "(string \<Rightarrow> go_error + string) \<Rightarrow> (string \<Rightarrow> string) \<Rightarrow> bool" where
  "json_encoder compact quote \<longleftrightarrow>
     (\<forall>v. plain_json v \<longrightarrow> compact (render v) = Inr (render v)) \<and>
     (\<forall>s. list_all plain_char s \<longrightarrow> quote s = dq @ s @ dq)"

lemma sort_keys_map:
  "sort_cmp (\<lambda>a b. compare (fst a) (fst b)) (map (map_prod id f) xs) =
     map (map_prod id f) (sort_cmp (\<lambda>a b. compare (fst a) (fst b)) xs)"
  using map_sort_cmp[of "map_prod id f" "\<lambda>a b. compare (fst a) (fst b)" xs] by simp

lemma plain_node_value: "plain_node n \<Longrightarrow> plain_json (node_value n)"
proof (induction n)
  case (Node w cmd ch)
  then show ?case by (fastforce simp: list_all_iff plain_char_def)
qed

lemma first_panic_Return:
  "first_panic (map (\<lambda>(k, v). (k, Return (f v))) ms) = Return (map (\<lambda>(k, v). (k, f v)) ms)"
  by (induction ms) auto

text \<open>A tree whose words need no escape is printed as the value it stands for, with the children of
  every node in the order of their words, however the map is walked.\<close>

theorem MarshalJSON_prints_tree:
  assumes "json_encoder compact quote" and "plain_node n"
  shows "MarshalJSON compact quote n = Return (render (node_value n))"
  using assms(2)
proof (induction n)
  case (Node w cmd ch)
  let ?srt = "sort_cmp (\<lambda>a b. compare (fst a) (fst b))"
  have kids: "plain_node c" "list_all plain_char k" if "(k, c) \<in> set ch" for k c
    using Node.prems that by (force simp: list_all_iff)+
  have "map (map_prod id (MarshalJSON compact quote)) ch = map (map_prod id (Return \<circ> render \<circ> node_value)) ch"
    using Node.IH kids(1) by (intro map_cong refl) (fastforce simp: map_prod_def)
  then have sorted: "?srt (map (map_prod id (MarshalJSON compact quote)) ch) =
      map (map_prod id (Return \<circ> render \<circ> node_value)) (?srt ch)"
    by (simp only: sort_keys_map)
  have compacted: "map (\<lambda>(k, r). (k, case r of Panic e \<Rightarrow> Panic e | Return v \<Rightarrow>
                 (case compact v of Inl e \<Rightarrow> Panic e | Inr v \<Rightarrow> Return v)))
      (map (map_prod id (Return \<circ> render \<circ> node_value)) (?srt ch)) =
      map (\<lambda>(k, v). (k, Return (render (node_value v)))) (?srt ch)"
  proof -
    have "compact (render (node_value c)) = Inr (render (node_value c))" if "(k, c) \<in> set ch" for k c
      using kids(1)[OF that] assms(1) plain_node_value unfolding json_encoder_def by blast
    then show ?thesis by auto
  qed
  have quoted: "map (\<lambda>(k, v). quote k @ '':'' @ v) (map (\<lambda>(k, v). (k, render (node_value v))) (?srt ch)) =
      map (\<lambda>(k, v). dq @ k @ dq @ '':'' @ v) (map (map_prod id render) (map (map_prod id node_value) (?srt ch)))"
    using kids(2) assms(1) by (auto simp: json_encoder_def)
  have "encode_map compact quote (map (map_prod id (MarshalJSON compact quote)) ch) =
      Return (render (J_Object (?srt (map (map_prod id node_value) ch))))"
    unfolding encode_map_def Let_def sorted compacted first_panic_Return outcome.case quoted
    by (simp only: render.simps sort_keys_map)
  then show ?case by simp
qed

definition json_demo :: "unit Node" where
  "json_demo = Node [] None [(''repo'', Node ''repo'' None []), (''arch'', Node ''arch'' None [])]"

theorem MarshalJSON_prints_tree_witness:
  "MarshalJSON Inr (\<lambda>s. dq @ s @ dq) json_demo = Return (render (J_Object
     [(''word'', J_String []), (''has_command'', J_Bool False),
      (''tree'', J_Object
         [(''arch'', J_Object [(''word'', J_String ''arch''), (''has_command'', J_Bool False), (''tree'', J_Object [])]),
          (''repo'', J_Object [(''word'', J_String ''repo''), (''has_command'', J_Bool False), (''tree'', J_Object [])])])]))"
proof -
  have "json_encoder Inr (\<lambda>s. dq @ s @ dq)" by (simp add: json_encoder_def)
  moreover have "plain_node json_demo" by (simp add: json_demo_def plain_char_def)
  ultimately have "MarshalJSON Inr (\<lambda>s. dq @ s @ dq) json_demo = Return (render (node_value json_demo))"
    by (rule MarshalJSON_prints_tree)
  moreover have "sort_cmp (\<lambda>a b. compare (fst a) (fst b))
      [(''repo'', x), (''arch'', y)] = [(''arch'', y), (''repo'', x)]" for x y :: json
    by (simp add: sort_cmp_def compare_def)
  ultimately show ?thesis by (simp add: json_demo_def sort_cmp_def)
qed

end
