(* ===== verification/Repo.thy ===== *)
theory Repo
  imports Subexec_Group
begin

text \<open>
  \<open>repo/conf.go\<close>, \<open>repo/repo.go\<close>, \<open>repo/blog.go\<close> and \<open>repo/subexec.go\<close>: the git repositories of
  the configuration, their indexes by name and by tag, projects, and the groups of commands made
  from them. The indexes are association lists whose order stands for the order in which the
  runtime walks the map; a set of the library is the list of its members.
\<close>

section \<open>repo.go\<close>

record GitRepository =
  r_Name :: string
  r_Path :: string
  r_Remote :: string
  r_RemoteName :: string
  r_Branch :: string
  r_LocalSync :: bool
  r_Fetch :: bool
  r_Notify :: bool
  r_Disabled :: bool
  r_Logs :: string
  r_Pre :: "string list"
  r_Post :: "string list"
  r_Mirrors :: "string list"
  r_Tags :: "string list"

definition repo_defaults :: "string \<Rightarrow> GitRepository \<Rightarrow> GitRepository" where
  "repo_defaults home conf =
     (let conf = (if r_Branch conf = [] then conf\<lparr>r_Branch := ''main''\<rparr> else conf);
          conf = (if r_RemoteName conf = [] then conf\<lparr>r_RemoteName := ''origin''\<rparr> else conf)
      in conf\<lparr>r_Logs := Default [] (r_Logs conf) (Logging_Default (r_Logs conf)),
              r_Path := TryExpandHomeDir home (r_Path conf),
              r_Post := TryExpandHomeDirs home (r_Post conf),
              r_Pre := TryExpandHomeDirs home (r_Pre conf)\<rparr>)"

definition GitRepository_Validate :: "string \<Rightarrow> GitRepository \<Rightarrow> errors \<times> GitRepository" where
  "GitRepository_Validate home conf =
     (let conf = repo_defaults home conf;
          ec = Logging_Validate (r_Logs conf) @
               when_err (r_Remote conf = []) (Errf '''%s' does not specify a remote'' [S (r_Name conf)]) @
               when_err (r_Fetch conf \<and> r_LocalSync conf) (Errf ''cannot specify sync and fetch'' [])
      in (ec, conf))"

text \<open>\<open>git_clean\<close> is the git library: open the repository, its work tree and its status.\<close>

definition HasChanges ::
    "(string \<Rightarrow> stat_result) \<Rightarrow> (string \<Rightarrow> go_error + bool) \<Rightarrow> GitRepository \<Rightarrow> bool \<times> go_error option" where
  "HasChanges stat git_clean conf =
     (if is_not_exist (stat (r_Path conf)) then (True, None)
      else case git_clean (r_Path conf) of
             Inl err \<Rightarrow> (False, Some err)
           | Inr clean \<Rightarrow> (\<not> clean, None))"

section \<open>conf.go and blog.go\<close>

record Project =
  p_Name :: string
  p_Type :: string
  p_RepoName :: string
  p_Notify :: bool
  p_Enabled :: bool
  p_DeployCommands :: "string list"

type_synonym tag_index = "(string \<times> string list) list"
type_synonym repo_index = "(string \<times> GitRepository) list"

record Configuration =
  GitRepos :: "GitRepository list"
  Projects :: "Project list"
  TagGroups :: tag_index
  lookupProcessed :: bool
  cache_tags :: tag_index
  cache_lookup :: repo_index

fun projects_loop :: "nat \<Rightarrow> Project list \<Rightarrow> string list \<Rightarrow> errors" where
  "projects_loop idx [] set0 = []"
| "projects_loop idx (bc # bcs) set0 =
     (if p_Name bc = [] \<and> p_RepoName bc = []
      then Errf ''blog at index %d is missing a name and a repo name'' [I (int idx)]
             # projects_loop (idx + 1) bcs set0
      else
        let name = Default [] (p_Name bc) (p_RepoName bc);
            repo = Default [] (p_RepoName bc) name
        in when_err (name \<in> set set0)
             (Errf ''blog named %q(%d) has a duplicate blog configured'' [S name, I (int idx)]) @
           when_err (repo \<in> set set0)
             (Errf ''blog with repo %s (named %s(%d)) has a duplicate name'' [S repo, S name, I (int idx)]) @
           projects_loop (idx + 1) bcs (repo # name # set0))"

definition projectsValidate :: "Configuration \<Rightarrow> errors" where
  "projectsValidate conf = projects_loop 0 (Projects conf) []"

definition ProjectsByName :: "Configuration \<Rightarrow> string \<Rightarrow> Project option" where
  "ProjectsByName conf name = find (\<lambda>p. p_Name p = name \<or> p_RepoName p = name) (Projects conf)"

text \<open>\<open>Push\<close> on the slice of a missing tag starts from the nil slice.\<close>

definition tag_push :: "string \<Rightarrow> string \<Rightarrow> tag_index \<Rightarrow> tag_index" where
  "tag_push tg name tags = upd tg (deref_z [] (map_of tags tg) @ [name]) tags"

fun index_repos :: "GitRepository list \<Rightarrow> tag_index \<Rightarrow> repo_index \<Rightarrow> (tag_index \<times> repo_index) outcome" where
  "index_repos [] tags lookup = Return (tags, lookup)"
| "index_repos (rp # rps) tags lookup =
     (if map_of lookup (r_Name rp) \<noteq> None
      then Panic (Errf ''duplicate repositoriy named'' [S (r_Name rp)])
      else index_repos rps (fold (\<lambda>tg tags. tag_push tg (r_Name rp) tags) (r_Tags rp) tags)
             (upd (r_Name rp) rp lookup))"

definition group_members :: "tag_index \<Rightarrow> repo_index \<Rightarrow> string list \<Rightarrow> string list" where
  "group_members tags lookup names =
     fold (\<lambda>tag grp. let grp = fold List.insert (deref_z [] (map_of tags tag)) grp
                     in if map_of lookup tag \<noteq> None then List.insert tag grp else grp) names []"

text \<open>The number of members that the code hands to \<open>irt.Collect\<close> next to them is the room that the library
  makes for the result; it adds no element.\<close>

fun index_groups :: "tag_index \<Rightarrow> repo_index \<Rightarrow> tag_index \<Rightarrow> errors \<times> tag_index" where
  "index_groups [] lookup tags = ([], tags)"
| "index_groups ((gt, names) # groups) lookup tags =
     (let members = group_members tags lookup names;
          (ec, tags') = index_groups groups lookup (upd gt members tags)
      in (when_err (length members = 0) (Errf ''for tag group %q, no resolveable tags'' [S gt]) @ ec, tags'))"

definition rebuildIndexes :: "Configuration \<Rightarrow> (errors \<times> Configuration) outcome" where
  "rebuildIndexes conf =
     (if lookupProcessed conf then Return ([], conf)
      else case index_repos (GitRepos conf) [] [] of
             Panic e \<Rightarrow> Panic e
           | Return (tags, lookup) \<Rightarrow>
               (case index_groups (TagGroups conf) lookup tags of (ec, tags') \<Rightarrow>
                  Return (ec, conf\<lparr>cache_tags := tags', cache_lookup := lookup, lookupProcessed := True\<rparr>)))"

definition tag_group_errors :: "Configuration \<Rightarrow> string \<Rightarrow> string list \<Rightarrow> errors" where
  "tag_group_errors conf grp tags =
     when_err (map_of (cache_lookup conf) grp \<noteq> None)
       (Errf ''group name %q is an existing repo name'' [S grp]) @
     when_err (map_of (cache_tags conf) grp \<noteq> None)
       (Errf ''group name %q is an existing tag name'' [S grp]) @
     concat (map (\<lambda>tg.
       when_err (map_of (cache_lookup conf) tg = None)
         (Errf ''tag %q in group %q is NOT an existing repo name'' [S tg, S grp]) @
       when_err (map_of (cache_tags conf) tg = None)
         (Errf ''tag name %q is NOT an existing tag name'' [S grp])) tags)"

definition doValidate :: "string \<Rightarrow> Configuration \<Rightarrow> (errors \<times> Configuration) outcome" where
  "doValidate home conf =
     (let ec = projectsValidate conf;
          rs = map (GitRepository_Validate home) (GitRepos conf);
          ec = ec @ concat (map (\<lambda>(idx, err). wrap_errs err ''%d/%d of %T is not valid''
                                    [I (int idx), I (int (length rs))])
                             (zip [0..<length rs] (map fst rs)));
          conf = conf\<lparr>GitRepos := map snd rs\<rparr>
      in case rebuildIndexes conf of
           Panic e \<Rightarrow> Panic e
         | Return (err, conf) \<Rightarrow>
             Return (ec @ err @ concat (map (\<lambda>(grp, tags). tag_group_errors conf grp tags) (TagGroups conf)), conf))"

text \<open>\<open>Join\<close> extends the repositories and the tag groups; the projects of the other file are not
  looked at.\<close>

definition Configuration_Join :: "Configuration \<Rightarrow> Configuration \<Rightarrow> Configuration" where
  "Configuration_Join conf mcf =
     conf\<lparr>GitRepos := GitRepos conf @ GitRepos mcf,
          TagGroups := fold (\<lambda>(k, v) m. upd k v m) (TagGroups mcf) (TagGroups conf)\<rparr>"

text \<open>\<open>FindOne\<close> calls itself on the only member of a tag; the fuel counts the calls.\<close>

fun FindOne :: "nat \<Rightarrow> Configuration \<Rightarrow> string \<Rightarrow> (go_error + GitRepository) option" where
  "FindOne 0 conf name = None"
| "FindOne (Suc fuel) conf name =
     (case map_of (cache_lookup conf) name of
        Some rp \<Rightarrow> Some (Inr rp)
      | None \<Rightarrow>
          (case map_of (cache_tags conf) name of
             Some tagged \<Rightarrow>
               if length tagged = 1 then FindOne fuel conf (tagged ! 0)
               else if 1 < length tagged
                 then Some (Inl (Errf ''found %d repos tagged %q'' [I (int (length tagged)), S name]))
               else Some (Inl (Errf ''no repository named %q'' [S name]))
           | None \<Rightarrow> Some (Inl (Errf ''no repository named %q'' [S name]))))"

definition Tags :: "Configuration \<Rightarrow> (string list \<times> Configuration) outcome" where
  "Tags conf = (case rebuildIndexes conf of
     Panic e \<Rightarrow> Panic e | Return (err, conf) \<Rightarrow> Return (map fst (cache_tags conf), conf))"

fun push_tagged ::
    "set_add \<Rightarrow> repo_index \<Rightarrow> string list \<Rightarrow> string list \<Rightarrow> GitRepository list \<times> string list" where
  "push_tagged set_add lookup [] seen = ([], seen)"
| "push_tagged set_add lookup (rtn # rest) seen =
     (let (existed, seen) = set_add rtn seen;
          (out, seen) = push_tagged set_add lookup rest seen
      in case map_of lookup rtn of
           Some rp \<Rightarrow> (if \<not> existed then rp # out else out, seen)
         | None \<Rightarrow> (out, seen))"

fun find_all_loop ::
    "set_add \<Rightarrow> Configuration \<Rightarrow> string list \<Rightarrow> string list \<Rightarrow> GitRepository list" where
  "find_all_loop set_add conf [] seen = []"
| "find_all_loop set_add conf (i # ids) seen =
     (case map_of (cache_lookup conf) i of
        Some rp \<Rightarrow>
          (let (existed, seen) = set_add (r_Name rp) seen
           in (if \<not> existed then [rp] else []) @ find_all_loop set_add conf ids seen)
      | None \<Rightarrow>
          (let (out, seen) = push_tagged set_add (cache_lookup conf)
                               (deref_z [] (map_of (cache_tags conf) i)) seen
           in out @ find_all_loop set_add conf ids seen))"

definition FindAll :: "set_add \<Rightarrow> Configuration \<Rightarrow> string list \<Rightarrow> GitRepository list" where
  "FindAll set_add conf ids = (if length ids = 0 then [] else find_all_loop set_add conf ids [])"

section \<open>subexec.go\<close>

datatype repo_worker =
    Fetch_Worker GitRepository
  | Update_Worker GitRepository
  | Fetch_Pool "GitRepository list"
  | Update_Pool "GitRepository list"

definition wants_pull :: "GitRepository \<Rightarrow> bool" where
  "wants_pull r \<longleftrightarrow> \<not> r_Disabled r \<and> (r_Fetch r \<or> r_LocalSync r)"

definition ConcreteTaskGroups :: "Configuration \<Rightarrow> repo_worker Group list" where
  "ConcreteTaskGroups conf =
     (let active = filter (\<lambda>r. \<not> r_Disabled r \<and> \<not> (\<not> r_Fetch r \<and> \<not> r_LocalSync r)) (GitRepos conf);
          pull = empty_Group\<lparr>g_Category := ''repo'', g_Name := ''pull'', g_Synthetic := True,
            g_SortHint := - 8,
            g_Commands := map (\<lambda>r. empty_Command\<lparr>cmd_Name := r_Name r,
                cmd_WorkerDefinition := Some (Fetch_Worker r), cmd_Notify := Some (r_Notify r),
                cmd_SortHint := - 4\<rparr>) active\<rparr>;
          update = empty_Group\<lparr>g_Category := ''repo'', g_Name := ''update'', g_Synthetic := True,
            g_SortHint := 16,
            g_Commands := map (\<lambda>r. empty_Command\<lparr>cmd_Name := r_Name r,
                cmd_WorkerDefinition := Some (Update_Worker r), cmd_Notify := Some (r_Notify r),
                cmd_SortHint := 16\<rparr>) (filter r_LocalSync active)\<rparr>
      in [update, pull])"

definition any_active :: "repo_index \<Rightarrow> string list \<Rightarrow> bool" where
  "any_active lookup repos \<longleftrightarrow> list_ex (\<lambda>rn. case map_of lookup rn of
     None \<Rightarrow> False | Some r \<Rightarrow> \<not> (r_Disabled r \<or> (\<not> r_Fetch r \<and> \<not> r_LocalSync r))) repos"

definition SyntheticTaskGroups :: "Configuration \<Rightarrow> (repo_worker Group list \<times> Configuration) outcome" where
  "SyntheticTaskGroups conf =
     (case rebuildIndexes conf of
        Panic e \<Rightarrow> Panic e
      | Return (err, conf) \<Rightarrow>
          let active = filter (\<lambda>(tag, repos). any_active (cache_lookup conf) repos) (cache_tags conf);
              batch = (\<lambda>repos. List.map_filter (map_of (cache_lookup conf)) repos);
              base = empty_Group\<lparr>g_Category := ''repo'', g_CmdNamePrefix := ''tag'',
                g_Notify := Some True, g_Synthetic := True\<rparr>;
              pull = base\<lparr>g_Name := ''pull'', g_SortHint := - 4,
                g_Commands := map (\<lambda>(tag, repos). empty_Command\<lparr>cmd_Name := tag, cmd_SortHint := - 4,
                  cmd_WorkerDefinition := Some (Fetch_Pool (batch repos))\<rparr>) active\<rparr>;
              update = base\<lparr>g_Name := ''update'', g_SortHint := 16,
                g_Commands := map (\<lambda>(tag, repos). empty_Command\<lparr>cmd_Name := tag, cmd_SortHint := 8,
                  cmd_WorkerDefinition := Some (Update_Pool (batch repos))\<rparr>) active\<rparr>
          in Return ([update, pull], conf))"

section \<open>The indexes\<close>

text \<open>The indexes hold the repositories under their names, and under a tag only names of
  repositories.\<close>

definition indexed :: "GitRepository list \<Rightarrow> tag_index \<Rightarrow> repo_index \<Rightarrow> bool" where
  "indexed rps tags lookup \<longleftrightarrow>
     (\<forall>n rp. map_of lookup n = Some rp \<longleftrightarrow> rp \<in> set rps \<and> r_Name rp = n) \<and>
     (\<forall>tg names. map_of tags tg = Some names \<longrightarrow> set names \<subseteq> r_Name ` set rps)"

lemma tag_push_lookup:
  "map_of (fold (\<lambda>tg tags. tag_push tg n tags) tgs tags) tg = Some names \<Longrightarrow>
     set names \<subseteq> insert n (set (deref_z [] (map_of tags tg)))"
proof (induction tgs arbitrary: tags)
  case (Cons t tgs)
  from Cons.IH[OF Cons.prems[simplified]] show ?case
    by (auto simp: tag_push_def split: if_splits)
qed auto

lemma index_repos_indexed:
  "index_repos rps tags lookup = Return (tags', lookup') \<Longrightarrow> indexed done tags lookup \<Longrightarrow>
     indexed (done @ rps) tags' lookup'"
proof (induction rps arbitrary: "done" tags lookup)
  case (Cons rp rps)
  define tags1 where "tags1 = fold (\<lambda>tg tags. tag_push tg (r_Name rp) tags) (r_Tags rp) tags"
  from Cons.prems(1) have new: "map_of lookup (r_Name rp) = None"
    and rest: "index_repos rps tags1 (upd (r_Name rp) rp lookup) = Return (tags', lookup')"
    by (auto simp: tags1_def split: if_splits)
  have fresh: "r_Name rq \<noteq> r_Name rp" if "rq \<in> set done" for rq
    using that new Cons.prems(2) unfolding indexed_def by (metis option.distinct(1))
  have "set names \<subseteq> r_Name ` set (done @ [rp])" if "map_of tags1 tg = Some names" for tg names
  proof -
    have "set names \<subseteq> insert (r_Name rp) (set (deref_z [] (map_of tags tg)))"
      using tag_push_lookup that unfolding tags1_def by blast
    moreover have "set (deref_z [] (map_of tags tg)) \<subseteq> r_Name ` set done"
      using Cons.prems(2) by (cases "map_of tags tg") (auto simp: indexed_def)
    ultimately show ?thesis by auto
  qed
  then have "indexed (done @ [rp]) tags1 (upd (r_Name rp) rp lookup)"
    using Cons.prems(2) fresh unfolding indexed_def by auto
  from Cons.IH[OF rest this] show ?case by simp
qed simp

lemma fold_insert_set: "set (fold List.insert xs s) = set xs \<union> set s"
  by (induction xs arbitrary: s) auto

lemma group_members_names:
  assumes "indexed rps tags lookup"
  shows "set (group_members tags lookup names) \<subseteq> r_Name ` set rps"
proof -
  have "set (deref_z [] (map_of tags tag)) \<subseteq> r_Name ` set rps" for tag
    using assms by (cases "map_of tags tag") (auto simp: indexed_def)
  moreover have "tag \<in> r_Name ` set rps" if "map_of lookup tag \<noteq> None" for tag
    using assms that by (force simp: indexed_def)
  ultimately have "set g \<subseteq> r_Name ` set rps \<Longrightarrow>
      set (fold (\<lambda>tag grp. let grp = fold List.insert (deref_z [] (map_of tags tag)) grp
         in if map_of lookup tag \<noteq> None then List.insert tag grp else grp) names g) \<subseteq> r_Name ` set rps" for g
    by (induction names arbitrary: g) (simp_all add: Let_def fold_insert_set)
  from this[of "[]"] show ?thesis by (simp add: group_members_def)
qed

lemma index_groups_indexed:
  "index_groups groups lookup tags = (ec, tags') \<Longrightarrow> indexed rps tags lookup \<Longrightarrow>
     indexed rps tags' lookup \<and> fst ` set groups \<subseteq> dom (map_of tags') \<and> dom (map_of tags) \<subseteq> dom (map_of tags')"
proof (induction groups lookup tags arbitrary: ec rule: index_groups.induct)
  case (2 gt names groups lookup tags)
  have "indexed rps (upd gt (group_members tags lookup names) tags) lookup"
    using 2(3) group_members_names[OF 2(3)] by (auto simp: indexed_def split: if_splits)
  moreover obtain ec' where "index_groups groups lookup (upd gt (group_members tags lookup names) tags) = (ec', tags')"
    using 2(2) by (auto simp: Let_def split: prod.splits)
  ultimately have "indexed rps tags' lookup \<and> fst ` set groups \<subseteq> dom (map_of tags') \<and>
      dom (map_of (upd gt (group_members tags lookup names) tags)) \<subseteq> dom (map_of tags')"
    using 2(1)[OF refl] by blast
  moreover have "dom (map_of (upd gt m tags)) = insert gt (dom (map_of tags))" for m by auto
  ultimately show ?case by simp
qed auto

lemma rebuildIndexes_indexed:
  assumes "rebuildIndexes conf = Return (ec, conf')" and "\<not> lookupProcessed conf"
  shows "indexed (GitRepos conf') (cache_tags conf') (cache_lookup conf')"
    and "fst ` set (TagGroups conf') \<subseteq> dom (map_of (cache_tags conf'))"
    and "GitRepos conf' = GitRepos conf" and "TagGroups conf' = TagGroups conf"
proof -
  from assms obtain tags lookup tags' where
    repos: "index_repos (GitRepos conf) [] [] = Return (tags, lookup)"
    and groups: "index_groups (TagGroups conf) lookup tags = (ec, tags')"
    and conf': "conf' = conf\<lparr>cache_tags := tags', cache_lookup := lookup, lookupProcessed := True\<rparr>"
    by (auto simp: rebuildIndexes_def split: outcome.splits prod.splits)
  have "indexed [] [] []" by (simp add: indexed_def)
  from index_repos_indexed[OF repos this] have "indexed (GitRepos conf) tags lookup" by simp
  from index_groups_indexed[OF groups this]
  show "indexed (GitRepos conf') (cache_tags conf') (cache_lookup conf')"
    "fst ` set (TagGroups conf') \<subseteq> dom (map_of (cache_tags conf'))"
    "GitRepos conf' = GitRepos conf" "TagGroups conf' = TagGroups conf"
    by (simp_all add: conf')
qed

text \<open>What the index holds, in terms of the configuration.\<close>

definition tagged_with :: "GitRepository list \<Rightarrow> string \<Rightarrow> string set" where
  "tagged_with rps tg = r_Name ` {rp \<in> set rps. tg \<in> set (r_Tags rp)}"

lemma tag_push_all:
  "set (deref_z [] (map_of (fold (\<lambda>tg tags. tag_push tg n tags) tgs tags) tg)) =
     set (deref_z [] (map_of tags tg)) \<union> (if tg \<in> set tgs then {n} else {})"
  by (induction tgs arbitrary: tags) (auto simp: tag_push_def)

lemma index_repos_tags:
  "index_repos rps tags lookup = Return (tags', lookup') \<Longrightarrow>
     set (deref_z [] (map_of tags' tg)) = set (deref_z [] (map_of tags tg)) \<union> tagged_with rps tg"
proof (induction rps arbitrary: tags lookup)
  case (Cons rp rps)
  from Cons.prems have "index_repos rps (fold (\<lambda>tg tags. tag_push tg (r_Name rp) tags) (r_Tags rp) tags)
      (upd (r_Name rp) rp lookup) = Return (tags', lookup')" by (simp split: if_splits)
  from Cons.IH[OF this] show ?case by (auto simp: tag_push_all tagged_with_def)
qed (simp add: tagged_with_def)

lemma group_members_set:
  "set (group_members tags lookup names) =
     (\<Union>n \<in> set names. set (deref_z [] (map_of tags n)) \<union> (if map_of lookup n \<noteq> None then {n} else {}))"
proof -
  have "set (fold (\<lambda>tag grp. let grp = fold List.insert (deref_z [] (map_of tags tag)) grp
         in if map_of lookup tag \<noteq> None then List.insert tag grp else grp) names g) = set g \<union>
      (\<Union>n \<in> set names. set (deref_z [] (map_of tags n)) \<union> (if map_of lookup n \<noteq> None then {n} else {}))" for g
    by (induction names arbitrary: g) (auto simp: Let_def fold_insert_set)
  from this[of "[]"] show ?thesis by (simp add: group_members_def)
qed

text \<open>Tag groups whose members are no groups themselves.\<close>

definition flat_groups :: "tag_index \<Rightarrow> bool" where
  "flat_groups groups \<longleftrightarrow> distinct (map fst groups) \<and>
     (\<forall>(g, names) \<in> set groups. set names \<inter> fst ` set groups = {})"

lemma index_groups_tags:
  assumes "distinct (map fst groups)" and "\<forall>(g, names) \<in> set groups. set names \<inter> G = {}"
    and "fst ` set groups \<subseteq> G"
  shows "set (deref_z [] (map_of (snd (index_groups groups lookup tags)) tg)) =
     (case map_of groups tg of
        None \<Rightarrow> set (deref_z [] (map_of tags tg))
      | Some names \<Rightarrow> set (group_members tags lookup names))"
  using assms
proof (induction groups lookup tags rule: index_groups.induct)
  case (2 gt names groups lookup tags)
  let ?tags = "upd gt (group_members tags lookup names) tags"
  have keep: "set (group_members ?tags lookup ns) = set (group_members tags lookup ns)"
    if "map_of groups tg = Some ns" for ns
  proof -
    have "gt \<notin> set ns" using that 2(3,4) by (force dest: map_of_SomeD)
    then show ?thesis unfolding group_members_set by (intro SUP_cong) auto
  qed
  have "gt \<notin> fst ` set groups" using 2(2) by simp
  then have none: "map_of groups gt = None" by (simp add: map_of_eq_None_iff)
  have ih: "set (deref_z [] (map_of (snd (index_groups groups lookup ?tags)) tg)) =
     (case map_of groups tg of
        None \<Rightarrow> set (deref_z [] (map_of ?tags tg))
      | Some names \<Rightarrow> set (group_members ?tags lookup names))"
    using 2(2-4) by (intro 2(1)[OF refl]) auto
  have "snd (index_groups ((gt, names) # groups) lookup tags) = snd (index_groups groups lookup ?tags)"
    by (simp add: Let_def split: prod.splits)
  then show ?case using ih none keep by (auto split: option.splits)
qed simp

lemma rebuildIndexes_tags:
  assumes "rebuildIndexes conf = Return (ec, conf')" and "\<not> lookupProcessed conf"
    and "flat_groups (TagGroups conf)"
  shows "set (deref_z [] (map_of (cache_tags conf') tg)) =
    (case map_of (TagGroups conf) tg of
       None \<Rightarrow> tagged_with (GitRepos conf) tg
     | Some names \<Rightarrow> (\<Union>n \<in> set names. tagged_with (GitRepos conf) n \<union>
         (if n \<in> r_Name ` set (GitRepos conf) then {n} else {})))"
proof -
  from assms obtain tags lookup tags' where
    repos: "index_repos (GitRepos conf) [] [] = Return (tags, lookup)"
    and groups: "index_groups (TagGroups conf) lookup tags = (ec, tags')"
    and conf': "conf' = conf\<lparr>cache_tags := tags', cache_lookup := lookup, lookupProcessed := True\<rparr>"
    by (auto simp: rebuildIndexes_def split: outcome.splits prod.splits)
  have "indexed [] [] []" by (simp add: indexed_def)
  from index_repos_indexed[OF repos this] have i: "indexed (GitRepos conf) tags lookup" by simp
  have l: "map_of lookup n \<noteq> None \<longleftrightarrow> n \<in> r_Name ` set (GitRepos conf)" for n
    using i unfolding indexed_def by (metis (no_types, lifting) imageE image_eqI not_Some_eq)
  have t: "set (deref_z [] (map_of tags n)) = tagged_with (GitRepos conf) n" for n
    using index_repos_tags[OF repos] by simp
  have gm: "set (group_members tags lookup names) = (\<Union>n \<in> set names. tagged_with (GitRepos conf) n \<union>
      (if n \<in> r_Name ` set (GitRepos conf) then {n} else {}))" for names
    unfolding group_members_set t l by (rule refl)
  show ?thesis
    using index_groups_tags[of "TagGroups conf" "fst ` set (TagGroups conf)" lookup tags tg] assms(3) groups
    by (cases "map_of (TagGroups conf) tg") (simp_all add: conf' flat_groups_def gm t)
qed

lemma push_tagged_spec:
  assumes a: "set_add_ok a" and i: "indexed rps tags lookup" and n: "set names \<subseteq> r_Name ` set rps"
  shows "distinct (map r_Name (fst (push_tagged a lookup names seen))) \<and>
    set (fst (push_tagged a lookup names seen)) =
      {rp \<in> set rps. r_Name rp \<in> set names \<and> r_Name rp \<notin> set seen} \<and>
    set (snd (push_tagged a lookup names seen)) = set seen \<union> set names"
  using n
proof (induction names arbitrary: seen)
  case (Cons n names)
  have ax: "a x s = (x \<in> set s, if x \<in> set s then s else s @ [x])" for x s
    using a by (simp add: set_add_ok_def)
  from Cons.prems i obtain rp where rp: "map_of lookup n = Some rp" "rp \<in> set rps" "r_Name rp = n"
    by (auto simp: indexed_def)
  have uniq: "rq = rp" if "rq \<in> set rps" "r_Name rq = n" for rq
    using i rp that unfolding indexed_def by (metis option.inject)
  define seen' where "seen' = (if n \<in> set seen then seen else seen @ [n])"
  have step: "push_tagged a lookup (n # names) seen =
      ((if n \<notin> set seen then [rp] else []) @ fst (push_tagged a lookup names seen'),
       snd (push_tagged a lookup names seen'))"
    using rp by (auto simp: ax seen'_def Let_def case_prod_unfold)
  have s: "set seen' = insert n (set seen)" by (auto simp: seen'_def)
  note IH = Cons.IH[of seen']
  let ?out = "fst (push_tagged a lookup names seen')"
  have out: "distinct (map r_Name ?out)"
    "set ?out = {rq \<in> set rps. r_Name rq \<in> set names \<and> r_Name rq \<notin> insert n (set seen)}"
    "set (snd (push_tagged a lookup names seen')) = insert n (set seen) \<union> set names"
    using IH Cons.prems by (simp_all add: s)
  have n: "n \<notin> r_Name ` set ?out" unfolding out(2) by auto
  show ?case
  proof (cases "n \<in> set seen")
    case True
    have "{rq \<in> set rps. r_Name rq \<in> set names \<and> r_Name rq \<notin> insert n (set seen)} =
        {rq \<in> set rps. r_Name rq \<in> set (n # names) \<and> r_Name rq \<notin> set seen}"
      using True by auto
    with out(2) have o2: "set ?out = {rq \<in> set rps. r_Name rq \<in> set (n # names) \<and> r_Name rq \<notin> set seen}"
      by (rule trans)
    have "insert n (set seen) \<union> set names = set seen \<union> set (n # names)" by auto
    with True out(1,3) o2 show ?thesis unfolding step by simp
  next
    case False
    have "insert rp {rq \<in> set rps. r_Name rq \<in> set names \<and> r_Name rq \<notin> insert n (set seen)} =
        {rq \<in> set rps. r_Name rq \<in> set (n # names) \<and> r_Name rq \<notin> set seen}"
    proof (rule set_eqI)
      fix rq
      show "rq \<in> insert rp {rq \<in> set rps. r_Name rq \<in> set names \<and> r_Name rq \<notin> insert n (set seen)} \<longleftrightarrow>
          rq \<in> {rq \<in> set rps. r_Name rq \<in> set (n # names) \<and> r_Name rq \<notin> set seen}"
        using False rp(2,3) uniq[of rq] unfolding insert_iff mem_Collect_eq list.set by metis
    qed
    with out(2) have o2: "set (rp # ?out) =
        {rq \<in> set rps. r_Name rq \<in> set (n # names) \<and> r_Name rq \<notin> set seen}" by simp
    have "insert n (set seen) \<union> set names = set seen \<union> set (n # names)" by auto
    moreover have "distinct (map r_Name (rp # ?out))" using out(1) n rp by simp
    ultimately show ?thesis using False out(3) o2 unfolding step by simp
  qed
qed simp

text \<open>What an identifier stands for: the repository of that name, else those with that tag.\<close>

definition selects :: "Configuration \<Rightarrow> string \<Rightarrow> GitRepository \<Rightarrow> bool" where
  "selects conf i rp \<longleftrightarrow>
     (case map_of (cache_lookup conf) i of
        Some rq \<Rightarrow> rp = rq
      | None \<Rightarrow> rp \<in> set (GitRepos conf) \<and> r_Name rp \<in> set (deref_z [] (map_of (cache_tags conf) i)))"

lemma find_all_spec:
  assumes a: "set_add_ok a" and i: "indexed (GitRepos conf) (cache_tags conf) (cache_lookup conf)"
  shows "distinct (map r_Name (find_all_loop a conf ids seen)) \<and>
    set (find_all_loop a conf ids seen) =
      {rp \<in> set (GitRepos conf). (\<exists>i \<in> set ids. selects conf i rp) \<and> r_Name rp \<notin> set seen}"
proof (induction ids arbitrary: seen)
  case (Cons i ids)
  have ax: "a x s = (x \<in> set s, if x \<in> set s then s else s @ [x])" for x s
    using a by (simp add: set_add_ok_def)
  have uniq: "rq = rp" if "rq \<in> set (GitRepos conf)" "rp \<in> set (GitRepos conf)" "r_Name rq = r_Name rp" for rp rq
    using i that unfolding indexed_def by (metis option.inject)
  obtain out seen' where loop: "find_all_loop a conf (i # ids) seen = out @ find_all_loop a conf ids seen'"
    and out: "distinct (map r_Name out)" "set out = {rp \<in> set (GitRepos conf). selects conf i rp \<and> r_Name rp \<notin> set seen}"
    and seen': "set seen \<union> r_Name ` set out \<subseteq> set seen'"
      "\<forall>rp \<in> set (GitRepos conf). r_Name rp \<in> set seen' \<longrightarrow> r_Name rp \<in> set seen \<or> selects conf i rp"
  proof (cases "map_of (cache_lookup conf) i")
    case (Some rp)
    with assms(2) have rp: "rp \<in> set (GitRepos conf)" "r_Name rp = i" by (auto simp: indexed_def)
    have sel: "selects conf i rq \<longleftrightarrow> rq = rp" for rq using Some by (simp add: selects_def)
    show thesis
      by (rule that[of "if i \<notin> set seen then [rp] else []" "if i \<in> set seen then seen else seen @ [i]"])
         (use Some rp sel uniq in \<open>auto simp: ax Let_def\<close>)
  next
    case None
    let ?names = "deref_z [] (map_of (cache_tags conf) i)"
    have "set ?names \<subseteq> r_Name ` set (GitRepos conf)"
      using assms(2) by (cases "map_of (cache_tags conf) i") (auto simp: indexed_def)
    note p = push_tagged_spec[OF a assms(2) this, of seen]
    have sel: "selects conf i rq \<longleftrightarrow> rq \<in> set (GitRepos conf) \<and> r_Name rq \<in> set ?names" for rq
      using None by (simp add: selects_def)
    show thesis
    proof (rule that[of "fst (push_tagged a (cache_lookup conf) ?names seen)"
          "snd (push_tagged a (cache_lookup conf) ?names seen)"])
      show "find_all_loop a conf (i # ids) seen = fst (push_tagged a (cache_lookup conf) ?names seen) @
          find_all_loop a conf ids (snd (push_tagged a (cache_lookup conf) ?names seen))"
        using None by (simp add: Let_def case_prod_unfold)
    qed (use p sel in auto)
  qed
  let ?rest = "find_all_loop a conf ids seen'"
  have rest: "distinct (map r_Name ?rest)"
    "set ?rest = {rp \<in> set (GitRepos conf). (\<exists>i \<in> set ids. selects conf i rp) \<and> r_Name rp \<notin> set seen'}"
    using Cons.IH[of seen'] by blast+
  have "r_Name ` set out \<inter> r_Name ` set ?rest = {}" using seen'(1) rest(2) by auto
  then have "distinct (map r_Name (out @ ?rest))" using out(1) rest(1) by simp
  moreover have "set (out @ ?rest) =
      {rp \<in> set (GitRepos conf). (\<exists>i \<in> set (i # ids). selects conf i rp) \<and> r_Name rp \<notin> set seen}"
    using out(2) rest(2) seen' by (auto simp del: set_concat)
  ultimately show ?case unfolding loop by blast
qed simp

lemma FindOne_spec:
  assumes "indexed (GitRepos conf) (cache_tags conf) (cache_lookup conf)"
  shows "\<exists>res. FindOne (Suc (Suc fuel)) conf name = Some res \<and>
    (\<forall>rp. res = Inr rp \<longrightarrow> rp \<in> set (GitRepos conf) \<and> selects conf name rp)"
proof (cases "map_of (cache_lookup conf) name")
  case (Some rp)
  with assms have "rp \<in> set (GitRepos conf)" by (auto simp: indexed_def)
  with Some show ?thesis by (simp add: selects_def)
next
  case None
  show ?thesis
  proof (cases "map_of (cache_tags conf) name")
    case (Some tagged)
    show ?thesis
    proof (cases "length tagged = 1")
      case True
      then obtain n where n: "tagged = [n]" by (auto simp: length_Suc_conv)
      have "set tagged \<subseteq> r_Name ` set (GitRepos conf)" using Some assms unfolding indexed_def by blast
      with n have "n \<in> r_Name ` set (GitRepos conf)" by simp
      with assms obtain rp where "map_of (cache_lookup conf) n = Some rp" "rp \<in> set (GitRepos conf)"
        "r_Name rp = n" by (auto simp: indexed_def)
      with None Some n show ?thesis by (simp add: selects_def)
    qed (use None Some in simp)
  qed (use None in simp)
qed

text \<open>What an identifier stands for in the configuration: the repository of that name; else the
  members of the tag group of that name, each a repository or a tag; else the repositories with
  that tag.\<close>

definition named_by :: "Configuration \<Rightarrow> string \<Rightarrow> GitRepository \<Rightarrow> bool" where
  "named_by conf i rp \<longleftrightarrow> rp \<in> set (GitRepos conf) \<and>
     (if i \<in> r_Name ` set (GitRepos conf) then r_Name rp = i
      else case map_of (TagGroups conf) i of
             Some names \<Rightarrow> r_Name rp \<in> set names \<or> (\<exists>t \<in> set names. t \<in> set (r_Tags rp))
           | None \<Rightarrow> i \<in> set (r_Tags rp))"

lemma selects_named_by:
  assumes "rebuildIndexes conf0 = Return (ec, conf)" and "\<not> lookupProcessed conf0"
    and "flat_groups (TagGroups conf0)" and "rp \<in> set (GitRepos conf0)"
  shows "selects conf i rp \<longleftrightarrow> named_by conf0 i rp"
proof -
  note r = rebuildIndexes_indexed[OF assms(1,2)]
  have look: "map_of (cache_lookup conf) n = Some rq \<longleftrightarrow> rq \<in> set (GitRepos conf0) \<and> r_Name rq = n" for n rq
    using r(1,3) unfolding indexed_def by simp
  have uniq: "rq = rp" if "rq \<in> set (GitRepos conf0)" "r_Name rq = r_Name rp" for rq
    using look[of "r_Name rp" rq] look[of "r_Name rp" rp] that assms(4) by simp
  have tagd: "r_Name rp \<in> tagged_with (GitRepos conf0) t \<longleftrightarrow> t \<in> set (r_Tags rp)" for t
  proof
    assume "r_Name rp \<in> tagged_with (GitRepos conf0) t"
    then obtain rq where rq: "rq \<in> set (GitRepos conf0)" "t \<in> set (r_Tags rq)" "r_Name rp = r_Name rq"
      unfolding tagged_with_def by blast
    from uniq[OF rq(1) rq(3)[symmetric]] rq(2) show "t \<in> set (r_Tags rp)" by simp
  next
    assume "t \<in> set (r_Tags rp)"
    with assms(4) show "r_Name rp \<in> tagged_with (GitRepos conf0) t" unfolding tagged_with_def by blast
  qed
  show ?thesis
  proof (cases "map_of (cache_lookup conf) i")
    case None
    have "i \<notin> r_Name ` set (GitRepos conf0)"
    proof
      assume "i \<in> r_Name ` set (GitRepos conf0)"
      then obtain rq where "rq \<in> set (GitRepos conf0)" "r_Name rq = i" by blast
      then have "map_of (cache_lookup conf) i = Some rq" using look[of i rq] by simp
      with None show False by simp
    qed
    moreover have "r_Name rp \<in> set (deref_z [] (map_of (cache_tags conf) i)) \<longleftrightarrow>
        (case map_of (TagGroups conf0) i of
           Some names \<Rightarrow> r_Name rp \<in> set names \<or> (\<exists>t \<in> set names. t \<in> set (r_Tags rp))
         | None \<Rightarrow> i \<in> set (r_Tags rp))"
      unfolding rebuildIndexes_tags[OF assms(1-3)] using assms(4)
      by (auto simp: tagd split: option.splits if_splits)
    ultimately show ?thesis using None assms(4) r(3) by (simp add: selects_def named_by_def)
  next
    case (Some rq)
    then have rq: "rq \<in> set (GitRepos conf0)" "r_Name rq = i" using look by auto
    then have "i \<in> r_Name ` set (GitRepos conf0)" by auto
    moreover have "rp = rq \<longleftrightarrow> r_Name rp = i" using rq uniq[of rq] by metis
    ultimately show ?thesis using Some assms(4) by (simp add: selects_def named_by_def)
  qed
qed

text \<open>C10: after the indexes are built, looking up a repository always returns (two calls are
  enough) and finds only what the identifier stands for in the configuration: the repository of
  that name, a member of the tag group of that name, or a repository with that tag. Selecting
  many lists no repository twice, and lists exactly those that one of the identifiers stands
  for. The members of the tag groups are assumed not to be tag groups themselves.\<close>

theorem repository_lookup_sound:
  assumes "rebuildIndexes conf0 = Return (ec, conf)" and "\<not> lookupProcessed conf0" and "set_add_ok a"
    and "flat_groups (TagGroups conf0)"
  shows "(\<exists>res. FindOne 2 conf name = Some res \<and> (\<forall>rp. res = Inr rp \<longrightarrow> named_by conf0 name rp)) \<and>
    distinct (map r_Name (FindAll a conf ids)) \<and>
    set (FindAll a conf ids) = {rp. \<exists>i \<in> set ids. named_by conf0 i rp}"
proof -
  note r = rebuildIndexes_indexed[OF assms(1,2)]
  note n = selects_named_by[OF assms(1,2,4)]
  have "find_all_loop a conf [] [] = []" by simp
  then have "FindAll a conf ids = find_all_loop a conf ids []" by (cases ids) (simp_all add: FindAll_def)
  with find_all_spec[OF assms(3) r(1), of ids "[]"] r(3)
  have all: "distinct (map r_Name (FindAll a conf ids))"
    "set (FindAll a conf ids) = {rp \<in> set (GitRepos conf0). \<exists>i \<in> set ids. selects conf i rp}" by simp_all
  moreover have "{rp \<in> set (GitRepos conf0). \<exists>i \<in> set ids. selects conf i rp} =
      {rp. \<exists>i \<in> set ids. named_by conf0 i rp}"
    using n named_by_def by blast
  moreover have "\<exists>res. FindOne 2 conf name = Some res \<and> (\<forall>rp. res = Inr rp \<longrightarrow> named_by conf0 name rp)"
    using FindOne_spec[OF r(1), of 0 name] r(3) n by (auto simp: numeral_2_eq_2)
  ultimately show ?thesis by simp
qed

definition demo_repo :: "string \<Rightarrow> string list \<Rightarrow> GitRepository" where
  "demo_repo name tags = \<lparr>r_Name = name, r_Path = ''/src/'' @ name, r_Remote = ''git@host:'' @ name,
     r_RemoteName = [], r_Branch = [], r_LocalSync = False, r_Fetch = True, r_Notify = False,
     r_Disabled = False, r_Logs = [], r_Pre = [], r_Post = [], r_Mirrors = [], r_Tags = tags\<rparr>"

definition demo_conf :: Configuration where
  "demo_conf = \<lparr>GitRepos = [demo_repo ''a'' [''go''], demo_repo ''b'' [''go'', ''doc'']], Projects = [],
     TagGroups = [(''all'', [''go'', ''b''])], lookupProcessed = False, cache_tags = [], cache_lookup = []\<rparr>"

definition demo_indexed :: Configuration where
  "demo_indexed = demo_conf\<lparr>cache_tags := [(''go'', [''a'', ''b'']), (''doc'', [''b'']), (''all'', [''b'', ''a''])],
     cache_lookup := [(''a'', demo_repo ''a'' [''go'']), (''b'', demo_repo ''b'' [''go'', ''doc''])],
     lookupProcessed := True\<rparr>"

lemma demo_rebuild: "rebuildIndexes demo_conf = Return ([], demo_indexed)"
  by code_simp

theorem repository_lookup_sound_witness:
  "distinct (map r_Name (FindAll list_add demo_indexed [''all'', ''a''])) \<and>
   demo_repo ''b'' [''go'', ''doc''] \<in> set (FindAll list_add demo_indexed [''all'', ''a''])"
proof -
  have "\<not> lookupProcessed demo_conf" "set_add_ok list_add" "flat_groups (TagGroups demo_conf)"
    by (simp_all add: demo_conf_def set_add_ok_def list_add_def flat_groups_def)
  note s = repository_lookup_sound [OF demo_rebuild this, of _ "[''all'', ''a'']"]
  have "named_by demo_conf ''all'' (demo_repo ''b'' [''go'', ''doc''])"
    by (simp add: named_by_def demo_conf_def demo_repo_def)
  with s show ?thesis by auto
qed

text \<open>A configuration with a tag group never validates: building the indexes stores every
  group among the tags, and the check that follows rejects a group whose name is a tag.\<close>

theorem tag_groups_never_validate:
  assumes "doValidate home conf = Return (ec, conf')" and "TagGroups conf \<noteq> []"
    and "\<not> lookupProcessed conf"
  shows "\<exists>grp \<in> fst ` set (TagGroups conf).
    Errf ''group name %q is an existing tag name'' [S grp] \<in> set ec"
proof -
  define conf1 where "conf1 = conf\<lparr>GitRepos := map snd (map (GitRepository_Validate home) (GitRepos conf))\<rparr>"
  from assms(1) obtain err pre where r: "rebuildIndexes conf1 = Return (err, conf')"
    and ec': "ec = pre @ concat (map (\<lambda>(grp, tags). tag_group_errors conf' grp tags) (TagGroups conf'))"
    unfolding doValidate_def Let_def conf1_def[symmetric]
    by (cases "rebuildIndexes conf1") (auto simp del: set_concat)
  have ec: "set (concat (map (\<lambda>(grp, tags). tag_group_errors conf' grp tags) (TagGroups conf'))) \<subseteq> set ec"
    unfolding ec' by simp
  have "\<not> lookupProcessed conf1" using assms(3) by (simp add: conf1_def)
  note idx = rebuildIndexes_indexed[OF r this]
  obtain grp tags where g: "(grp, tags) \<in> set (TagGroups conf)" using assms(2) by (cases "TagGroups conf") auto
  have tg: "TagGroups conf' = TagGroups conf" using idx(4) by (simp add: conf1_def)
  then have "map_of (cache_tags conf') grp \<noteq> None" using idx(2) g by force
  then have "Errf ''group name %q is an existing tag name'' [S grp] \<in> set (tag_group_errors conf' grp tags)"
    by (auto simp: tag_group_errors_def)
  then have "Errf ''group name %q is an existing tag name'' [S grp] \<in> set ec"
    using ec g tg by fastforce
  with g show ?thesis by force
qed

theorem tag_groups_never_validate_witness:
  "\<exists>ec conf'. doValidate ''/home/me'' demo_conf = Return (ec, conf') \<and>
     Errf ''group name %q is an existing tag name'' [S ''all''] \<in> set ec"
proof -
  have "\<exists>ec conf'. doValidate ''/home/me'' demo_conf = Return (ec, conf')"
    by (simp add: doValidate_def rebuildIndexes_def demo_conf_def demo_repo_def GitRepository_Validate_def
        repo_defaults_def Let_def split: prod.splits)
  then obtain ec conf' where e: "doValidate ''/home/me'' demo_conf = Return (ec, conf')" by blast
  from tag_groups_never_validate [OF e] show ?thesis using e by (auto simp: demo_conf_def)
qed

text \<open>The groups of repository commands: an enabled repository that fetches or syncs has
  exactly one pull command, whose worker fetches it, and an update command exactly when it
  syncs; no other repository has any.\<close>

theorem task_groups_cover_active_repos:
  "\<exists>update pull. ConcreteTaskGroups conf = [update, pull] \<and>
    List.map_filter cmd_WorkerDefinition (g_Commands pull) = map Fetch_Worker (filter wants_pull (GitRepos conf)) \<and>
    List.map_filter cmd_WorkerDefinition (g_Commands update) =
      map Update_Worker (filter (\<lambda>r. wants_pull r \<and> r_LocalSync r) (GitRepos conf)) \<and>
    map cmd_Name (g_Commands pull) = map r_Name (filter wants_pull (GitRepos conf))"
proof -
  have w: "(\<lambda>r. \<not> r_Disabled r \<and> \<not> (\<not> r_Fetch r \<and> \<not> r_LocalSync r)) = wants_pull"
    by (auto simp: wants_pull_def)
  show ?thesis
    unfolding ConcreteTaskGroups_def w Let_def
    by (simp add: List.map_filter_def comp_def)
qed

end
