(* ===== verification/Repo_Jobs.thy ===== *)
theory Repo_Jobs
  imports Repo
begin

text \<open>
  \<open>repo/jobs.go\<close>: the jobs of a repository. A job is run on the configuration of its repository,
  which it may change (the jobs share a pointer to it), in a world seen through a record of
  parameters: the file system, the process library and the git library. What other processes do to
  the world before a job that another one has started looks at it is a parameter as well, \<open>others\<close>. A job
  that starts another one costs a unit of fuel. The mirrors of an update are handled one after
  another. What is logged is left out.
\<close>

section \<open>Worlds and results\<close>

record 'w ops =
  op_stat :: "string \<Rightarrow> 'w \<Rightarrow> stat_result"
  op_run :: "'w run"
  op_git_clean :: "string \<Rightarrow> 'w \<Rightarrow> go_error + bool"
  op_home :: string
  op_hostname :: string

datatype 'w job_result =
    Done errors GitRepository 'w
  | Panicked go_error GitRepository 'w
  | Out_Of_Fuel

text \<open>A command line given as a string (\<open>Append\<close>), as arguments (\<open>AppendArgs\<close>), and to the shell
  (\<open>Bash\<close>).\<close>

definition line_args :: "string \<Rightarrow> string list" where "line_args s = [s]"
definition bash_args :: "string \<Rightarrow> string list" where "bash_args s = [''bash'', ''-c'', s]"

section \<open>Commands\<close>

definition fetch_cmd :: "string \<Rightarrow> GitRepository \<Rightarrow> jcommand" where
  "fetch_cmd hn conf = CreateCommand
     \<lparr>jc_id := ''fetch.REPO('' @ r_Name conf @ '').REMOTE('' @ r_RemoteName conf @ '').OPERATOR('' @ hn @ '')'',
      jc_dir := r_Path conf,
      jc_args := map line_args (r_Pre conf) @
        [[''git'', ''pull'', ''--keep'', ''--rebase'', ''--autostash'', r_RemoteName conf, r_Branch conf]] @
        map line_args (r_Post conf)\<rparr>"

definition clone_cmd :: "string \<Rightarrow> string \<Rightarrow> GitRepository \<Rightarrow> jcommand" where
  "clone_cmd nonce hn conf = CreateCommand
     \<lparr>jc_id := join_with ''.'' [''repo-clone'', nonce, hn, r_Name conf, ''clone''],
      jc_dir := path_dir (r_Path conf),
      jc_args := [[''git'', ''clone'', r_Remote conf, r_Path conf]] @ map line_args (r_Post conf)\<rparr>"

definition remoteUpdateCmdTemplate :: string where
  "remoteUpdateCmdTemplate =
     ''git add -A && git fetch origin && git rebase origin/$(git rev-parse --abbrev-ref HEAD)''"

definition syncCmd :: "string \<Rightarrow> string" where
  "syncCmd buildID = remoteUpdateCmdTemplate @ '' && git commit -a -m 'auto-update: ('' @ buildID @ '')'; git push''"

definition sync_build_id :: "string \<Rightarrow> string \<Rightarrow> GitRepository \<Rightarrow> string" where
  "sync_build_id hn host conf =
     (if host = hn then ''sync.LOCAL('' @ hn @ '').REPO('' @ r_Name conf @ '')''
      else ''sync.REMOTE('' @ host @ '').REPO('' @ r_Name conf @ '').OPERATOR('' @ hn @ '')'')"

definition sync_cmd :: "string \<Rightarrow> string \<Rightarrow> string \<Rightarrow> GitRepository \<Rightarrow> jcommand" where
  "sync_cmd hn host buildID conf =
     (let remote = (if host \<noteq> hn
            then [[''ssh'', host, ''cd '' @ r_Path conf @ '' && '' @ syncCmd buildID]] else []);
          rebase = ''git fetch origin && git rebase origin/$(git rev-parse --abbrev-ref HEAD)''
      in CreateCommand
        \<lparr>jc_id := buildID, jc_dir := r_Path conf,
         jc_args := remote @ map line_args (r_Pre conf) @
           [[''git'', ''add'', ''-A''], bash_args rebase,
            bash_args ''git ls-files -d | xargs -r git rm --ignore-unmatch --quiet -- '',
            [''git'', ''add'', ''-A''],
            bash_args (''git commit -a -m 'update: ('' @ buildID @ '')' || true''),
            [''git'', ''push'']] @
           remote @ (if host \<noteq> hn then [bash_args rebase] else []) @ map line_args (r_Post conf)\<rparr>)"

section \<open>Jobs\<close>

text \<open>\<open>SyncRemoteJob\<close>: the identifiers are those of the configuration the job was made from; a
  \<open>stat\<close> error other than a missing file leaves a nil file information, which the code asks
  whether it is a directory. The error of the command is only logged.\<close>

definition SyncRemoteJob :: "'w ops \<Rightarrow> string \<Rightarrow> GitRepository \<Rightarrow> 'w \<Rightarrow> 'w job_result" where
  "SyncRemoteJob ops host0 conf w =
     (let hn = op_hostname ops;
          host = (if host0 = ''LOCAL'' then hn else host0);
          buildID = sync_build_id hn host conf;
          bullet = buildID @ ''.PATH('' @ r_Path conf @ '')'';
          (ec, conf) = GitRepository_Validate (op_home ops) conf
      in if ec \<noteq> [] then Done [Wrapf ec bullet []] conf w
         else if host \<noteq> hn \<and> host \<notin> set (r_Mirrors conf)
           then Done [Errf ''%s: remote %q is not a configured'' [S bullet, S host]] conf w
         else
           (case op_stat ops (r_Path conf) w of
              Not_Exist \<Rightarrow> Done [Errf ''path '%s' for %q does not exist'' [S (r_Path conf), S buildID]] conf w
            | Stat_Error e \<Rightarrow> Panicked nil_deref conf w
            | Found is_dir \<Rightarrow>
                if \<not> is_dir
                then Done [Errf ''path '%s' for %q exists but is a %s'' [S (r_Path conf), S buildID]] conf w
                else (case op_run ops (sync_cmd hn host buildID conf) w of (err, w') \<Rightarrow> Done [] conf w')))"

datatype repo_job = Fetch_Job | Clone_Job

fun run_job :: "('w \<Rightarrow> 'w) \<Rightarrow> nat \<Rightarrow> 'w ops \<Rightarrow> string \<Rightarrow> repo_job \<Rightarrow> GitRepository \<Rightarrow> 'w \<Rightarrow> 'w job_result" where
  "run_job others 0 ops nonce job conf w = Out_Of_Fuel"
| "run_job others (Suc fuel) ops nonce Fetch_Job conf w =
     (let (ec, conf) = GitRepository_Validate (op_home ops) conf
      in if ec \<noteq> [] then Done ec conf w
         else if \<not> FileExists (\<lambda>p. op_stat ops p w) (r_Path conf)
           then run_job others fuel ops nonce Clone_Job conf (others w)
         else if r_RemoteName conf = [] \<or> r_Branch conf = []
           then Done [Errf ''repo-fetch requires defined remote name and branch for the repo'' []] conf w
         else (case op_run ops (fetch_cmd (op_hostname ops) conf) w of (err, w') \<Rightarrow> Done err conf w'))"
| "run_job others (Suc fuel) ops nonce Clone_Job conf w =
     (let (ec, conf) = GitRepository_Validate (op_home ops) conf
      in if ec \<noteq> [] then Done [Wrapf ec ''invalid config.'' []] conf w
         else if \<not> is_not_exist (op_stat ops (r_Path conf) w) then
           (if r_LocalSync conf
            then SyncRemoteJob ops (op_hostname ops) (conf\<lparr>r_Pre := [], r_Post := []\<rparr>) (others w)
            else if r_Fetch conf then run_job others fuel ops nonce Fetch_Job conf (others w)
            else Done [] conf w)
         else (case op_run ops (clone_cmd nonce (op_hostname ops) conf) w of (err, w') \<Rightarrow> Done err conf w'))"

text \<open>The status as the git library sees it: the files with what the index and the work tree say.\<close>

definition doOtherStat ::
    "(string \<Rightarrow> errors + 'r) \<Rightarrow> ('r \<Rightarrow> errors + 't) \<Rightarrow> ('t \<Rightarrow> errors + (string \<times> string \<times> string) list) \<Rightarrow>
     GitRepository \<Rightarrow> errors \<times> (string \<times> string \<times> string \<times> string) list" where
  "doOtherStat git_PlainOpen worktree status conf =
     (case git_PlainOpen (r_Path conf) of
        Inl err \<Rightarrow> (err, [])
      | Inr rp \<Rightarrow>
          (case worktree rp of
             Inl err \<Rightarrow> (err, [])
           | Inr wt \<Rightarrow>
               (case status wt of
                  Inl err \<Rightarrow> (err, [])
                | Inr stat \<Rightarrow> ([], map (\<lambda>(fn, staging, work). (fn, ''golib'', staging, work)) stat))))"

text \<open>The mirrors that an update syncs: those whose name does not contain the host's.\<close>

fun sync_mirrors ::
    "('w \<Rightarrow> 'w) \<Rightarrow> 'w ops \<Rightarrow> string list \<Rightarrow> GitRepository \<Rightarrow> 'w \<Rightarrow> errors \<Rightarrow> bool \<Rightarrow> 'w job_result \<times> bool" where
  "sync_mirrors others ops [] conf w ec hasMirrors = (Done ec conf w, hasMirrors)"
| "sync_mirrors others ops (mirror # mirrors) conf w ec hasMirrors =
     (if str_contains mirror (op_hostname ops) then sync_mirrors others ops mirrors conf w ec hasMirrors
      else
        (case SyncRemoteJob ops mirror conf (others w) of
           Done err conf w \<Rightarrow> sync_mirrors others ops mirrors conf w (ec @ err) True
         | r \<Rightarrow> (r, True)))"

definition UpdateJob :: "('w \<Rightarrow> 'w) \<Rightarrow> nat \<Rightarrow> 'w ops \<Rightarrow> string \<Rightarrow> GitRepository \<Rightarrow> 'w \<Rightarrow> 'w job_result" where
  "UpdateJob others fuel ops nonce conf w =
     (let (ec, conf) = GitRepository_Validate (op_home ops) conf
      in if ec \<noteq> [] then Done [Wrapf ec nonce []] conf w
         else
           (case sync_mirrors others ops (r_Mirrors conf) conf w [] False of
              (Done ec conf w0, hasMirrors) \<Rightarrow>
                let w = others w0
                in if ec \<noteq> [] then Done ec conf w
                else if r_LocalSync conf \<and> is_not_exist (op_stat ops (r_Path conf) w)
                  then run_job others fuel ops nonce Fetch_Job conf (others w)
                else if r_LocalSync conf \<and>
                    (case HasChanges (\<lambda>p. op_stat ops p w) (\<lambda>p. op_git_clean ops p w) conf of
                       (changes, err) \<Rightarrow> changes \<or> err \<noteq> None)
                  then SyncRemoteJob ops (op_hostname ops) conf (others w)
                else if r_Fetch conf \<or> hasMirrors \<or> r_LocalSync conf
                  then run_job others fuel ops nonce Fetch_Job conf (others w)
                else Done [] conf w
            | (r, hasMirrors) \<Rightarrow> r))"

definition CleanupJob :: "'w ops \<Rightarrow> GitRepository \<Rightarrow> 'w \<Rightarrow> 'w job_result" where
  "CleanupJob ops conf w =
     (if is_not_exist (op_stat ops (r_Path conf) w)
      then Done [Errf ''cannot cleanup %s, no repository exists'' [S (r_Path conf)]] conf w
      else
        (case op_run ops (CreateCommand\<lparr>jc_dir := r_Path conf,
                            jc_args := [[''git'', ''gc''], [''git'', ''prune'']]\<rparr>) w of
           (err, w') \<Rightarrow> Done err conf w'))"

definition getStatusCommandArgs :: "GitRepository \<Rightarrow> string list" where
  "getStatusCommandArgs conf =
     [''git'', ''log'', ''--date=relative'', ''--decorate'', ''-n'', ''1'',
      ''--format='' @ path_base (r_Path conf), '':%N (%cr) \"%s\"'']"

definition StatusJob :: "'w ops \<Rightarrow> GitRepository \<Rightarrow> 'w \<Rightarrow> 'w job_result" where
  "StatusJob ops conf w =
     (if is_not_exist (op_stat ops (r_Path conf) w)
      then Done [Errf ''cannot check status %s, no repository exists'' [S (r_Path conf)]] conf w
      else
        (case op_run ops (CreateCommand\<lparr>jc_dir := r_Path conf,
                  jc_args := [getStatusCommandArgs conf, [''git'', ''status'', ''--short'', ''--branch'']]\<rparr>) w of
           (err, w') \<Rightarrow>
             Done (err @ (case op_git_clean ops (r_Path conf) w' of Inl e \<Rightarrow> [e] | Inr _ \<Rightarrow> [])) conf w'))"

section \<open>What the jobs guarantee\<close>

lemma Validate_keeps [simp]:
  "r_Mirrors (snd (GitRepository_Validate home conf)) = r_Mirrors conf"
  "r_LocalSync (snd (GitRepository_Validate home conf)) = r_LocalSync conf"
  "r_Fetch (snd (GitRepository_Validate home conf)) = r_Fetch conf"
  "r_RemoteName (snd (GitRepository_Validate home conf)) \<noteq> []"
  "r_Branch (snd (GitRepository_Validate home conf)) \<noteq> []"
  by (simp_all add: GitRepository_Validate_def repo_defaults_def Let_def)

text \<open>A synchronisation that starts its command reports success whatever the command does:
  the error of the git commands is logged and replaced by nil. What it does report is a bad
  configuration, a mirror that is not configured and a path that is missing or no directory.\<close>

theorem SyncRemoteJob_hides_command_errors:
  assumes "GitRepository_Validate (op_home ops) conf = ([], conf')"
    and "host = op_hostname ops \<or> host = ''LOCAL'' \<or> host \<in> set (r_Mirrors conf)"
    and "op_stat ops (r_Path conf') w = Found True"
  shows "\<exists>cmd. jc_dir cmd = r_Path conf' \<and>
    SyncRemoteJob ops host conf w = Done [] conf' (snd (op_run ops cmd w))"
proof -
  define host' where "host' = (if host = ''LOCAL'' then op_hostname ops else host)"
  have m: "r_Mirrors conf' = r_Mirrors conf" using Validate_keeps(1)[of "op_home ops" conf] assms(1) by simp
  have "\<not> (host' \<noteq> op_hostname ops \<and> host' \<notin> set (r_Mirrors conf'))"
    using assms(2) by (auto simp: host'_def m)
  then have "SyncRemoteJob ops host conf w = Done [] conf'
      (snd (op_run ops (sync_cmd (op_hostname ops) host' (sync_build_id (op_hostname ops) host' conf) conf') w))"
    unfolding SyncRemoteJob_def Let_def host'_def [symmetric] using assms(1,3)
    by (auto split: prod.splits)
  moreover have "jc_dir (sync_cmd hn h b conf') = r_Path conf'" for hn h b
    by (simp add: sync_cmd_def Let_def)
  ultimately show ?thesis by blast
qed

definition failing_ops :: "jcommand list ops" where
  "failing_ops = \<lparr>op_stat = (\<lambda>p w. Found True), op_run = trace_run (\<lambda>c. [io_EOF]),
     op_git_clean = (\<lambda>p w. Inr True), op_home = ''/home/me'', op_hostname = ''box''\<rparr>"

theorem SyncRemoteJob_hides_command_errors_witness:
  "\<exists>conf' cmds. SyncRemoteJob failing_ops ''box'' (demo_repo ''a'' []) [] = Done [] conf' cmds \<and> length cmds = 1"
proof -
  obtain conf' where v: "GitRepository_Validate (op_home failing_ops) (demo_repo ''a'' []) = ([], conf')"
    by (simp add: GitRepository_Validate_def repo_defaults_def demo_repo_def Let_def Logging_Validate_def
        Logging_Default_def)
  from SyncRemoteJob_hides_command_errors [OF v, of "''box''" "[]"]
  show ?thesis by (auto simp: failing_ops_def trace_run_def)
qed

text \<open>The repository a job has been validated with: only its path can still change.\<close>

lemma Validate_path [simp]:
  "r_Path (snd (GitRepository_Validate home conf)) = TryExpandHomeDir home (r_Path conf)"
  by (simp add: GitRepository_Validate_def repo_defaults_def Let_def)

text \<open>Without a \<open>stat\<close> error other than for a missing file, synchronising ends with a list of errors.\<close>

definition no_stat_errors :: "'w ops \<Rightarrow> bool" where
  "no_stat_errors ops \<longleftrightarrow> (\<forall>p w e. op_stat ops p w \<noteq> Stat_Error e)"

definition is_done :: "'w job_result \<Rightarrow> bool" where
  "is_done r \<longleftrightarrow> (\<exists>err conf w. r = Done err conf w)"

lemma is_done_Done [simp]: "is_done (Done err conf w)" by (simp add: is_done_def)

lemma SyncRemoteJob_done: "no_stat_errors ops \<Longrightarrow> is_done (SyncRemoteJob ops host conf w)"
  by (auto simp: SyncRemoteJob_def no_stat_errors_def Let_def split: prod.splits stat_result.splits)

lemma sync_mirrors_done:
  "no_stat_errors ops \<Longrightarrow> is_done (fst (sync_mirrors others ops mirrors conf w ec hasMirrors))"
proof (induction mirrors arbitrary: conf w ec hasMirrors)
  case (Cons mirror mirrors)
  then show ?case
    using SyncRemoteJob_done[of ops mirror conf "others w"] by (auto simp: is_done_def)
qed simp

lemma run_job_done:
  assumes home: "is_abs (op_home ops)" and ns: "no_stat_errors ops"
    and same: "\<And>p w. (op_stat ops p (others w) = Not_Exist) = (op_stat ops p w = Not_Exist)"
  shows "is_done (run_job others 3 ops nonce job conf w)"
proof -
  obtain e1 c1 where v1: "GitRepository_Validate (op_home ops) conf = (e1, c1)" by fastforce
  obtain e2 c2 where v2: "GitRepository_Validate (op_home ops) c1 = (e2, c2)" by fastforce
  obtain e3 c3 where v3: "GitRepository_Validate (op_home ops) c2 = (e3, c3)" by fastforce
  have "r_Path c3 = r_Path c2"
    using expand_home_stable[OF home, of "r_Path conf"] Validate_path[of "op_home ops" conf]
      Validate_path[of "op_home ops" c1] Validate_path[of "op_home ops" c2] v1 v2 v3 by simp_all
  then show ?thesis
    using v1 v2 v3 SyncRemoteJob_done[OF ns]
    by (cases job) (auto simp: eval_nat_numeral FileExists_def same split: prod.splits)
qed

text \<open>C17: the jobs of a repository always return, with a list of errors: they neither panic nor call
  each other for ever. The repository may be any, valid or not, and so may the answers of the
  processes and of the git library; the hypotheses are that the home directory is absolute, that
  asking for a file has no error other than that it is missing (otherwise a synchronisation
  dereferences nil), and that nobody else makes a missing path or removes an existing one
  while one job starts another. Then no more than three calls are made: fetching a missing
  repository is cloning it, and cloning one that is there is fetching it.\<close>

theorem repository_jobs_return:
  assumes "is_abs (op_home ops)"
    and "\<And>p w e. op_stat ops p w \<noteq> Stat_Error e"
    and "\<And>p w. (op_stat ops p (others w) = Not_Exist) = (op_stat ops p w = Not_Exist)"
  shows "(\<exists>err conf' w'. run_job others 3 ops nonce job conf w = Done err conf' w') \<and>
    (\<exists>err conf' w'. UpdateJob others 3 ops nonce conf w = Done err conf' w')"
proof -
  have ns: "no_stat_errors ops" using assms(2) by (simp add: no_stat_errors_def)
  note jobs = run_job_done[OF assms(1) ns assms(3)]
  have "is_done (UpdateJob others 3 ops nonce conf w)"
  proof -
    obtain ec c where v: "GitRepository_Validate (op_home ops) conf = (ec, c)" by fastforce
    obtain ec' c' w' b where "sync_mirrors others ops (r_Mirrors c) c w [] False = (Done ec' c' w', b)"
      using sync_mirrors_done[OF ns, of others "r_Mirrors c" c w "[]" False] unfolding is_done_def
      by (metis prod.collapse)
    with v show ?thesis using jobs SyncRemoteJob_done[OF ns] by (simp add: UpdateJob_def Let_def split: prod.split)
  qed
  with jobs show ?thesis by (simp add: is_done_def)
qed

theorem repository_jobs_return_witness:
  "(\<exists>err conf' w'. run_job (\<lambda>w. w) 3 failing_ops ''n'' Clone_Job (demo_repo ''a'' []) [] = Done err conf' w') \<and>
   run_job (\<lambda>w. w) 1 failing_ops ''n'' Clone_Job (demo_repo ''a'' []) [] = Out_Of_Fuel"
proof
  show "\<exists>err conf' w'. run_job (\<lambda>w. w) 3 failing_ops ''n'' Clone_Job (demo_repo ''a'' []) [] = Done err conf' w'"
    using repository_jobs_return[of failing_ops "\<lambda>w. w" "''n''" Clone_Job "demo_repo ''a'' []" "[]"]
    by (simp add: failing_ops_def is_abs_def has_prefix_def)
  show "run_job (\<lambda>w. w) 1 failing_ops ''n'' Clone_Job (demo_repo ''a'' []) [] = Out_Of_Fuel"
    by code_simp
qed

text \<open>When somebody makes the path whenever the fetch has found it missing and removes it whenever the
  clone has found it there, the two jobs call each other for ever: no fuel is enough.\<close>

definition alternating_ops :: "bool ops" where
  "alternating_ops = \<lparr>op_stat = (\<lambda>p there. if there then Found True else Not_Exist),
     op_run = (\<lambda>cmd there. ([], there)), op_git_clean = (\<lambda>p there. Inr True),
     op_home = ''/home/me'', op_hostname = ''box''\<rparr>"

theorem alternating_jobs_never_return:
  "run_job Not fuel alternating_ops ''n'' Fetch_Job (demo_repo ''a'' []) False = Out_Of_Fuel"
proof -
  define conf' where "conf' = (demo_repo ''a'' [])\<lparr>r_Branch := ''main'', r_RemoteName := ''origin'', r_Logs := ''errors-only''\<rparr>"
  have v: "GitRepository_Validate (op_home alternating_ops) (demo_repo ''a'' []) = ([], conf')"
    "GitRepository_Validate (op_home alternating_ops) conf' = ([], conf')"
    and f: "r_LocalSync conf' = False" "r_Fetch conf' = True"
    unfolding conf'_def by code_simp+
  have s: "op_stat alternating_ops p there = (if there then Found True else Not_Exist)" for p there
    by (simp add: alternating_ops_def)
  have "run_job Not fuel alternating_ops ''n'' Fetch_Job conf' False = Out_Of_Fuel \<and>
      run_job Not fuel alternating_ops ''n'' Clone_Job conf' True = Out_Of_Fuel"
    by (induction fuel) (simp_all add: v f s FileExists_def)
  then show ?thesis using v by (cases fuel) (simp_all add: s FileExists_def)
qed

text \<open>C18: fetching and cloning a valid repository (whose settings validation accepts and does not change
  a second time, at a path that is missing or a directory and that nobody else makes or removes
  meanwhile) run at most one command, and its error is what is reported. Fetching runs the pull in
  an existing repository and the clone for a missing one. Cloning runs the clone for a missing
  one. Of an existing one it synchronises the work tree when that is set, with exactly the command of
  the local synchronisation, whose error is hidden, and, since the copy it makes is a copy of the
  pointer, leaves the configuration itself without its pre and post commands; otherwise it runs the
  pull when fetching is set, and otherwise nothing.\<close>

theorem fetch_clone_dispatch:
  assumes "GitRepository_Validate (op_home ops) conf = ([], conf')"
    and "GitRepository_Validate (op_home ops) conf' = ([], conf')"
    and "op_stat ops (r_Path conf') w = Not_Exist \<or> op_stat ops (r_Path conf') w = Found True"
    and "op_stat ops (r_Path conf') (others w) = op_stat ops (r_Path conf') w"
  shows "run_job others 3 ops nonce Fetch_Job conf w =
      (if op_stat ops (r_Path conf') w = Not_Exist
       then case op_run ops (clone_cmd nonce (op_hostname ops) conf') (others w) of (err, w') \<Rightarrow> Done err conf' w'
       else case op_run ops (fetch_cmd (op_hostname ops) conf') w of (err, w') \<Rightarrow> Done err conf' w') \<and>
    run_job others 3 ops nonce Clone_Job conf w =
      (if op_stat ops (r_Path conf') w = Not_Exist
       then case op_run ops (clone_cmd nonce (op_hostname ops) conf') w of (err, w') \<Rightarrow> Done err conf' w'
       else if r_LocalSync conf
       then let bare = conf'\<lparr>r_Pre := [], r_Post := []\<rparr>;
                sync = sync_cmd (op_hostname ops) (op_hostname ops)
                  (''sync.LOCAL('' @ op_hostname ops @ '').REPO('' @ r_Name conf' @ '')'') bare
            in case op_run ops sync (others w) of (err, w') \<Rightarrow> Done [] bare w'
       else if r_Fetch conf
       then case op_run ops (fetch_cmd (op_hostname ops) conf') (others w) of (err, w') \<Rightarrow> Done err conf' w'
       else Done [] conf' w)"
proof -
  have keep: "r_RemoteName conf' \<noteq> []" "r_Branch conf' \<noteq> []" "r_LocalSync conf' = r_LocalSync conf"
    "r_Fetch conf' = r_Fetch conf"
    using Validate_keeps[of "op_home ops" conf] assms(1) by auto
  have three: "3 = Suc (Suc (Suc 0))" by simp
  let ?bare = "conf'\<lparr>r_Pre := [], r_Post := []\<rparr>"
  have d: "repo_defaults (op_home ops) conf' = conf'"
    using assms(2) by (auto simp: GitRepository_Validate_def Let_def)
  have "repo_defaults (op_home ops) ?bare = (repo_defaults (op_home ops) conf')\<lparr>r_Pre := [], r_Post := []\<rparr>"
    by (simp add: repo_defaults_def Let_def TryExpandHomeDirs_def Apply_def)
  then have db: "repo_defaults (op_home ops) ?bare = ?bare" by (simp add: d)
  have vb: "GitRepository_Validate (op_home ops) ?bare = ([], ?bare)"
    using assms(2) unfolding GitRepository_Validate_def Let_def db d by auto
  have sync: "SyncRemoteJob ops (op_hostname ops) ?bare u =
      (case op_run ops (sync_cmd (op_hostname ops) (op_hostname ops)
        (''sync.LOCAL('' @ op_hostname ops @ '').REPO('' @ r_Name conf' @ '')'') ?bare) u of
        (err, w') \<Rightarrow> Done [] ?bare w')"
    if "op_stat ops (r_Path conf') u = Found True" for u
    using that vb by (simp add: SyncRemoteJob_def sync_build_id_def Let_def split: prod.splits)
  show ?thesis
  proof (cases "op_stat ops (r_Path conf') w = Not_Exist")
    case True
    with assms keep show ?thesis
      unfolding three by (simp add: FileExists_def split: prod.splits)
  next
    case False
    with assms(3) have dir: "op_stat ops (r_Path conf') w = Found True" by simp
    with assms(4) have dir2: "op_stat ops (r_Path conf') (others w) = Found True" by simp
    show ?thesis
    proof (cases "r_LocalSync conf")
      case True
      with dir dir2 assms keep sync[OF dir2] show ?thesis
        unfolding three by (simp add: FileExists_def Let_def)
    next
      case False
      with dir dir2 assms keep show ?thesis
        unfolding three by (simp add: FileExists_def)
    qed
  qed
qed

theorem fetch_clone_dispatch_witness:
  "\<exists>conf' cmd. run_job (\<lambda>w. w) 3 failing_ops ''n'' Fetch_Job (demo_repo ''a'' []) [] = Done [io_EOF] conf' [cmd] \<and>
     jc_args cmd = [[''git'', ''pull'', ''--keep'', ''--rebase'', ''--autostash'', ''origin'', ''main'']]"
proof -
  define conf' where "conf' = (demo_repo ''a'' [])\<lparr>r_Branch := ''main'', r_RemoteName := ''origin'', r_Logs := ''errors-only''\<rparr>"
  have v: "GitRepository_Validate (op_home failing_ops) (demo_repo ''a'' []) = ([], conf')"
    "GitRepository_Validate (op_home failing_ops) conf' = ([], conf')"
    unfolding conf'_def by code_simp+
  have s: "op_stat failing_ops (r_Path conf') [] = Found True" by (simp add: failing_ops_def)
  from fetch_clone_dispatch [OF v disjI2 [OF s], of "\<lambda>w. w" "''n''"] show ?thesis
    by (simp add: s Let_def) (simp add: failing_ops_def trace_run_def fetch_cmd_def conf'_def demo_repo_def)
qed

end
