(* ===== verification/Systemd.thy ===== *)
theory Systemd
  imports Subexec_Group
begin

text \<open>
  Services of \<open>sysmgmt/systemd.go\<close>: their validation, the worker that sets one up, and the group
  of commands each contributes to the operations. The worker runs one process; what it logs is
  left out.
\<close>

section \<open>Services\<close>

record SystemdService =
  sd_Name :: string
  sd_Unit :: string
  sd_User :: bool
  sd_System :: bool
  sd_Enabled :: bool
  sd_Disabled :: bool
  sd_Start :: bool

definition SystemdService_Validate :: "SystemdService \<Rightarrow> errors" where
  "SystemdService_Validate c =
     when_err (sd_Name c = []) (Errf ''must specify service name'' []) @
     when_err (sd_Unit c = []) (Errf ''cannot specify empty unit for %q'' [S (sd_Name c)]) @
     when_err (sd_User c \<and> sd_System c \<or> \<not> sd_User c \<and> \<not> sd_System c)
       (Errf ''must specify either user or service for %q'' [S (sd_Name c)]) @
     when_err (sd_Disabled c \<and> sd_Enabled c \<or> \<not> sd_Disabled c \<and> \<not> sd_Enabled c)
       (Errf ''must specify either disabled or enabled for %q'' [S (sd_Name c)])"

definition SystemdConfiguration_Validate :: "SystemdService list \<Rightarrow> errors" where
  "SystemdConfiguration_Validate services = concat (map SystemdService_Validate services)"

text \<open>The command lines of a set up: \<open>None\<close> when no case of the code's switch applies.\<close>

definition setup_lines :: "SystemdService \<Rightarrow> string list list option" where
  "setup_lines conf =
     (if sd_User conf \<and> sd_Enabled conf then
        Some ([''systemctl'', ''--user'', ''enable'', sd_Unit conf] #
          (if sd_Start conf then [[''systemctl'', ''--user'', ''start'', sd_Unit conf]] else []))
      else if sd_User conf \<and> sd_Disabled conf then
        Some [[''systemctl'', ''--user'', ''disable'', sd_Unit conf],
              [''systemctl'', ''--user'', ''stop'', sd_Unit conf]]
      else if sd_System conf \<and> sd_Enabled conf then
        Some ([''systemctl'', ''enable'', sd_Unit conf] #
          (if sd_Start conf then [[''systemctl'', ''start'', sd_Unit conf]] else []))
      else if sd_System conf \<and> sd_Disabled conf then
        Some [[''systemctl'', ''disable'', sd_Unit conf], [''systemctl'', ''stop'', sd_Unit conf]]
      else None)"

text \<open>The job identifier gives the name of the operation as the host and the host as the service:
  the arguments of the format are in that order.\<close>

definition setup_cmd :: "string \<Rightarrow> SystemdService \<Rightarrow> string list list \<Rightarrow> jcommand" where
  "setup_cmd hn conf args = CreateCommand
     \<lparr>jc_id := ''OP('' @ sd_Name conf @ '').SERVICE('' @ hn @ '').HOST(sytemd-service-setup).UNIT('' @
        sd_Unit conf @ '')'',
      jc_sudo := sd_System conf, jc_args := args\<rparr>"

definition SystemdService_Worker :: "'w run \<Rightarrow> string \<Rightarrow> SystemdService \<Rightarrow> 'w \<Rightarrow> errors \<times> 'w" where
  "SystemdService_Worker run hn conf w =
     (case setup_lines conf of
        Some args \<Rightarrow> run (setup_cmd hn conf args) w
      | None \<Rightarrow>
          if SystemdService_Validate conf \<noteq> [] then (SystemdService_Validate conf, w)
          else run (setup_cmd hn conf []) w)"

section \<open>Task groups\<close>

definition unit_command :: "SystemdService \<Rightarrow> string" where
  "unit_command service = (if sd_User service then ''systemctl --user'' else ''sudo systemctl'')"

definition service_group :: "SystemdService \<Rightarrow> SystemdService Group" where
  "service_group service =
     (let op = (if sd_User service then ''user'' else ''system'');
          simple = (\<lambda>name hint. empty_Command\<lparr>cmd_Name := name, cmd_SortHint := hint\<rparr>);
          window = ''alacritty msg create-window --title {{group.name}}.{{prefix}}.{{name}} --command ''
      in empty_Group
        \<lparr>g_Category := ''systemd'', g_Name := sd_Name service, g_Notify := Some True, g_Synthetic := True,
         g_CmdNamePrefix := op, g_SortHint := - 64,
         g_Command := unit_command service @ '' {{name}} '' @ sd_Unit service,
         g_Commands :=
           [simple ''restart'' 32, simple ''stop'' 16, simple ''start'' 8, simple ''enable'' 4,
            simple ''disable'' (- 2),
            (simple ''setup'' (- 4))\<lparr>cmd_WorkerDefinition := Some service\<rparr>,
            (simple ''logs'' (- 2))\<lparr>cmd_OverrideDefault := True,
               cmd_Command := window @ ''journalctl --follow --pager-end --unit '' @ sd_Unit service\<rparr>,
            (simple ''status'' (- 3))\<lparr>cmd_OverrideDefault := True,
               cmd_Command := window @ unit_command service @ '' {{name}} '' @ sd_Unit service\<rparr>]\<rparr>)"

definition TaskGroups :: "SystemdService list \<Rightarrow> SystemdService Group list" where
  "TaskGroups services = map service_group services"

section \<open>What the set up does\<close>

lemma Validate_iff:
  "SystemdService_Validate c = [] \<longleftrightarrow> sd_Name c \<noteq> [] \<and> sd_Unit c \<noteq> [] \<and>
     sd_System c = (\<not> sd_User c) \<and> sd_Disabled c = (\<not> sd_Enabled c)"
  by (auto simp: SystemdService_Validate_def)

text \<open>C24: the worker of a service that validates always runs one process, with the privileges of
  the super user exactly for a system service, whose lines are \<open>systemctl\<close> on the unit, for the
  user manager exactly for a user service: \<open>enable\<close> and, when asked to, \<open>start\<close>; or
  \<open>disable\<close> and then \<open>stop\<close>. Its error is the worker's. For any service, nothing runs unless it is
  enabled or disabled, for the user or the system; a user service that says it is enabled and
  disabled, which is not valid, is set up all the same, as an enabled one.\<close>

theorem systemd_setup:
  "(SystemdService_Validate c = [] \<longrightarrow>
      (let verbs = (if sd_Enabled c then ''enable'' # (if sd_Start c then [''start''] else [])
                    else [''disable'', ''stop'']);
           cmd = setup_cmd hn c (map (\<lambda>v. ''systemctl'' # (if sd_User c then [''--user''] else []) @ [v, sd_Unit c]) verbs)
       in jc_sudo cmd = (\<not> sd_User c) \<and> SystemdService_Worker run hn c w = run cmd w)) \<and>
   (\<not> (sd_User c \<or> sd_System c) \<or> \<not> (sd_Enabled c \<or> sd_Disabled c) \<longrightarrow>
      SystemdService_Worker run hn c w = (SystemdService_Validate c, w) \<and> SystemdService_Validate c \<noteq> []) \<and>
   (sd_User c \<and> sd_Enabled c \<longrightarrow>
      SystemdService_Worker run hn c w =
        SystemdService_Worker run hn (c\<lparr>sd_Disabled := False\<rparr>) w)"
  by (auto simp: Validate_iff SystemdService_Worker_def setup_lines_def setup_cmd_def CreateCommand_def Let_def)

definition demo_service :: SystemdService where
  "demo_service = \<lparr>sd_Name = ''mail'', sd_Unit = ''mail.service'', sd_User = True, sd_System = False,
     sd_Enabled = True, sd_Disabled = False, sd_Start = True\<rparr>"

theorem systemd_setup_witness:
  "SystemdService_Worker (trace_run (\<lambda>_. [])) ''host'' demo_service [] =
     ([], [setup_cmd ''host'' demo_service
        [[''systemctl'', ''--user'', ''enable'', ''mail.service''],
         [''systemctl'', ''--user'', ''start'', ''mail.service'']]])"
  using conjunct1 [OF systemd_setup [where c = demo_service and run = "trace_run (\<lambda>_. [])" and hn = "''host''" and w = "[]"]]
  by (simp add: Validate_iff demo_service_def trace_run_def Let_def)

section \<open>What the commands of a service run\<close>

lemma replace_all_skip:
  assumes "p = c # r" and "c \<notin> set pre"
  shows "replace_all (pre @ s) p new = pre @ replace_all s p new"
  using assms(2)
proof (induction pre)
  case (Cons a pre)
  then have "\<not> has_prefix (a # pre @ s) p" by (auto simp: assms(1) has_prefix_def)
  with Cons show ?case by (simp add: assms(1))
qed simp

lemma no_name_template:
  "CHR ''{'' \<notin> set post \<Longrightarrow> replace_all (''{{name}}'' @ post) ''{{command}}'' new = ''{{name}}'' @ post"
  using replace_all_none [of "''{{command}}''" "CHR ''{''" "''{command}}''" post new]
  by (simp add: has_prefix_def)

text \<open>A verb put into the template of a group.\<close>

lemma verb_command:
  assumes "CHR ''{'' \<notin> set pre" and "CHR ''{'' \<notin> set post" and "CHR ''{'' \<notin> set name" and "pre \<noteq> []"
    and "g_Command g = pre @ ''{{name}}'' @ post"
  shows "cmd_Command (fill_command expand home g (empty_Command\<lparr>cmd_Name := name, cmd_SortHint := h\<rparr>)) =
    pre @ name @ post"
proof -
  have "replace_all (pre @ ''{{name}}'' @ post) ''{{command}}'' new = pre @ ''{{name}}'' @ post" for new
    using replace_all_skip [of "''{{command}}''" "CHR ''{''" "''{command}}''" pre "''{{name}}'' @ post" new]
      no_name_template [OF assms(2), of new] assms(1) by simp
  then have d: "default_command (g_Command g) [] name = pre @ ''{{name}}'' @ post"
    using assms(4) by (simp add: default_command_def assms(5) Default_def)
  have t: "has_template (pre @ ''{{name}}'' @ post)"
    by (auto simp: has_template_def str_contains_iff intro: exI[of _ "pre @ ''{{name''"] exI[of _ pre])
  have "replace_all (pre @ ''{{name}}'' @ post) ''{{name}}'' name = pre @ name @ post"
    using replace_all_once [of "''{{name}}''" "CHR ''{''" "''{name}}''" pre post name]
      replace_all_none [of "''{{name}}''" "CHR ''{''" "''{name}}''" post name] assms(1,2) by simp
  moreover have "replace_all (pre @ name @ post) (CHR ''{'' # r) new = pre @ name @ post" for r new
    using assms(1-3) by (intro replace_all_none [OF refl]) simp
  ultimately have "expand_command g name [] (pre @ ''{{name}}'' @ post) = pre @ name @ post"
    using t by (simp only: expand_command_def Let_def if_True)
  then show ?thesis by (simp add: fill_command_def Let_def d empty_Command_def)
qed

text \<open>C23: the group of commands of a service that validates (with no brace in its unit) validates
  without errors and keeps the name of the service. It has eight commands, whose names begin with
  the manager of the unit; of these, restarting, stopping, starting, enabling and disabling run
  \<open>systemctl\<close> with that verb on the unit, for a user service with \<open>--user\<close> and for a system service
  with \<open>sudo\<close>. The sixth, \<open>setup\<close>, and no other has a worker, which is the one of this service.\<close>

theorem systemd_group_commands:
  assumes "SystemdService_Validate c = []" and "CHR ''{'' \<notin> set (sd_Unit c)"
    and "Group_Validate expand home (service_group c) = (ec, g)"
  shows "ec = [] \<and> g_Name g = sd_Name c \<and>
    map cmd_Name (g_Commands g) = map (\<lambda>n. DotJoin [if sd_User c then ''user'' else ''system'', n])
      [''restart'', ''stop'', ''start'', ''enable'', ''disable'', ''setup'', ''logs'', ''status''] \<and>
    map cmd_Command (take 5 (g_Commands g)) =
      map (\<lambda>verb. (if sd_User c then ''systemctl --user '' else ''sudo systemctl '') @ verb @ '' '' @ sd_Unit c)
        [''restart'', ''stop'', ''start'', ''enable'', ''disable''] \<and>
    map cmd_WorkerDefinition (g_Commands g) = [None, None, None, None, None, Some c, None, None]"
proof -
  have n: "sd_Name c \<noteq> []" using assms(1) by (simp add: Validate_iff)
  let ?g = "service_group c"
  have sel: "g_MenuSelections ?g = []" "rename_group ?g = ?g" "g_Name ?g = sd_Name c"
    "g_CmdNamePrefix ?g = (if sd_User c then ''user'' else ''system'')"
    using n by (simp_all add: service_group_def empty_Group_def rename_group_def Let_def)
  have up: "?g\<lparr>g_Commands := g_Commands ?g @ []\<rparr> = ?g" by simp
  have g: "g_Commands g = map (fill_command expand home ?g) (g_Commands ?g)" "g_Name g = sd_Name c"
    and ec: "ec = concat (map (\<lambda>(idx, cmd). command_errors ?g idx cmd)
       (zip [0..<length (g_Commands ?g)] (g_Commands ?g)))"
    using assms(3) n unfolding Group_Validate_def Let_def sel list.map up
    by (auto simp: sel)
  have tmpl: "g_Command ?g = (unit_command c @ '' '') @ ''{{name}}'' @ ('' '' @ sd_Unit c)"
    by (simp add: service_group_def Let_def)
  have verb: "cmd_Command (fill_command expand home ?g (empty_Command\<lparr>cmd_Name := v, cmd_SortHint := h\<rparr>)) =
      unit_command c @ '' '' @ v @ '' '' @ sd_Unit c" if "CHR ''{'' \<notin> set v" for v h
    using verb_command [OF _ _ that _ tmpl, of expand home h] assms(2) by (simp add: unit_command_def)
  have "ec = []" unfolding ec concat_errors_nil
    by (simp add: service_group_def empty_Command_def Let_def)
  moreover have "map cmd_Name (g_Commands g) = map (\<lambda>n. DotJoin [if sd_User c then ''user'' else ''system'', n])
      (map cmd_Name (g_Commands ?g))"
    by (simp add: g(1) sel)
  moreover have "map cmd_Name (g_Commands ?g) =
      [''restart'', ''stop'', ''start'', ''enable'', ''disable'', ''setup'', ''logs'', ''status'']"
    by (simp add: service_group_def empty_Command_def Let_def)
  moreover have "take 5 (g_Commands ?g) = map (\<lambda>(n, h). empty_Command\<lparr>cmd_Name := n, cmd_SortHint := h\<rparr>)
      [(''restart'', 32), (''stop'', 16), (''start'', 8), (''enable'', 4), (''disable'', - 2)]"
    by (simp add: service_group_def Let_def)
  then have "map cmd_Command (take 5 (g_Commands g)) =
      map (\<lambda>verb. (if sd_User c then ''systemctl --user '' else ''sudo systemctl '') @ verb @ '' '' @ sd_Unit c)
        [''restart'', ''stop'', ''start'', ''enable'', ''disable'']"
    by (simp add: g(1) take_map verb unit_command_def)
  moreover have "cmd_WorkerDefinition (fill_command expand home ?g d) = cmd_WorkerDefinition d" for d
    by (simp add: fill_command_def Let_def)
  then have "map cmd_WorkerDefinition (g_Commands g) = [None, None, None, None, None, Some c, None, None]"
    by (simp add: g(1) service_group_def Let_def empty_Command_def)
  ultimately show ?thesis using g(2) by simp
qed

theorem systemd_group_commands_witness:
  "fst (Group_Validate (\<lambda>p. p) ''/home/u'' (service_group demo_service)) = [] \<and>
   cmd_Command (g_Commands (snd (Group_Validate (\<lambda>p. p) ''/home/u'' (service_group demo_service))) ! 0) =
     ''systemctl --user restart mail.service''"
proof -
  obtain ec g where v: "Group_Validate (\<lambda>p. p) ''/home/u'' (service_group demo_service) = (ec, g)" by fastforce
  have d: "SystemdService_Validate demo_service = []" "CHR ''{'' \<notin> set (sd_Unit demo_service)"
    by (simp_all add: Validate_iff demo_service_def)
  note s = systemd_group_commands [OF d v]
  note m = s [THEN conjunct2, THEN conjunct2, THEN conjunct2, THEN conjunct1]
  have "cmd_Command (g_Commands g ! 0) = ''systemctl --user restart mail.service''"
    using m by (cases "g_Commands g") (simp_all add: demo_service_def)
  with conjunct1 [OF s] v show ?thesis by simp
qed

end
