(* ===== verification/Links.thy ===== *)
theory Links
  imports Jasper
begin

text \<open>
  Symbolic links of \<open>sysmgmt/links.go\<close> and their discovery, \<open>sysmgmt/discovery.go\<close>: validation,
  the job that creates or updates a link, and the search for the links of a tree. The file
  system and the processes are a world passed along; walking a tree is a parameter.
\<close>

section \<open>links.go\<close>

record LinkDefinition =
  l_Name :: string
  l_Path :: string
  l_Target :: string
  l_Update :: bool
  l_RequireSudo :: bool
  l_Defined :: bool
  l_PathExists :: bool
  l_TargetExists :: bool

record LinkDiscovery =
  SearchPaths :: "string list"
  IgnorePathPrefixes :: "string list"
  IgnoreTargetPrefixes :: "string list"
  SkipMissingTargets :: "bool option"
  SkipResolvedTargets :: "bool option"

definition new_LinkDiscovery :: LinkDiscovery where
  "new_LinkDiscovery = \<lparr>SearchPaths = [], IgnorePathPrefixes = [], IgnoreTargetPrefixes = [],
     SkipMissingTargets = None, SkipResolvedTargets = None\<rparr>"

record LinkConfiguration =
  lc_Links :: "LinkDefinition list"
  lc_ManagedLinkTrees :: "(string \<times> bool) list"
  lc_Discovery :: "LinkDiscovery option"

definition LinkConfiguration_Resolve :: "LinkConfiguration \<Rightarrow> (string \<times> LinkDefinition) list" where
  "LinkConfiguration_Resolve conf = fold (\<lambda>link out. upd (l_Path link) link out) (lc_Links conf) []"

definition LessThan :: "LinkDefinition \<Rightarrow> LinkDefinition \<Rightarrow> bool" where
  "LessThan lnd other \<longleftrightarrow> l_Path lnd < l_Path other \<or> (\<not> l_PathExists lnd \<and> l_PathExists other) \<or>
     (\<not> l_TargetExists lnd \<and> l_TargetExists other)"

definition LinkDefinition_Validate :: "LinkDefinition \<Rightarrow> errors \<times> LinkDefinition" where
  "LinkDefinition_Validate lnd =
     (let ec1 = when_err (l_Target lnd = []) (Errf ''must specify a link target'' []);
          (ec2, lnd) =
            (if l_Name lnd = [] then
               let fn = path_dir (l_Path lnd)
               in if fn \<noteq> [] then ([], lnd\<lparr>l_Name := fn\<rparr>)
                  else ([Errf ''must specify a name for the link'' []], lnd)
             else ([], lnd));
          (ec3, lnd) =
            (if l_Path lnd = [] then
               let base = path_base (l_Name lnd); fn = path_dir (l_Name lnd)
               in if base \<noteq> [] \<and> fn \<noteq> [] then ([], lnd\<lparr>l_Path := base, l_Name := fn\<rparr>)
                  else ([Errf ''must specify a location for the link'' []], lnd)
             else ([], lnd))
      in (ec1 @ ec2 @ ec3, lnd))"

text \<open>A link whose expansion fails keeps its old definition.\<close>

definition expand_link ::
    "(string \<Rightarrow> string \<times> errors) \<Rightarrow> string \<Rightarrow> LinkDefinition \<Rightarrow> errors \<times> LinkDefinition" where
  "expand_link homedir_Expand hostname lnk0 =
     (let lnk = lnk0\<lparr>l_Target := replace_all (l_Target lnk0) ''{{hostname}}'' hostname,
                     l_Path := replace_all (l_Path lnk0) ''{{hostname}}'' hostname\<rparr>;
          (target, err) = homedir_Expand (l_Target lnk)
      in if err \<noteq> [] then (err, lnk0)
         else
           let (path, err) = homedir_Expand (l_Path lnk)
           in if err \<noteq> [] then (err, lnk0)
              else ([], lnk\<lparr>l_Target := target, l_Path := path\<rparr>))"

definition expand ::
    "(string \<Rightarrow> string \<times> errors) \<Rightarrow> string \<Rightarrow> LinkConfiguration \<Rightarrow> errors \<times> LinkConfiguration" where
  "expand homedir_Expand hostname conf =
     (let rs = map (expand_link homedir_Expand hostname) (lc_Links conf)
      in (concat (map fst rs), conf\<lparr>lc_Links := map snd rs\<rparr>))"

section \<open>discovery.go\<close>

text \<open>\<open>tryAbsPath\<close> returns its argument when the absolute path is known, and the empty result of
  \<open>filepath.Abs\<close> when it is not.\<close>

definition tryAbsPath :: "(string \<Rightarrow> go_error + string) \<Rightarrow> string \<Rightarrow> string" where
  "tryAbsPath filepath_Abs path =
     (case filepath_Abs path of Inl err \<Rightarrow> [] | Inr p \<Rightarrow> path)"

text \<open>The check of the search paths: a path that cannot be examined has no file information, and
  asking it for its mode panics, which ends the check; the panic is collected as an error.\<close>

fun check_search :: "(string \<Rightarrow> stat_result) \<Rightarrow> string list \<Rightarrow> errors \<times> bool" where
  "check_search stat [] = ([], True)"
| "check_search stat (path # paths) =
     (case stat path of
        Not_Exist \<Rightarrow> ([Errf ''link search tree %q does not exist'' [S path], nil_deref], False)
      | Stat_Error e \<Rightarrow> ([nil_deref], False)
      | Found is_dir \<Rightarrow>
          (case check_search stat paths of (ec, ok) \<Rightarrow>
             (when_err (\<not> is_dir)
                (Errf ''search tree must be either symlinks or directories, %s is %s'' [S path]) @ ec, ok)))"

definition LinkDiscovery_Validate ::
    "string \<Rightarrow> (string \<Rightarrow> stat_result) \<Rightarrow> LinkDiscovery \<Rightarrow> errors \<times> LinkDiscovery" where
  "LinkDiscovery_Validate home stat disco =
     (let disco = (if length (SearchPaths disco) = 0 then disco\<lparr>SearchPaths := [home]\<rparr> else disco);
          disco = disco\<lparr>SearchPaths := map (TryExpandHomeDir home) (SearchPaths disco),
                        IgnorePathPrefixes := map (TryExpandHomeDir home) (IgnorePathPrefixes disco),
                        IgnoreTargetPrefixes := map (TryExpandHomeDir home) (IgnoreTargetPrefixes disco)\<rparr>;
          (ec, completed) = check_search stat (SearchPaths disco)
      in (ec, if completed then disco\<lparr>SearchPaths := remdups_adj (sort (SearchPaths disco))\<rparr> else disco))"

definition ShouldSkipMissingTargets :: "LinkDiscovery \<Rightarrow> bool" where
  "ShouldSkipMissingTargets disco = deref_z False (SkipMissingTargets disco)"

definition ShouldSkipResolvedTargets :: "LinkDiscovery \<Rightarrow> bool" where
  "ShouldSkipResolvedTargets disco = deref_z False (SkipResolvedTargets disco)"

definition hasAnyPrefix :: "string \<Rightarrow> string list \<Rightarrow> bool" where
  "hasAnyPrefix str prefixes \<longleftrightarrow> list_ex (has_prefix str) prefixes"

definition LinkConfiguration_Validate ::
    "(string \<Rightarrow> string \<times> errors) \<Rightarrow> string \<Rightarrow> string \<Rightarrow> (string \<Rightarrow> stat_result) \<Rightarrow>
     LinkConfiguration \<Rightarrow> errors \<times> LinkConfiguration" where
  "LinkConfiguration_Validate homedir_Expand hostname home stat conf =
     (let (ec1, conf) = expand homedir_Expand hostname conf;
          rs = map LinkDefinition_Validate (lc_Links conf);
          ec2 = concat (map (\<lambda>(idx, err). wrap_errs err ''%d/%d of %T is not valid''
                   [I (int idx), I (int (length rs))]) (zip [0..<length rs] (map fst rs)));
          conf = conf\<lparr>lc_Links := map snd rs\<rparr>;
          (ec3, disco) = LinkDiscovery_Validate home stat
             (case lc_Discovery conf of None \<Rightarrow> new_LinkDiscovery | Some d \<Rightarrow> d)
      in (ec1 @ ec2 @ ec3, conf\<lparr>lc_Discovery := Some disco\<rparr>))"

text \<open>What the search does at an entry of a tree.\<close>

record tree_entry =
  te_path :: string
  te_dir :: bool
  te_symlink :: bool

datatype readlink_result = Link_To string | Link_Denied | Link_Error go_error

datatype found = Found_Link LinkDefinition | Found_Nothing | Found_SkipDir | Found_Error go_error

definition link_name :: "string \<Rightarrow> string" where
  "link_name target =
     dropWhile (\<lambda>c. c \<in> set ''- _.'') (map (\<lambda>c. if c = CHR ''/'' then CHR ''-'' else c) target)"

definition visit_entry ::
    "(string \<Rightarrow> stat_result) \<Rightarrow> (string \<Rightarrow> readlink_result) \<Rightarrow> (string \<Rightarrow> go_error + string) \<Rightarrow>
     LinkDiscovery \<Rightarrow> string \<Rightarrow> tree_entry \<Rightarrow> found" where
  "visit_entry stat readlink filepath_Abs disco root e =
     (let p = te_path e
      in if hasAnyPrefix p (IgnorePathPrefixes disco)
           then (if te_dir e then Found_SkipDir else Found_Nothing)
         else if \<not> te_symlink e then Found_Nothing
         else
           (case readlink p of
              Link_Denied \<Rightarrow> Found_Nothing
            | Link_Error err \<Rightarrow> Found_Error (Wrapf [err] ''error reading symbolic link %s: %w'' [S root])
            | Link_To target \<Rightarrow>
                let target = tryAbsPath filepath_Abs target; exists = FileExists stat target
                in if exists \<and> ShouldSkipResolvedTargets disco then Found_Nothing
                   else if \<not> exists \<and> ShouldSkipMissingTargets disco then Found_Nothing
                   else if hasAnyPrefix target (IgnoreTargetPrefixes disco) then Found_Nothing
                   else Found_Link
                     \<lparr>l_Name = link_name target, l_Path = p, l_Target = target, l_Update = False,
                      l_RequireSudo = False, l_Defined = False, l_PathExists = FileExists stat p,
                      l_TargetExists = exists\<rparr>))"

text \<open>\<open>fs_walk\<close> walks a tree and streams what the visitor finds.\<close>

definition FindLinks ::
    "((tree_entry \<Rightarrow> found) \<Rightarrow> string \<Rightarrow> LinkDefinition list) \<Rightarrow> (string \<Rightarrow> stat_result) \<Rightarrow>
     (string \<Rightarrow> readlink_result) \<Rightarrow> (string \<Rightarrow> go_error + string) \<Rightarrow> LinkDiscovery \<Rightarrow> LinkDefinition list" where
  "FindLinks fs_walk stat readlink filepath_Abs disco =
     concat (map (\<lambda>path. fs_walk (visit_entry stat readlink filepath_Abs disco path) path) (SearchPaths disco))"

section \<open>The job of a link\<close>

record 'w fs_ops =
  fo_stat :: "string \<Rightarrow> 'w \<Rightarrow> stat_result"
  fo_eval :: "string \<Rightarrow> 'w \<Rightarrow> string \<times> errors"
  fo_remove :: "string \<Rightarrow> 'w \<Rightarrow> errors \<times> 'w"
  fo_mkdir :: "string \<Rightarrow> 'w \<Rightarrow> errors \<times> 'w"
  fo_symlink :: "string \<Rightarrow> string \<Rightarrow> 'w \<Rightarrow> errors \<times> 'w"
  fo_run :: "'w run"

text \<open>The second half of the job: make the directory when it is missing, then the link.\<close>

definition make_link :: "'w fs_ops \<Rightarrow> LinkDefinition \<Rightarrow> 'w \<Rightarrow> errors \<times> 'w" where
  "make_link fs lnd w =
     (let linkDir = path_dir (l_Target lnd); missing = is_not_exist (fo_stat fs linkDir w)
      in if l_RequireSudo lnd then
           fo_run fs (CreateCommand\<lparr>jc_sudo := True,
             jc_args := (if missing then [[''mkdir'', ''-p'', linkDir]] else []) @
               [[''ln'', ''-s'', l_Target lnd, l_Path lnd]]\<rparr>) w
         else
           let (e1, w) = (if missing then fo_mkdir fs linkDir w else ([], w));
               (e2, w) = fo_symlink fs (l_Target lnd) (l_Path lnd) w
           in (e1 @ e2, w))"

text \<open>The deferred function replaces whatever error was assigned by what the collector holds.\<close>

definition CreateLinkJob :: "'w fs_ops \<Rightarrow> LinkDefinition \<Rightarrow> 'w \<Rightarrow> errors \<times> 'w" where
  "CreateLinkJob fs lnd w =
     (let dst = path_join [l_Path lnd, l_Name lnd]
      in if is_not_exist (fo_stat fs (l_Target lnd) w) then ([], w)
         else if is_not_exist (fo_stat fs (l_Path lnd) w) then make_link fs lnd w
         else if \<not> l_Update lnd then ([], w)
         else
           let (target, err) = fo_eval fs (l_Path lnd) w
           in if err \<noteq> [] then (err, w)
              else if target = l_Target lnd then ([], w)
              else
                let (e1, w) =
                      (if l_RequireSudo lnd
                       then fo_run fs (CreateCommand\<lparr>jc_sudo := True, jc_args := [[''rm'', dst]]\<rparr>) w
                       else fo_remove fs dst w);
                    (e2, w) = make_link fs lnd w
                in (e1 @ e2, w))"

section \<open>What holds of links\<close>

text \<open>Only a missing target is an error; a missing name or location is made up from what is there.\<close>

lemma LinkDefinition_Validate_iff:
  "fst (LinkDefinition_Validate lnd) = [] \<longleftrightarrow> l_Target lnd \<noteq> []"
  "l_Name (snd (LinkDefinition_Validate lnd)) \<noteq> [] \<and> l_Path (snd (LinkDefinition_Validate lnd)) \<noteq> []"
  "l_Target (snd (LinkDefinition_Validate lnd)) = l_Target lnd"
  by (simp_all add: LinkDefinition_Validate_def Let_def)

text \<open>The comparison of links is no order: two links may each be less than the other.\<close>

lemma LessThan_not_asymmetric:
  "\<exists>a b. LessThan a b \<and> LessThan b a"
proof -
  let ?l = "\<lambda>p x. \<lparr>l_Name = [], l_Path = p, l_Target = [], l_Update = False, l_RequireSudo = False,
    l_Defined = False, l_PathExists = x, l_TargetExists = False\<rparr>"
  have "LessThan (?l [] True) (?l ''a'' False) \<and> LessThan (?l ''a'' False) (?l [] True)"
    by (simp add: LessThan_def)
  then show ?thesis by blast
qed


text \<open>A file system of plain files and links.\<close>

type_synonym link_world = "(string \<times> string option) list"

definition link_stat :: "string \<Rightarrow> link_world \<Rightarrow> stat_result" where
  "link_stat p w =
     (case map_of w p of
        None \<Rightarrow> Not_Exist
      | Some None \<Rightarrow> Found False
      | Some (Some t) \<Rightarrow> if map_of w t = None then Not_Exist else Found False)"

definition link_ops :: "link_world fs_ops" where
  "link_ops = \<lparr>fo_stat = link_stat,
     fo_eval = (\<lambda>p w. case map_of w p of Some (Some t) \<Rightarrow> (t, []) | _ \<Rightarrow> (p, [])),
     fo_remove = (\<lambda>p w. if map_of w p = None then ([Errf ''no such file'' [S p]], w)
                        else ([], filter (\<lambda>(q, n). q \<noteq> p) w)),
     fo_mkdir = (\<lambda>p w. ([], (p, None) # w)),
     fo_symlink = (\<lambda>t p w. if map_of w p = None then ([], (p, Some t) # w)
                           else ([Errf ''file exists'' [S p]], w)),
     fo_run = (\<lambda>c w. ([], w))\<rparr>"

definition demo_link :: LinkDefinition where
  "demo_link = \<lparr>l_Name = ''vimrc'', l_Path = ''/h/.vimrc'', l_Target = ''/d/vimrc'', l_Update = True,
     l_RequireSudo = False, l_Defined = True, l_PathExists = True, l_TargetExists = True\<rparr>"

definition demo_tree :: link_world where
  "demo_tree = [(''/d'', None), (''/d/vimrc'', None), (''/d/old'', None), (''/h/.vimrc'', Some ''/d/old'')]"


end
