(* ===== verification/Arch.thy ===== *)
theory Arch
  imports Repo_Jobs
begin

text \<open>
  Packages of an Arch Linux host, \<open>sysmgmt/arch.go\<close>: what is collected from the package manager,
  the states derived for each package, the exported index, validation, and the jobs that fetch,
  build and install packages. The lines that a process prints, the file system and the clock are
  parameters; the sets of the cache are lists.
\<close>

section \<open>Packages and the cache\<close>

record pkg_state =
  InDistRepos :: bool
  InUsersABS :: bool
  FromAUR :: bool
  AURpackageWithoutABS :: bool
  ExplictlyInstalled :: bool
  IsDependency :: bool
  Installed :: bool
  Configured :: bool

definition no_state :: pkg_state where
  "no_state = \<lparr>InDistRepos = False, InUsersABS = False, FromAUR = False, AURpackageWithoutABS = False,
     ExplictlyInstalled = False, IsDependency = False, Installed = False, Configured = False\<rparr>"

record ArchPackage =
  ap_Name :: string
  ap_Version :: string
  ap_PathABS :: string
  ap_Hostname :: string
  ap_ShouldUpdate :: bool
  ap_State :: pkg_state

definition new_package :: "string \<Rightarrow> string \<Rightarrow> string \<Rightarrow> ArchPackage" where
  "new_package hostname name version =
     \<lparr>ap_Name = name, ap_Version = version, ap_PathABS = [], ap_Hostname = hostname,
      ap_ShouldUpdate = False, ap_State = no_state\<rparr>"

record ArchPackageIndex =
  ABS :: "ArchPackage list"
  AUR :: "ArchPackage list"
  DEP :: "ArchPackage list"
  USR :: "ArchPackage list"

definition index_compare :: "ArchPackage \<Rightarrow> ArchPackage \<Rightarrow> int" where
  "index_compare lh rh = Default 0 (compare (ap_Name lh) (ap_Name rh)) (compare (ap_Version lh) (ap_Version rh))"

definition index_Sort :: "ArchPackageIndex \<Rightarrow> ArchPackageIndex" where
  "index_Sort pi =
     \<lparr>ABS = sort_cmp index_compare (ABS pi), AUR = sort_cmp index_compare (AUR pi),
      DEP = sort_cmp index_compare (DEP pi), USR = sort_cmp index_compare (USR pi)\<rparr>"

record arch_cache =
  materialization :: "ArchPackageIndex option"
  indexedAt :: "int option"
  versions :: "(string \<times> string) list"
  explicitlyInstalled :: "string list"
  inSyncDB :: "string list"
  absPackages :: "string list"
  notInSyncDB :: "string list"
  dependencies :: "string list"

record ArchLinux =
  BuildPath :: string
  Packages :: "ArchPackage list"
  cache :: arch_cache

section \<open>Collecting\<close>

text \<open>The output of a process: an error, or its lines.\<close>

type_synonym run_lines = "string \<Rightarrow> errors + string list"

text \<open>\<open>fmt.Sscan\<close> into two strings: a line of fewer than two words is skipped.\<close>

definition parsePacmanQline :: "string \<Rightarrow> (string \<times> string) option" where
  "parsePacmanQline line =
     (case str_fields line of k # v # rest \<Rightarrow> Some (k, v) | _ \<Rightarrow> None)"

definition package_lines :: "string list \<Rightarrow> (string \<times> string) list" where
  "package_lines lines = List.map_filter parsePacmanQline lines"

definition processPackages :: "run_lines \<Rightarrow> string \<Rightarrow> string list \<Rightarrow> errors \<times> string list" where
  "processPackages run cmd s =
     (case run cmd of
        Inl err \<Rightarrow> (err, s)
      | Inr lines \<Rightarrow> ([], fold (\<lambda>kv s. List.insert (fst kv) s) (package_lines lines) s))"

definition collectVersions :: "run_lines \<Rightarrow> arch_cache \<Rightarrow> errors \<times> arch_cache" where
  "collectVersions run c =
     (case run ''pacman --query'' of
        Inl err \<Rightarrow> (err, c)
      | Inr lines \<Rightarrow> ([], c\<lparr>versions := fold (\<lambda>(k, v) m. upd k v m) (package_lines lines) (versions c)\<rparr>))"

definition collectExplicityInstalled :: "run_lines \<Rightarrow> arch_cache \<Rightarrow> errors \<times> arch_cache" where
  "collectExplicityInstalled run c =
     (case processPackages run ''pacman --query --explicit'' (explicitlyInstalled c) of
        (err, s) \<Rightarrow> (err, c\<lparr>explicitlyInstalled := s\<rparr>))"

definition collectInSyncDB :: "run_lines \<Rightarrow> arch_cache \<Rightarrow> errors \<times> arch_cache" where
  "collectInSyncDB run c =
     (case processPackages run ''pacman --query --native'' (inSyncDB c) of
        (err, s) \<Rightarrow> (err, c\<lparr>inSyncDB := s\<rparr>))"

definition collectNotInSyncDB :: "run_lines \<Rightarrow> arch_cache \<Rightarrow> errors \<times> arch_cache" where
  "collectNotInSyncDB run c =
     (case processPackages run ''pacman --query --foreign'' (notInSyncDB c) of
        (err, s) \<Rightarrow> (err, c\<lparr>notInSyncDB := s\<rparr>))"

definition collectDependents :: "run_lines \<Rightarrow> arch_cache \<Rightarrow> errors \<times> arch_cache" where
  "collectDependents run c =
     (case processPackages run ''pacman --query --deps'' (dependencies c) of
        (err, s) \<Rightarrow> (err, c\<lparr>dependencies := s\<rparr>))"

text \<open>The directories with a build file below the build path, by their name, if it is one
  directory deep and a foreign package.\<close>

definition abs_name :: "string \<Rightarrow> string \<Rightarrow> string" where
  "abs_name build path =
     (let path = replace_first (replace_first path build []) ''/PKGBUILD'' [];
          edge = (\<lambda>c. c \<in> set '' / '')
      in rev (dropWhile edge (rev (dropWhile edge path))))"

definition find_cmd :: "string \<Rightarrow> string" where
  "find_cmd build = ''sudo find '' @ build @ '' -name \"PKGBUILD\"''"

definition abs_step :: "string \<Rightarrow> string \<Rightarrow> arch_cache \<Rightarrow> arch_cache" where
  "abs_step build path c =
     (let path = abs_name build path
      in if contains_any path ''/'' then c
         else if path \<in> set (notInSyncDB c)
           then c\<lparr>absPackages := List.insert path (absPackages c)\<rparr> else c)"

definition collectCurrentUsersABS :: "run_lines \<Rightarrow> string \<Rightarrow> arch_cache \<Rightarrow> errors \<times> arch_cache" where
  "collectCurrentUsersABS run build c =
     (case run (find_cmd build) of
        Inl err \<Rightarrow> (err, c)
      | Inr lines \<Rightarrow> ([], fold (abs_step build) lines c))"

text \<open>\<open>worker_join\<close> is the library's \<open>Join\<close> of two workers. The index time is set also when
  something failed.\<close>

definition doDiscovery ::
    "(((arch_cache \<Rightarrow> errors \<times> arch_cache) list) \<Rightarrow> arch_cache \<Rightarrow> errors \<times> arch_cache) \<Rightarrow>
     run_lines \<Rightarrow> int \<Rightarrow> ArchLinux \<Rightarrow> errors \<times> ArchLinux" where
  "doDiscovery worker_join run now conf =
     (let (e1, c) = collectVersions run (cache conf);
          (e2, c) = collectExplicityInstalled run c;
          (e3, c) = collectInSyncDB run c;
          (e4, c) = collectDependents run c;
          (e5, c) = worker_join [collectNotInSyncDB run, collectCurrentUsersABS run (BuildPath conf)] c
      in (e1 @ e2 @ e3 @ e4 @ e5, conf\<lparr>cache := c\<lparr>indexedAt := Some now\<rparr>\<rparr>))"

section \<open>Resolving and exporting\<close>

definition populatePackage :: "ArchLinux \<Rightarrow> ArchPackage \<Rightarrow> ArchPackage" where
  "populatePackage conf ap =
     (let c = cache conf; n = ap_Name ap;
          s = (ap_State ap)\<lparr>InDistRepos := n \<in> set (inSyncDB c), InUsersABS := n \<in> set (absPackages c)\<rparr>;
          s = s\<lparr>AURpackageWithoutABS := \<not> InDistRepos s \<and> \<not> InUsersABS s,
                ExplictlyInstalled := n \<in> set (explicitlyInstalled c),
                IsDependency := n \<in> set (dependencies c),
                Installed := map_of (versions c) n \<noteq> None,
                FromAUR := n \<in> set (notInSyncDB c)\<rparr>;
          ap = ap\<lparr>ap_State := s\<rparr>
      in if InUsersABS s \<and> ap_PathABS ap \<noteq> []
         then ap\<lparr>ap_PathABS := path_join [BuildPath conf, ap_Name ap]\<rparr> else ap)"

definition one_hour :: int where "one_hour = 3600 * 1000000000"

text \<open>Discovery runs again when the index is more than an hour old (a zero time is); its error is
  collected and never looked at. The packages found come first, then the configured ones.\<close>

definition ResolvePackages ::
    "(((arch_cache \<Rightarrow> errors \<times> arch_cache) list) \<Rightarrow> arch_cache \<Rightarrow> errors \<times> arch_cache) \<Rightarrow>
     run_lines \<Rightarrow> string \<Rightarrow> int \<Rightarrow> ArchLinux \<Rightarrow> ArchPackage list \<times> ArchLinux" where
  "ResolvePackages worker_join run hostname now conf =
     (let stale = (case indexedAt (cache conf) of None \<Rightarrow> True | Some t \<Rightarrow> one_hour < now - t);
          conf = (if stale then snd (doDiscovery worker_join run now conf) else conf)
      in (map (\<lambda>(k, v). populatePackage conf (new_package hostname k v)) (versions (cache conf)) @
          map (\<lambda>ap. populatePackage conf (ap\<lparr>ap_State := (ap_State ap)\<lparr>Configured := True\<rparr>\<rparr>)) (Packages conf),
          conf))"

definition export_list :: "string \<Rightarrow> arch_cache \<Rightarrow> string list \<Rightarrow> ArchPackage list" where
  "export_list hostname c ns = map (\<lambda>n. new_package hostname n (deref_z [] (map_of (versions c) n))) ns"

definition Export :: "string \<Rightarrow> ArchLinux \<Rightarrow> (ArchPackageIndex \<times> ArchLinux) outcome" where
  "Export hostname conf =
     (let c = cache conf
      in case materialization c of
           Some out \<Rightarrow> Return (out, conf)
         | None \<Rightarrow>
             if indexedAt c = None then Panic (Errf ''no arch linux package data collected'' [])
             else
               let out = \<lparr>ABS = export_list hostname c (absPackages c),
                          AUR = export_list hostname c (notInSyncDB c),
                          DEP = export_list hostname c (dependencies c),
                          USR = export_list hostname c (explicitlyInstalled c)\<rparr>
               in Return (out, conf\<lparr>cache := c\<lparr>materialization := Some out\<rparr>\<rparr>))"

section \<open>Validation and jobs\<close>

text \<open>Only on a host that has \<open>/etc/arch-release\<close>. A build path that exists but cannot be examined
  has no file information to ask for its kind.\<close>

definition package_errors :: "nat \<Rightarrow> ArchPackage \<Rightarrow> errors" where
  "package_errors idx pkg =
     when_err (ap_Name pkg = []) (Errf ''package at index=%d does not have name'' [I (int idx)]) @
     when_err (str_contains (ap_Name pkg) ''.+='')
       (Errf ''package '%s' at index=%d has invalid character'' [S (ap_Name pkg), I (int idx)])"

definition ArchLinux_Validate ::
    "(string \<Rightarrow> 'w \<Rightarrow> stat_result) \<Rightarrow> (string \<Rightarrow> 'w \<Rightarrow> errors \<times> 'w) \<Rightarrow> string \<Rightarrow> ArchLinux \<Rightarrow> 'w \<Rightarrow>
     (errors \<times> ArchLinux \<times> 'w) outcome" where
  "ArchLinux_Validate stat mkdir_all home conf w =
     (if is_not_exist (stat ''/etc/arch-release'' w) then Return ([], conf, w)
      else
        let conf = conf\<lparr>BuildPath := (if BuildPath conf = [] then path_join [home, ''abs'']
                                      else TryExpandHomeDir home (BuildPath conf))\<rparr>;
            ec = concat (map (\<lambda>(idx, pkg). package_errors idx pkg)
                   (zip [0..<length (Packages conf)] (Packages conf)))
        in case stat (BuildPath conf) w of
             Not_Exist \<Rightarrow>
               (case mkdir_all (BuildPath conf) w of (err, w) \<Rightarrow>
                  Return (wrap_errs err ''making %q: %w'' [S (BuildPath conf)] @ ec, conf, w))
           | Stat_Error e \<Rightarrow> Panic nil_deref
           | Found is_dir \<Rightarrow>
               Return (when_err (\<not> is_dir)
                 (Errf ''arch build path '%s' is a file not a directory'' [S (BuildPath conf)]) @ ec, conf, w))"

definition aur_repo :: "ArchLinux \<Rightarrow> string \<Rightarrow> GitRepository" where
  "aur_repo conf name =
     \<lparr>r_Name = name, r_Path = path_join [BuildPath conf, name],
      r_Remote = ''https://aur.archlinux.org/'' @ name @ ''.git'', r_RemoteName = ''aur.'' @ name,
      r_Branch = ''master'', r_LocalSync = False, r_Fetch = True, r_Notify = False, r_Disabled = False,
      r_Logs = [], r_Pre = [], r_Post = [], r_Mirrors = [], r_Tags = []\<rparr>"

text \<open>The jobs return their errors and the world, a panic, or nothing when the fuel of the
  repository jobs is used up (three calls are enough, \<open>Repo_Jobs\<close>); nobody else changes the files
  between the calls of one job.\<close>

definition FetchPackageFromAUR ::
    "nat \<Rightarrow> 'w ops \<Rightarrow> string \<Rightarrow> ArchLinux \<Rightarrow> string \<Rightarrow> bool \<Rightarrow> 'w \<Rightarrow> (errors \<times> 'w) outcome option" where
  "FetchPackageFromAUR fuel ops nonce conf name update w =
     (if name = [] then Some (Return ([Errf ''aur package name is not specified'' []], w))
      else case run_job (\<lambda>w. w) fuel ops nonce Fetch_Job (aur_repo conf name) w of
             Done err rp w \<Rightarrow> Some (Return (err, w))
           | Panicked e rp w \<Rightarrow> Some (Panic e)
           | Out_Of_Fuel \<Rightarrow> None)"

definition makepkg_cmd :: "string \<Rightarrow> string \<Rightarrow> ArchLinux \<Rightarrow> string \<Rightarrow> jcommand" where
  "makepkg_cmd nonce hn conf name = CreateCommand
     \<lparr>jc_id := ''OP(arch-build-abs).PKG('' @ name @ '').HOST('' @ hn @ '').ID('' @ nonce @ '')'',
      jc_dir := path_join [BuildPath conf, name],
      jc_args := [[''makepkg'', ''--syncdeps'', ''--force'', ''--install'', ''--noconfirm'']]\<rparr>"

definition BuildPackageInABS ::
    "nat \<Rightarrow> 'w ops \<Rightarrow> string \<Rightarrow> ArchLinux \<Rightarrow> string \<Rightarrow> 'w \<Rightarrow> (errors \<times> 'w) outcome option" where
  "BuildPackageInABS fuel ops nonce conf name w =
     (if name = [] then Some (Return ([Errf ''aur package name is not specified'' []], w))
      else case FetchPackageFromAUR fuel ops nonce conf name True w of
             Some (Return ([], w)) \<Rightarrow>
               if is_not_exist (op_stat ops (path_join [path_join [BuildPath conf, name], ''PKGBUILD'']) w)
               then Some (Return ([Errf ''could not resolve or update AUR package for %s'' [S name]], w))
               else Some (Return (op_run ops (makepkg_cmd nonce (op_hostname ops) conf name) w))
           | r \<Rightarrow> r)"

definition RepoPackages :: "ArchLinux \<Rightarrow> string list" where
  "RepoPackages conf = map ap_Name (filter (\<lambda>pkg. InDistRepos (ap_State pkg)) (Packages conf))"

definition InstallPackages :: "'w run \<Rightarrow> ArchLinux \<Rightarrow> 'w \<Rightarrow> errors \<times> 'w" where
  "InstallPackages run conf w =
     run (CreateCommand\<lparr>jc_args := [[''pacman'', ''--sync'', ''--refresh''] @ RepoPackages conf]\<rparr>) w"

section \<open>What is collected\<close>

lemma fold_insert_names:
  "set (fold (\<lambda>kv s. List.insert (fst kv) s) kvs s) = set s \<union> fst ` set kvs"
  by (induction kvs arbitrary: s) auto

lemma fold_upd:
  "fst ` set (fold (\<lambda>(k, v) m. upd k v m) kvs m) = fst ` set m \<union> fst ` set kvs"
  "distinct (map fst m) \<Longrightarrow> distinct (map fst (fold (\<lambda>(k, v) m. upd k v m) kvs m))"
  by (induction kvs arbitrary: m) (simp_all add: case_prod_unfold)

lemma abs_step_keeps:
  "\<exists>s. fold (abs_step build) paths c = c\<lparr>absPackages := s\<rparr>"
proof (induction paths arbitrary: c)
  case Nil
  show ?case by (rule exI [of _ "absPackages c"]) simp
next
  case (Cons p ps)
  have "\<exists>s. abs_step build p c = c\<lparr>absPackages := s\<rparr>"
    unfolding abs_step_def Let_def by (cases c) auto
  then obtain s where s: "abs_step build p c = c\<lparr>absPackages := s\<rparr>" by blast
  from Cons.IH[of "abs_step build p c"] show ?case by (auto simp: s)
qed

lemma abs_step_set:
  "set (absPackages (fold (abs_step build) paths c)) = set (absPackages c) \<union>
     {n \<in> set (notInSyncDB c). n \<in> abs_name build ` set paths \<and> \<not> contains_any n ''/''}"
proof (induction paths arbitrary: c)
  case (Cons p ps)
  have "notInSyncDB (abs_step build p c) = notInSyncDB c" by (simp add: abs_step_def Let_def)
  with Cons.IH[of "abs_step build p c"] show ?case by (auto simp: abs_step_def Let_def)
qed simp

definition empty_cache :: arch_cache where
  "empty_cache = \<lparr>materialization = None, indexedAt = None, versions = [], explicitlyInstalled = [],
     inSyncDB = [], absPackages = [], notInSyncDB = [], dependencies = []\<rparr>"

text \<open>The names that a listing of the package manager gives: the first word of every line of at least two
  words.\<close>

definition listed :: "string list \<Rightarrow> string set" where
  "listed lines = {name. \<exists>line \<in> set lines. \<exists>v rest. str_fields line = name # v # rest}"

lemma listed_eq: "listed lines = fst ` set (package_lines lines)"
proof (induction lines)
  case (Cons line lines)
  have "listed (line # lines) = {name. \<exists>v rest. str_fields line = name # v # rest} \<union> listed lines"
    by (auto simp: listed_def)
  moreover have "fst ` set (package_lines (line # lines)) =
      {name. \<exists>v rest. str_fields line = name # v # rest} \<union> fst ` set (package_lines lines)"
    by (auto simp: package_lines_def List.map_filter_simps parsePacmanQline_def split: list.splits)
  ultimately show ?case using Cons by simp
qed (simp add: listed_def package_lines_def List.map_filter_simps)

definition add_names :: "string list \<Rightarrow> string list \<Rightarrow> string list" where
  "add_names lines s = fold (\<lambda>kv s. List.insert (fst kv) s) (package_lines lines) s"

lemma set_add_names [simp]: "set (add_names lines s) = set s \<union> listed lines"
  by (simp add: add_names_def fold_insert_names listed_eq)

lemma processPackages_listed:
  "run cmd = Inr lines \<Longrightarrow> processPackages run cmd s = ([], add_names lines s)"
  by (simp add: processPackages_def add_names_def)

text \<open>The name of a build file's directory relative to the build path, when the path of the file is put
  together from them.\<close>

lemma replace_first_at_end:
  assumes "\<And>a b. s @ old \<noteq> a @ old @ b \<or> b = []" and "old \<noteq> []"
  shows "replace_first (s @ old) old [] = s"
  using assms(1)
proof (induction s)
  case Nil
  then show ?case using assms(2) by (cases old) (simp_all add: has_prefix_def)
next
  case (Cons c s)
  have no: "\<not> has_prefix ((c # s) @ old) old"
  proof
    assume "has_prefix ((c # s) @ old) old"
    then obtain b where b: "(c # s) @ old = [] @ old @ b" by (auto simp: has_prefix_iff)
    then have "b \<noteq> []" by (metis append_Nil append_Nil2 append_self_conv2 list.distinct(1))
    with Cons.prems[of "[]" b] b show False by blast
  qed
  have "replace_first (s @ old) old [] = s"
  proof (rule Cons.IH)
    fix a b show "s @ old \<noteq> a @ old @ b \<or> b = []" using Cons.prems[of "c # a" b] by auto
  qed
  with no show ?case by simp
qed

lemma build_file_at_end:
  assumes "\<not> str_contains s (CHR ''/'' # w)" and "CHR ''/'' \<notin> set w"
    and "s @ CHR ''/'' # w = a @ (CHR ''/'' # w) @ b"
  shows "b = []"
proof (rule ccontr)
  assume b: "b \<noteq> []"
  from assms(3) obtain us where "(s = a @ us \<and> us @ CHR ''/'' # w = (CHR ''/'' # w) @ b) \<or>
      (s @ us = a \<and> CHR ''/'' # w = us @ (CHR ''/'' # w) @ b)" by (auto simp: append_eq_append_conv2)
  then show False
  proof
    assume us: "s = a @ us \<and> us @ CHR ''/'' # w = (CHR ''/'' # w) @ b"
    obtain vs where "us = (CHR ''/'' # w) @ vs \<and> vs @ CHR ''/'' # w = b \<or>
        us @ vs = CHR ''/'' # w \<and> CHR ''/'' # w = vs @ b"
      using conjunct2[OF us] append_eq_append_conv2[of us "CHR ''/'' # w" "CHR ''/'' # w" b] by blast
    then consider "us = (CHR ''/'' # w) @ vs" | "us @ vs = CHR ''/'' # w" "CHR ''/'' # w = vs @ b"
      by blast
    then show False
    proof cases
      case 1
      then show False using us assms(1) by (auto simp: str_contains_iff)
    next
      case 2
      show False
      proof (cases us)
        case Nil
        with 2(1) have "vs = CHR ''/'' # w" by simp
        with 2(2) b show False by simp
      next
        case (Cons u us')
        with 2(1) have "us' @ vs = w" by simp
        moreover have "vs \<noteq> []"
        proof
          assume "vs = []"
          then have "us = CHR ''/'' # w" using 2(1) by simp
          then have "s = a @ (CHR ''/'' # w) @ []" using us by simp
          then show False using assms(1) unfolding str_contains_iff by blast
        qed
        then have "CHR ''/'' \<in> set vs" using 2(2) by (cases vs) auto
        ultimately show False using assms(2) by auto
      qed
    qed
  next
    assume "s @ us = a \<and> CHR ''/'' # w = us @ (CHR ''/'' # w) @ b"
    then have "length (CHR ''/'' # w) = length us + length (CHR ''/'' # w) + length b"
      by (metis add.assoc length_append)
    with b show False by simp
  qed
qed

definition plain_name :: "string \<Rightarrow> bool" where
  "plain_name rel \<longleftrightarrow> rel \<noteq> [] \<and> hd rel \<notin> {CHR '' '', CHR ''/''} \<and> last rel \<notin> {CHR '' '', CHR ''/''} \<and>
     \<not> str_contains (''/'' @ rel) ''/PKGBUILD''"

lemma trim_ends:
  assumes "rel \<noteq> []" and "\<not> P (hd rel)" and "\<not> P (last rel)"
  shows "rev (dropWhile P (rev (dropWhile P rel))) = rel"
proof -
  have "dropWhile P rel = rel" using assms(1,2) by (cases rel) auto
  moreover have "dropWhile P (rev rel) = rev rel"
    using assms(1,3) by (cases "rev rel") (auto simp: last_rev [symmetric] hd_rev)
  ultimately show ?thesis by simp
qed

lemma abs_name_plain:
  assumes "plain_name rel"
  shows "abs_name build (build @ ''/'' @ rel @ ''/PKGBUILD'') = rel"
proof -
  have b: "replace_first (build @ ''/'' @ rel @ ''/PKGBUILD'') build [] = (''/'' @ rel) @ ''/PKGBUILD''"
    by simp
  have "replace_first ((''/'' @ rel) @ ''/PKGBUILD'') ''/PKGBUILD'' [] = ''/'' @ rel"
  proof (rule replace_first_at_end)
    fix a b
    show "(''/'' @ rel) @ ''/PKGBUILD'' \<noteq> a @ ''/PKGBUILD'' @ b \<or> b = []"
      using build_file_at_end[of "''/'' @ rel" "''PKGBUILD''" a b] assms by (auto simp: plain_name_def)
  qed simp
  with assms b show ?thesis
    unfolding abs_name_def Let_def b
    by (simp add: trim_ends plain_name_def)
qed

text \<open>The library's \<open>Join\<close> of two workers that do not fail runs the one and then the other.\<close>

definition joins_in_order :: "(('c \<Rightarrow> errors \<times> 'c) list \<Rightarrow> 'c \<Rightarrow> errors \<times> 'c) \<Rightarrow> bool" where
  "joins_in_order join \<longleftrightarrow>
     (\<forall>g h c c1 c2. g c = ([], c1) \<longrightarrow> h c1 = ([], c2) \<longrightarrow> join [g, h] c = ([], c2))"

lemma discovery_cache:
  assumes "run ''pacman --query'' = Inr q" and "run ''pacman --query --explicit'' = Inr x"
    and "run ''pacman --query --native'' = Inr nt" and "run ''pacman --query --deps'' = Inr d"
    and "run ''pacman --query --foreign'' = Inr f"
    and "run (find_cmd (BuildPath conf)) = Inr paths"
    and "joins_in_order worker_join"
    and "distinct (map fst (versions (cache conf)))"
  obtains c where "doDiscovery worker_join run now conf = ([], conf\<lparr>cache := c\<rparr>)"
    and "indexedAt c = Some now" and "distinct (map fst (versions c))"
    and "fst ` set (versions c) = fst ` set (versions (cache conf)) \<union> listed q"
    and "set (explicitlyInstalled c) = set (explicitlyInstalled (cache conf)) \<union> listed x"
    and "set (inSyncDB c) = set (inSyncDB (cache conf)) \<union> listed nt"
    and "set (dependencies c) = set (dependencies (cache conf)) \<union> listed d"
    and "set (notInSyncDB c) = set (notInSyncDB (cache conf)) \<union> listed f"
    and "set (absPackages c) = set (absPackages (cache conf)) \<union>
      {n \<in> set (notInSyncDB (cache conf)) \<union> listed f.
         n \<in> abs_name (BuildPath conf) ` set paths \<and> \<not> contains_any n ''/''}"
proof -
  define c0 where "c0 = cache conf"
  define c4 where "c4 = c0
    \<lparr>versions := fold (\<lambda>(k, v) m. upd k v m) (package_lines q) (versions c0),
     explicitlyInstalled := add_names x (explicitlyInstalled c0),
     inSyncDB := add_names nt (inSyncDB c0),
     dependencies := add_names d (dependencies c0)\<rparr>"
  define c5 where "c5 = c4\<lparr>notInSyncDB := add_names f (notInSyncDB c0)\<rparr>"
  define c6 where "c6 = fold (abs_step (BuildPath conf)) paths c5"
  note pp = processPackages_listed[of run]
  have foreign: "collectNotInSyncDB run c4 = ([], c5)"
    using pp[OF assms(5)] by (simp add: collectNotInSyncDB_def c5_def c4_def split: prod.splits)
  have abs: "collectCurrentUsersABS run (BuildPath conf) c5 = ([], c6)"
    by (simp add: collectCurrentUsersABS_def assms(6) c6_def)
  have joined: "worker_join [collectNotInSyncDB run, collectCurrentUsersABS run (BuildPath conf)] c4 = ([], c6)"
    using assms(7) foreign abs unfolding joins_in_order_def by blast
  obtain s where s: "c6 = c5\<lparr>absPackages := s\<rparr>" using abs_step_keeps unfolding c6_def by blast
  have r: "doDiscovery worker_join run now conf = ([], conf\<lparr>cache := c6\<lparr>indexedAt := Some now\<rparr>\<rparr>)"
    using pp[OF assms(2)] pp[OF assms(3)] pp[OF assms(4)] joined
    unfolding doDiscovery_def c0_def [symmetric] c4_def
    by (simp add: collectVersions_def collectExplicityInstalled_def collectInSyncDB_def collectDependents_def
        assms(1) split: prod.splits)
  show ?thesis
  proof (rule that[OF r])
    show "set (absPackages (c6\<lparr>indexedAt := Some now\<rparr>)) = set (absPackages (cache conf)) \<union>
      {n \<in> set (notInSyncDB (cache conf)) \<union> listed f.
         n \<in> abs_name (BuildPath conf) ` set paths \<and> \<not> contains_any n ''/''}"
      by (simp add: c6_def abs_step_set) (simp add: c5_def c4_def c0_def)
  qed (use assms(8) in \<open>simp_all add: s c5_def c4_def c0_def fold_upd listed_eq [of q]\<close>)
qed

lemma populatePackage_simps [simp]:
  "ap_Name (populatePackage conf ap) = ap_Name ap"
  "ap_State (populatePackage conf ap) = (ap_State ap)
     \<lparr>InDistRepos := ap_Name ap \<in> set (inSyncDB (cache conf)),
      InUsersABS := ap_Name ap \<in> set (absPackages (cache conf)),
      AURpackageWithoutABS := ap_Name ap \<notin> set (inSyncDB (cache conf)) \<and> ap_Name ap \<notin> set (absPackages (cache conf)),
      ExplictlyInstalled := ap_Name ap \<in> set (explicitlyInstalled (cache conf)),
      IsDependency := ap_Name ap \<in> set (dependencies (cache conf)),
      Installed := map_of (versions (cache conf)) (ap_Name ap) \<noteq> None,
      FromAUR := ap_Name ap \<in> set (notInSyncDB (cache conf))\<rparr>"
  by (simp_all add: populatePackage_def Let_def)

text \<open>C21: resolving the packages of a host whose package manager answers, when they were never collected
  or more than an hour ago, and \<open>find\<close> prints the build files of directories below the build path. What was
  collected before is kept: each package installed now or known before is listed once, then
  every configured one. Each carries the states that the listings give it or an earlier one gave:
  installed, explicitly, as a dependency, from the repositories or from elsewhere. It has a build
  directory when it had one before, or when it is foreign, now or before, and a build file is in
  the directory of its name directly below the build path. (The directories are assumed to begin and
  end with neither a blank nor a slash, and to have no part that begins with the name of the build
  file, which is cut out of the path.)\<close>

theorem resolved_package_states:
  assumes "run ''pacman --query'' = Inr q" and "run ''pacman --query --explicit'' = Inr x"
    and "run ''pacman --query --native'' = Inr nt" and "run ''pacman --query --deps'' = Inr d"
    and "run ''pacman --query --foreign'' = Inr f"
    and "run (''sudo find '' @ BuildPath conf @ '' -name \"PKGBUILD\"'') =
      Inr (map (\<lambda>rel. BuildPath conf @ ''/'' @ rel @ ''/PKGBUILD'') rels)"
    and "\<And>rel. rel \<in> set rels \<Longrightarrow> rel \<noteq> [] \<and> hd rel \<notin> {CHR '' '', CHR ''/''} \<and>
      last rel \<notin> {CHR '' '', CHR ''/''} \<and> \<not> str_contains (''/'' @ rel) ''/PKGBUILD''"
    and "joins_in_order worker_join"
    and "distinct (map fst (versions (cache conf)))"
    and "case indexedAt (cache conf) of None \<Rightarrow> True | Some t \<Rightarrow> 3600 * 10 ^ 9 < now - t"
    and "ResolvePackages worker_join run hostname now conf = (ps, conf')"
  shows "(\<exists>ns. map ap_Name ps = ns @ map ap_Name (Packages conf) \<and> distinct ns \<and>
       set ns = fst ` set (versions (cache conf)) \<union> listed q) \<and>
    (\<forall>p \<in> set ps. let n = ap_Name p; s = ap_State p; old = cache conf in
       (Installed s \<longleftrightarrow> n \<in> fst ` set (versions old) \<union> listed q) \<and>
       (ExplictlyInstalled s \<longleftrightarrow> n \<in> set (explicitlyInstalled old) \<union> listed x) \<and>
       (IsDependency s \<longleftrightarrow> n \<in> set (dependencies old) \<union> listed d) \<and>
       (InDistRepos s \<longleftrightarrow> n \<in> set (inSyncDB old) \<union> listed nt) \<and>
       (FromAUR s \<longleftrightarrow> n \<in> set (notInSyncDB old) \<union> listed f) \<and>
       (InUsersABS s \<longleftrightarrow> n \<in> set (absPackages old) \<or>
          n \<in> set (notInSyncDB old) \<union> listed f \<and> CHR ''/'' \<notin> set n \<and> n \<in> set rels) \<and>
       (AURpackageWithoutABS s \<longleftrightarrow> \<not> InDistRepos s \<and> \<not> InUsersABS s))"
proof -
  define paths where "paths = map (\<lambda>rel. BuildPath conf @ ''/'' @ rel @ ''/PKGBUILD'') rels"
  have find: "run (find_cmd (BuildPath conf)) = Inr paths" using assms(6) by (simp add: find_cmd_def paths_def)
  have named: "abs_name (BuildPath conf) ` set paths = set rels"
  proof -
    have "abs_name (BuildPath conf) (BuildPath conf @ ''/'' @ rel @ ''/PKGBUILD'') = rel" if "rel \<in> set rels" for rel
      using assms(7)[OF that] by (intro abs_name_plain) (simp add: plain_name_def)
    then show ?thesis by (simp add: paths_def image_image)
  qed
  obtain c where c: "doDiscovery worker_join run now conf = ([], conf\<lparr>cache := c\<rparr>)"
    "distinct (map fst (versions c))" "fst ` set (versions c) = fst ` set (versions (cache conf)) \<union> listed q"
    "set (explicitlyInstalled c) = set (explicitlyInstalled (cache conf)) \<union> listed x"
    "set (inSyncDB c) = set (inSyncDB (cache conf)) \<union> listed nt"
    "set (dependencies c) = set (dependencies (cache conf)) \<union> listed d"
    "set (notInSyncDB c) = set (notInSyncDB (cache conf)) \<union> listed f"
    "set (absPackages c) = set (absPackages (cache conf)) \<union>
      {n \<in> set (notInSyncDB (cache conf)) \<union> listed f.
         n \<in> abs_name (BuildPath conf) ` set paths \<and> \<not> contains_any n ''/''}"
    by (rule discovery_cache [OF assms(1-5) find assms(8,9), of now])
  let ?conf = "conf\<lparr>cache := c\<rparr>"
  let ?given = "\<lambda>ap. ap\<lparr>ap_State := (ap_State ap)\<lparr>Configured := True\<rparr>\<rparr>"
  have "(case indexedAt (cache conf) of None \<Rightarrow> True | Some t \<Rightarrow> one_hour < now - t)"
    using assms(10) by (simp add: one_hour_def split: option.splits)
  then have ps: "ps = map (\<lambda>(k, v). populatePackage ?conf (new_package hostname k v)) (versions c) @
      map (\<lambda>ap. populatePackage ?conf (?given ap)) (Packages conf)"
    using arg_cong[OF assms(11), of fst] by (simp add: ResolvePackages_def c(1) Let_def)
  have "map ap_Name ps = map fst (versions c) @ map ap_Name (Packages conf)"
    by (simp add: ps case_prod_unfold new_package_def comp_def)
  then have names: "\<exists>ns. map ap_Name ps = ns @ map ap_Name (Packages conf) \<and> distinct ns \<and>
      set ns = fst ` set (versions (cache conf)) \<union> listed q"
    using c(2,3) by (intro exI[of _ "map fst (versions c)"]) simp
  have inst: "map_of (versions c) n \<noteq> None \<longleftrightarrow> n \<in> fst ` set (versions (cache conf)) \<union> listed q" for n
    using c(3) by (metis map_of_eq_None_iff)
  have slash: "contains_any n ''/'' \<longleftrightarrow> CHR ''/'' \<in> set n" for n by (auto simp: contains_any_def)
  show ?thesis
  proof (intro conjI [OF names] ballI)
    fix p assume "p \<in> set ps"
    then obtain ap where p: "p = populatePackage ?conf ap" by (auto simp: ps)
    show "let n = ap_Name p; s = ap_State p; old = cache conf in
       (Installed s \<longleftrightarrow> n \<in> fst ` set (versions old) \<union> listed q) \<and>
       (ExplictlyInstalled s \<longleftrightarrow> n \<in> set (explicitlyInstalled old) \<union> listed x) \<and>
       (IsDependency s \<longleftrightarrow> n \<in> set (dependencies old) \<union> listed d) \<and>
       (InDistRepos s \<longleftrightarrow> n \<in> set (inSyncDB old) \<union> listed nt) \<and>
       (FromAUR s \<longleftrightarrow> n \<in> set (notInSyncDB old) \<union> listed f) \<and>
       (InUsersABS s \<longleftrightarrow> n \<in> set (absPackages old) \<or>
          n \<in> set (notInSyncDB old) \<union> listed f \<and> CHR ''/'' \<notin> set n \<and> n \<in> set rels) \<and>
       (AURpackageWithoutABS s \<longleftrightarrow> \<not> InDistRepos s \<and> \<not> InUsersABS s)"
      unfolding Let_def p using inst[of "ap_Name ap"] c(4-8) by (auto simp: named slash)
  qed
qed

definition demo_pacman :: run_lines where
  "demo_pacman cmd = Inr
     (if cmd = ''pacman --query'' then [''vim 9.1'', ''yay 12.0'']
      else if cmd = ''pacman --query --explicit'' then [''yay 12.0'']
      else if cmd = ''pacman --query --native'' then [''vim 9.1'']
      else if cmd = ''pacman --query --foreign'' then [''yay 12.0'']
      else if cmd = find_cmd ''/h/abs'' then [''/h/abs/yay/PKGBUILD'']
      else [])"

definition run_in_order :: "('c \<Rightarrow> errors \<times> 'c) list \<Rightarrow> 'c \<Rightarrow> errors \<times> 'c" where
  "run_in_order ws c = fold (\<lambda>w (err, c). case w c of (e, c') \<Rightarrow> (err @ e, c')) ws ([], c)"

definition demo_arch :: ArchLinux where
  "demo_arch = \<lparr>BuildPath = ''/h/abs'', Packages = [], cache = empty_cache\<rparr>"

theorem resolved_package_states_witness:
  "\<exists>p \<in> set (fst (ResolvePackages run_in_order demo_pacman ''host'' 0 demo_arch)).
     ap_Name p = ''yay'' \<and> Installed (ap_State p) \<and> FromAUR (ap_State p) \<and> InUsersABS (ap_State p) \<and>
     \<not> InDistRepos (ap_State p)"
proof -
  obtain ps conf' where r: "ResolvePackages run_in_order demo_pacman ''host'' 0 demo_arch = (ps, conf')" by fastforce
  have out: "demo_pacman ''pacman --query'' = Inr [''vim 9.1'', ''yay 12.0'']"
    "demo_pacman ''pacman --query --explicit'' = Inr [''yay 12.0'']"
    "demo_pacman ''pacman --query --native'' = Inr [''vim 9.1'']"
    "demo_pacman ''pacman --query --deps'' = Inr []"
    "demo_pacman ''pacman --query --foreign'' = Inr [''yay 12.0'']"
    "demo_pacman (''sudo find '' @ BuildPath demo_arch @ '' -name \"PKGBUILD\"'') =
      Inr (map (\<lambda>rel. BuildPath demo_arch @ ''/'' @ rel @ ''/PKGBUILD'') [''yay''])"
    by (code_simp)+
  have rels: "rel \<noteq> [] \<and> hd rel \<notin> {CHR '' '', CHR ''/''} \<and>
      last rel \<notin> {CHR '' '', CHR ''/''} \<and> \<not> str_contains (''/'' @ rel) ''/PKGBUILD''"
    if "rel \<in> set [''yay'']" for rel
    using that by (simp add: has_prefix_def)
  have listed: "''yay'' \<in> listed [''vim 9.1'', ''yay 12.0'']" "''yay'' \<in> listed [''yay 12.0'']"
    "''yay'' \<notin> listed [''vim 9.1'']"
    unfolding listed_eq by (code_simp)+
  have join: "joins_in_order run_in_order"
    by (simp add: joins_in_order_def run_in_order_def)
  have fresh: "distinct (map fst (versions (cache demo_arch)))"
    "case indexedAt (cache demo_arch) of None \<Rightarrow> True | Some t \<Rightarrow> 3600 * 10 ^ 9 < 0 - t"
    by (simp_all add: demo_arch_def empty_cache_def)
  have old: "cache demo_arch = empty_cache" by (simp add: demo_arch_def)
  note s = resolved_package_states [OF out rels join fresh r]
  from conjunct1 [OF s] listed(1) have "''yay'' \<in> set (map ap_Name ps)" by (auto simp del: set_map)
  then obtain p where p: "p \<in> set ps" and n: "ap_Name p = ''yay''" by auto
  from bspec [OF conjunct2 [OF s] p] listed
  have "Installed (ap_State p) \<and> FromAUR (ap_State p) \<and> InUsersABS (ap_State p) \<and> \<not> InDistRepos (ap_State p)"
    unfolding Let_def n old by (simp add: empty_cache_def)
  with p n show ?thesis by (intro bexI [of _ p]) (simp_all add: r)
qed

section \<open>Building\<close>

text \<open>The repository of a package from the user repository, as its validation leaves it.\<close>

definition valid_aur_repo :: "ArchLinux \<Rightarrow> string \<Rightarrow> GitRepository" where
  "valid_aur_repo conf name = (aur_repo conf name)\<lparr>r_Logs := LoggingErrorsOnly\<rparr>"

lemma aur_repo_valid:
  assumes "TryExpandHomeDir home (path_join [BuildPath conf, name]) = path_join [BuildPath conf, name]"
  shows "GitRepository_Validate home (aur_repo conf name) = ([], valid_aur_repo conf name)"
    and "GitRepository_Validate home (valid_aur_repo conf name) = ([], valid_aur_repo conf name)"
  using assms by (simp_all add: GitRepository_Validate_def repo_defaults_def aur_repo_def valid_aur_repo_def
      Let_def Default_def Logging_Default_def Logging_Validate_def LoggingErrorsOnly_def
      TryExpandHomeDirs_def Apply_def)


definition abs_ops :: "jcommand list ops" where
  "abs_ops = \<lparr>op_stat = (\<lambda>p w. if w = [] then Not_Exist else Found True), op_run = trace_run (\<lambda>c. []),
     op_git_clean = (\<lambda>p w. Inr True), op_home = ''/h'', op_hostname = ''box''\<rparr>"


end
