(* ===== verification/Sysmgmt.thy ===== *)
theory Sysmgmt
  imports Systemd Links Arch
begin

text \<open>
  The configuration of the system, \<open>sysmgmt/sysmgmt.go\<close>: its parts, their validation in order,
  and how the configurations of two files are joined.
\<close>

record GoPackage =
  gp_Name :: string
  gp_Update :: bool
  gp_Version :: string

record Configuration =
  y_GoPackages :: "GoPackage list"
  y_Arch :: ArchLinux
  y_SystemD :: "SystemdService list"
  y_Links :: LinkConfiguration
  y_ServicesLEGACY :: "SystemdService list"

text \<open>What the validation needs of the host.\<close>

record 'w sys_env =
  ye_stat :: "string \<Rightarrow> 'w \<Rightarrow> stat_result"
  ye_mkdir_all :: "string \<Rightarrow> 'w \<Rightarrow> errors \<times> 'w"
  ye_homedir_Expand :: "string \<Rightarrow> string \<times> errors"
  ye_home :: string
  ye_hostname :: string

definition Configuration_Validate ::
    "'w sys_env \<Rightarrow> Configuration \<Rightarrow> 'w \<Rightarrow> (errors \<times> Configuration \<times> 'w) outcome" where
  "Configuration_Validate env conf w =
     (case ArchLinux_Validate (ye_stat env) (ye_mkdir_all env) (ye_home env) (y_Arch conf) w of
        Panic e \<Rightarrow> Panic e
      | Return (e1, arch, w) \<Rightarrow>
          let e2 = SystemdConfiguration_Validate (y_SystemD conf);
              (e3, links) = LinkConfiguration_Validate (ye_homedir_Expand env) (ye_hostname env) (ye_home env)
                 (\<lambda>p. ye_stat env p w) (y_Links conf)
          in Return (e1 @ e2 @ e3, conf\<lparr>y_Arch := arch, y_Links := links\<rparr>, w))"

definition LinkDiscovery_Join :: "LinkDiscovery \<Rightarrow> LinkDiscovery \<Rightarrow> LinkDiscovery" where
  "LinkDiscovery_Join conf mcf = conf
     \<lparr>SearchPaths := SearchPaths conf @ SearchPaths mcf,
      IgnoreTargetPrefixes := IgnoreTargetPrefixes conf @ IgnoreTargetPrefixes mcf,
      IgnorePathPrefixes := IgnorePathPrefixes conf @ IgnorePathPrefixes mcf,
      SkipResolvedTargets := Default None (SkipResolvedTargets mcf) (SkipResolvedTargets conf),
      SkipMissingTargets := Default None (SkipMissingTargets mcf) (SkipMissingTargets conf)\<rparr>"

text \<open>The build path of the packages, the managed link trees and the legacy services of the other
  file are not looked at.\<close>

definition Configuration_Join :: "Configuration \<Rightarrow> Configuration \<Rightarrow> Configuration" where
  "Configuration_Join conf mcf =
     (let conf =
            (case lc_Discovery (y_Links mcf) of
               None \<Rightarrow> conf
             | Some d \<Rightarrow> conf\<lparr>y_Links := (y_Links conf)\<lparr>lc_Discovery :=
                 Some (LinkDiscovery_Join
                   (case lc_Discovery (y_Links conf) of None \<Rightarrow> new_LinkDiscovery | Some c \<Rightarrow> c) d)\<rparr>\<rparr>)
      in conf
        \<lparr>y_Arch := (y_Arch conf)\<lparr>Packages := Packages (y_Arch conf) @ Packages (y_Arch mcf)\<rparr>,
         y_GoPackages := y_GoPackages conf @ y_GoPackages mcf,
         y_Links := (y_Links conf)\<lparr>lc_Links := lc_Links (y_Links conf) @ lc_Links (y_Links mcf)\<rparr>,
         y_SystemD := y_SystemD conf @ y_SystemD mcf\<rparr>)"

interpretation discovery_join: config_join LinkDiscovery_Join new_LinkDiscovery
  by unfold_locales (simp_all add: LinkDiscovery_Join_def new_LinkDiscovery_def)

lemma Join_parts [simp]:
  "Packages (y_Arch (Configuration_Join conf mcf)) = Packages (y_Arch conf) @ Packages (y_Arch mcf)"
  "y_GoPackages (Configuration_Join conf mcf) = y_GoPackages conf @ y_GoPackages mcf"
  "lc_Links (y_Links (Configuration_Join conf mcf)) = lc_Links (y_Links conf) @ lc_Links (y_Links mcf)"
  "y_SystemD (Configuration_Join conf mcf) = y_SystemD conf @ y_SystemD mcf"
  "y_ServicesLEGACY (Configuration_Join conf mcf) = y_ServicesLEGACY conf"
  "BuildPath (y_Arch (Configuration_Join conf mcf)) = BuildPath (y_Arch conf)"
  by (simp_all add: Configuration_Join_def Let_def split: option.splits)

end
