(* ===== verification/Srv.thy ===== *)
theory Srv
  imports Util
begin

text \<open>
  The settings of \<open>srv\<close>: hosts of the network (\<open>network.go\<close>), logging, notification and the
  loggers they select (\<open>logging.go\<close>), credentials and the joined configuration (\<open>srv.go\<close>). The
  senders of the logging library are named, not modelled; its defaults, the XMPP and Telegram
  checks, the home directory expansion and the environment are parameters.
\<close>

section \<open>network.go\<close>

record HostDefinition =
  h_Name :: string
  h_User :: string
  h_Hostname :: string
  h_Port :: int
  h_Protocol :: string
  h_Sardis :: bool

type_synonym Network = "HostDefinition list"

definition Network_Join :: "Network \<Rightarrow> Network \<Rightarrow> Network" where
  "Network_Join conf mcf = conf @ mcf"

definition HostDefinition_Validate :: "HostDefinition \<Rightarrow> errors" where
  "HostDefinition_Validate h =
     when_err (h_Name h = []) (Errf ''cannot have an empty name for a host'' []) @
     when_err (h_Hostname h = []) (Errf ''cannot have an empty host name'' []) @
     when_err (h_Port h = 0) (Errf ''must specify a non-zero port number for a host'' []) @
     when_err (h_Protocol h \<notin> set [''ssh'', ''jasper'']) (Errf ''host protocol must be ssh or jasper'' []) @
     (if h_Protocol h = ''ssh''
      then when_err (h_User h = []) (Errf ''must specify user for ssh hosts'' []) else [])"

definition Network_Validate :: "Network \<Rightarrow> errors" where
  "Network_Validate hosts =
     concat (map (\<lambda>(idx, h). wrap_errs (HostDefinition_Validate h) ''%d of %T is not valid'' [I (int idx)])
       (zip [0..<length hosts] hosts))"

definition ByName :: "Network \<Rightarrow> string \<Rightarrow> go_error + HostDefinition" where
  "ByName hosts name =
     (case find (\<lambda>h. h_Name h = name) hosts of
        Some h \<Rightarrow> Inr h
      | None \<Rightarrow> Inl (Errf (''could not find a host named '%s'' @ [CHR 0x27]) [S name]))"

definition Host_Jasper :: "HostDefinition \<Rightarrow> 'm outcome" where
  "Host_Jasper h = Panic (Errf ''unsupported'' [])"

section \<open>logging.go: settings\<close>

record LoggingSettings =
  DisableStandardOutput :: "bool option"
  EnableJSONFormating :: "bool option"
  EnableJSONColorFormatting :: "bool option"
  DisableSyslog :: "bool option"
  Priority :: int

definition zero_LoggingSettings :: LoggingSettings where
  "zero_LoggingSettings = \<lparr>DisableStandardOutput = None, EnableJSONFormating = None,
     EnableJSONColorFormatting = None, DisableSyslog = None, Priority = 0\<rparr>"

definition LoggingSettings_Join :: "LoggingSettings \<Rightarrow> LoggingSettings \<Rightarrow> LoggingSettings" where
  "LoggingSettings_Join ls mc = ls
     \<lparr>DisableStandardOutput := Default None (DisableStandardOutput mc) (DisableStandardOutput ls),
      EnableJSONFormating := Default None (EnableJSONFormating mc) (EnableJSONFormating ls),
      EnableJSONColorFormatting := Default None (EnableJSONColorFormatting mc) (EnableJSONColorFormatting ls),
      DisableSyslog := Default None (DisableSyslog mc) (DisableSyslog ls),
      Priority := Default 0 (Priority mc) (Priority ls)\<rparr>"

definition DisableLoggingToStandardOutput :: "LoggingSettings \<Rightarrow> bool" where
  "DisableLoggingToStandardOutput ls \<longleftrightarrow>
     DisableStandardOutput ls \<noteq> None \<and> deref_z False (DisableStandardOutput ls)"

definition DisableLoggingToSyslog :: "LoggingSettings \<Rightarrow> bool" where
  "DisableLoggingToSyslog ls \<longleftrightarrow> DisableSyslog ls \<noteq> None \<and> deref_z False (DisableSyslog ls)"

definition EnableJSONFormattingForLogOutput :: "LoggingSettings \<Rightarrow> bool" where
  "EnableJSONFormattingForLogOutput ls \<longleftrightarrow>
     EnableJSONFormating ls \<noteq> None \<and> deref_z False (EnableJSONFormating ls)"

definition EnableJSONColorFormattingForLogOutput :: "LoggingSettings \<Rightarrow> bool" where
  "EnableJSONColorFormattingForLogOutput ls \<longleftrightarrow>
     EnableJSONColorFormatting ls \<noteq> None \<and> deref_z False (EnableJSONColorFormatting ls)"

record NotifySettings =
  n_Name :: string
  n_Target :: string
  n_Host :: string
  n_User :: string
  n_Password :: string
  n_Disabled :: "bool option"

definition zero_NotifySettings :: NotifySettings where
  "zero_NotifySettings = \<lparr>n_Name = [], n_Target = [], n_Host = [], n_User = [], n_Password = [],
     n_Disabled = None\<rparr>"

definition NotifySettings_Join :: "NotifySettings \<Rightarrow> NotifySettings \<Rightarrow> NotifySettings" where
  "NotifySettings_Join conf mc = conf
     \<lparr>n_Name := Default [] (n_Name mc) (n_Name conf),
      n_Target := Default [] (n_Target mc) (n_Target conf),
      n_Host := Default [] (n_Host mc) (n_Host conf),
      n_User := Default [] (n_User mc) (n_User conf),
      n_Password := Default [] (n_Password mc) (n_Password conf),
      n_Disabled := Default None (n_Disabled mc) (n_Disabled conf)\<rparr>"

definition Enabled :: "NotifySettings \<Rightarrow> bool" where
  "Enabled conf \<longleftrightarrow> n_Disabled conf = None \<or> \<not> deref_z False (n_Disabled conf)"

text \<open>What \<open>Validate\<close> reads from the outside: the variable \<open>SARDIS_NOTIFY_TARGET\<close> and the connection
  information of the XMPP library (host, user, password). The three values are checked in the
  order of a Go map.\<close>

record notify_env =
  ne_target :: string
  ne_host :: string
  ne_user :: string
  ne_password :: string

definition NotifySettings_Validate ::
    "((string \<times> string) list \<Rightarrow> (string \<times> string) list) \<Rightarrow> notify_env \<Rightarrow> NotifySettings \<Rightarrow>
     errors \<times> NotifySettings" where
  "NotifySettings_Validate map_order env conf =
     (if n_Target conf = [] \<and> ne_target env = [] then ([], conf)
      else
        let conf = (if n_Name conf = [] then conf\<lparr>n_Name := ''sardis''\<rparr> else conf);
            conf = (if n_Target conf = [] then conf\<lparr>n_Target := ne_target env\<rparr> else conf);
            conf = (if n_Host conf = [] then conf\<lparr>n_Host := ne_host env\<rparr> else conf);
            conf = (if n_User conf = [] then conf\<lparr>n_User := ne_user env\<rparr> else conf);
            conf = (if n_Password conf = [] then conf\<lparr>n_Password := ne_password env\<rparr> else conf);
            values = map_order [(''host'', n_Host conf), (''user'', n_User conf), (''pass'', n_Password conf)]
        in (concat (map (\<lambda>(k, v). when_err (v = []) (Errf (''missing value for '%s'' @ [CHR 0x27]) [S k])) values),
            conf))"

section \<open>srv.go\<close>

record Credentials =
  cr_Path :: string
  tw_Username :: string
  tw_ConsumerKey :: string
  tw_ConsumerSecret :: string
  tw_OauthToken :: string
  tw_OauthSecret :: string
  jira_Username :: string
  jira_Password :: string
  jira_URL :: string
  gh_Username :: string
  gh_Password :: string
  gh_Token :: string
  cr_AWS :: "(string \<times> string \<times> string \<times> string) list"

definition zero_Credentials :: Credentials where
  "zero_Credentials = \<lparr>cr_Path = [], tw_Username = [], tw_ConsumerKey = [], tw_ConsumerSecret = [],
     tw_OauthToken = [], tw_OauthSecret = [], jira_Username = [], jira_Password = [], jira_URL = [],
     gh_Username = [], gh_Password = [], gh_Token = [], cr_AWS = []\<rparr>"

definition Credentials_Join :: "Credentials \<Rightarrow> Credentials \<Rightarrow> Credentials" where
  "Credentials_Join conf mc = conf
     \<lparr>cr_Path := Default [] (cr_Path mc) (cr_Path conf),
      tw_Username := Default [] (tw_Username mc) (tw_Username conf),
      tw_ConsumerKey := Default [] (tw_ConsumerKey mc) (tw_ConsumerKey conf),
      tw_ConsumerSecret := Default [] (tw_ConsumerSecret mc) (tw_ConsumerSecret conf),
      tw_OauthToken := Default [] (tw_OauthToken mc) (tw_OauthToken conf),
      tw_OauthSecret := Default [] (tw_OauthSecret mc) (tw_OauthSecret conf),
      jira_Username := Default [] (jira_Username mc) (jira_Username conf),
      jira_Password := Default [] (jira_Password mc) (jira_Password conf),
      jira_URL := Default [] (jira_URL mc) (jira_URL conf),
      gh_Username := Default [] (gh_Username mc) (gh_Username conf),
      gh_Password := Default [] (gh_Password mc) (gh_Password conf),
      gh_Token := Default [] (gh_Token mc) (gh_Token conf),
      cr_AWS := cr_AWS conf @ cr_AWS mc\<rparr>"

text \<open>\<open>homedir.Expand\<close> returns a path and an error; \<open>unmarshal\<close> is \<open>UnmarshalFile\<close> of \<open>Util\<close> on
  the file system, into the credentials.\<close>

definition Credentials_Validate ::
    "(string \<Rightarrow> string \<times> errors) \<Rightarrow> (string \<Rightarrow> Credentials \<Rightarrow> go_error option \<times> Credentials) \<Rightarrow>
     Credentials \<Rightarrow> errors \<times> Credentials" where
  "Credentials_Validate homedir_Expand unmarshal conf =
     (if cr_Path conf = [] then ([], conf)
      else
        let (path, err) = homedir_Expand (cr_Path conf);
            conf = conf\<lparr>cr_Path := path\<rparr>
        in if err \<noteq> [] then (err, conf)
           else case unmarshal (cr_Path conf) conf of (e, conf) \<Rightarrow> (opt_err e, conf))"

text \<open>The menu flags and the options of the Telegram client are those of their libraries; the
  fields whose type is not the repository's are options, with \<open>None\<close> for the zero value.\<close>

record 'v DMenuFlags =
  dm_Path :: string
  dm_BackgroundColor :: string
  dm_TextColor :: string
  dm_Font :: string
  dm_Lines :: int
  dm_Prompt :: string
  dm_Monitor :: "'v option"
  dm_WindowID :: "'v option"

record 'v Telegram =
  tg_Name :: string
  tg_Target :: string
  tg_Token :: string
  tg_Client :: "'v option"

record ShellHistory =
  sh_MinLength :: int
  sh_MaxLength :: int
  sh_Paths :: "string list"
  sh_ExcludePrefixes :: "string list"
  sh_ExcludeSubstrings :: "string list"

record 'v Configuration =
  s_Logging :: LoggingSettings
  s_Credentials :: Credentials
  s_Notify :: NotifySettings
  s_Telegram :: "'v Telegram"
  s_Network :: Network
  s_ConfigPaths :: "string list"
  s_DMenuFlags :: "'v DMenuFlags"
  s_WithAnnotations :: bool
  s_AnnotationSeparator :: string
  s_ShellHistory :: ShellHistory

definition zero_Configuration :: "'v Configuration" where
  "zero_Configuration =
     \<lparr>s_Logging = zero_LoggingSettings, s_Credentials = zero_Credentials, s_Notify = zero_NotifySettings,
      s_Telegram = \<lparr>tg_Name = [], tg_Target = [], tg_Token = [], tg_Client = None\<rparr>,
      s_Network = [], s_ConfigPaths = [],
      s_DMenuFlags = \<lparr>dm_Path = [], dm_BackgroundColor = [], dm_TextColor = [], dm_Font = [], dm_Lines = 0,
        dm_Prompt = [], dm_Monitor = None, dm_WindowID = None\<rparr>,
      s_WithAnnotations = False, s_AnnotationSeparator = [],
      s_ShellHistory = \<lparr>sh_MinLength = 0, sh_MaxLength = 0, sh_Paths = [], sh_ExcludePrefixes = [],
        sh_ExcludeSubstrings = []\<rparr>\<rparr>"

definition DMenuFlags_Join :: "'v DMenuFlags \<Rightarrow> 'v DMenuFlags \<Rightarrow> 'v DMenuFlags" where
  "DMenuFlags_Join conf mc = conf
     \<lparr>dm_BackgroundColor := Default [] (dm_BackgroundColor mc) (dm_BackgroundColor conf),
      dm_Font := Default [] (dm_Font mc) (dm_Font conf),
      dm_Lines := Default 0 (dm_Lines mc) (dm_Lines conf),
      dm_Path := Default [] (dm_Path mc) (dm_Path conf),
      dm_TextColor := Default [] (dm_TextColor mc) (dm_TextColor conf),
      dm_Prompt := Default [] (dm_Prompt mc) (dm_Prompt conf),
      dm_Monitor := Default None (dm_Monitor mc) (dm_Monitor conf),
      dm_WindowID := Default None (dm_WindowID mc) (dm_WindowID conf)\<rparr>"

definition Telegram_Join :: "'v Telegram \<Rightarrow> 'v Telegram \<Rightarrow> 'v Telegram" where
  "Telegram_Join conf mc = conf
     \<lparr>tg_Name := Default [] (tg_Name mc) (tg_Name conf),
      tg_Target := Default [] (tg_Target mc) (tg_Target conf),
      tg_Token := Default [] (tg_Token mc) (tg_Token conf),
      tg_Client := Default None (tg_Client mc) (tg_Client conf)\<rparr>"

text \<open>\<open>irt.Unique\<close> keeps the first of each value.\<close>

definition unique :: "'a list \<Rightarrow> 'a list" where
  "unique xs = rev (remdups (rev xs))"

definition ShellHistory_Join ::
    "string \<Rightarrow> (string \<Rightarrow> stat_result) \<Rightarrow> ShellHistory \<Rightarrow> ShellHistory \<Rightarrow> ShellHistory" where
  "ShellHistory_Join home stat conf mc = conf
     \<lparr>sh_ExcludePrefixes := unique (sh_ExcludePrefixes conf @ sh_ExcludePrefixes mc),
      sh_ExcludeSubstrings := unique (sh_ExcludeSubstrings conf @ sh_ExcludeSubstrings mc),
      sh_Paths := filter (\<lambda>p. \<not> IsZero [] p) (filter (FileExists stat)
        (map (TryExpandHomeDir home) (unique (sh_Paths conf @ sh_Paths mc)))),
      sh_MinLength := min (sh_MinLength conf) (sh_MinLength mc),
      sh_MaxLength := max (sh_MaxLength conf) (sh_MaxLength mc)\<rparr>"

text \<open>\<open>Join\<close> of a nil configuration does nothing. The network and the runtime settings of the other
  file are not looked at.\<close>

definition Configuration_Join ::
    "string \<Rightarrow> (string \<Rightarrow> stat_result) \<Rightarrow> 'v Configuration \<Rightarrow> 'v Configuration option \<Rightarrow> 'v Configuration" where
  "Configuration_Join home stat conf mc =
     (case mc of
        None \<Rightarrow> conf
      | Some mc \<Rightarrow> conf
          \<lparr>s_ConfigPaths := s_ConfigPaths conf @ s_ConfigPaths mc,
           s_Notify := NotifySettings_Join (s_Notify conf) (s_Notify mc),
           s_Credentials := Credentials_Join (s_Credentials conf) (s_Credentials mc),
           s_Logging := LoggingSettings_Join (s_Logging conf) (s_Logging mc),
           s_DMenuFlags := DMenuFlags_Join (s_DMenuFlags conf) (s_DMenuFlags mc),
           s_Telegram := Telegram_Join (s_Telegram conf) (s_Telegram mc),
           s_ShellHistory := ShellHistory_Join home stat (s_ShellHistory conf) (s_ShellHistory mc)\<rparr>)"

text \<open>What \<open>Validate\<close> takes from its libraries.\<close>

record 'v srv_env =
  se_map_order :: "(string \<times> string) list \<Rightarrow> (string \<times> string) list"
  se_notify :: notify_env
  se_home :: string
  se_homedir_Expand :: "string \<Rightarrow> string \<times> errors"
  se_unmarshal :: "string \<Rightarrow> Credentials \<Rightarrow> go_error option \<times> Credentials"
  se_dmenu_path :: string
  se_dmenu_background :: string
  se_dmenu_text :: string
  se_http_client :: 'v
  se_telegram_IsZero :: "'v Telegram \<Rightarrow> bool"
  se_telegram_Validate :: "'v Telegram \<Rightarrow> errors"

definition DMenuFlags_defaults :: "'v srv_env \<Rightarrow> 'v DMenuFlags \<Rightarrow> 'v DMenuFlags" where
  "DMenuFlags_defaults env f =
     \<lparr>dm_Path = Default [] (dm_Path f) (se_dmenu_path env),
      dm_BackgroundColor = Default [] (dm_BackgroundColor f) (se_dmenu_background env),
      dm_TextColor = Default [] (dm_TextColor f) (se_dmenu_text env),
      dm_Font = Default [] (dm_Font f) ''Source Code Pro-14'',
      dm_Lines = Default 0 (dm_Lines f) 16,
      dm_Prompt = Default [] (dm_Prompt f) ''=>>'',
      dm_Monitor = None, dm_WindowID = None\<rparr>"

definition ShellHistory_limits :: "ShellHistory \<Rightarrow> ShellHistory" where
  "ShellHistory_limits sh =
     (let sh = sh\<lparr>sh_MaxLength := Default 0 (max 0 (sh_MaxLength sh)) 32\<rparr>
      in sh\<lparr>sh_MinLength := Default 0 (min (sh_MaxLength sh) (sh_MinLength sh)) 4\<rparr>)"

definition Configuration_Validate :: "'v srv_env \<Rightarrow> 'v Configuration \<Rightarrow> errors \<times> 'v Configuration" where
  "Configuration_Validate env conf =
     (let conf = conf\<lparr>s_DMenuFlags := DMenuFlags_defaults env (s_DMenuFlags conf)\<rparr>;
          (ec1, notify) = NotifySettings_Validate (se_map_order env) (se_notify env) (s_Notify conf);
          (ec2, creds) = Credentials_Validate (se_homedir_Expand env) (se_unmarshal env) (s_Credentials conf);
          telegram = (s_Telegram conf)\<lparr>tg_Client := Some (se_http_client env)\<rparr>;
          ec3 = (if \<not> se_telegram_IsZero env telegram then se_telegram_Validate env telegram else [])
      in (ec1 @ ec2 @ ec3,
          conf\<lparr>s_Notify := notify, s_Credentials := creds, s_Telegram := telegram,
               s_ConfigPaths := map (TryExpandHomeDir (se_home env)) (s_ConfigPaths conf),
               s_ShellHistory := ShellHistory_limits (s_ShellHistory conf)\<rparr>))"

section \<open>logging.go: senders\<close>

text \<open>The destinations that the loggers write to. A formatter is set on the outermost sender; the
  second case of the code's switch repeats the condition of the first.\<close>

datatype sender =
    Std_Out | Std_Error | Syslog | Multi "sender list"
  | Xmpp string | Telegram_Bot string | Twitter_Bot string | Desktop | Jira string | Root

datatype formatter = Default_Format | JSON_Color_Format | JSON_Format

record app_sender =
  as_sender :: sender
  as_formatter :: formatter
  as_priority :: int
  as_name :: string

definition SetupLogging :: "string \<Rightarrow> bool \<Rightarrow> string \<Rightarrow> LoggingSettings \<Rightarrow> app_sender" where
  "SetupLogging goos journal_enabled argv0 conf =
     (let sender = (if EnableJSONFormattingForLogOutput conf \<or> EnableJSONColorFormattingForLogOutput conf
                    then Std_Out else Std_Error);
          sender = (if goos = ''linux'' \<and> \<not> DisableLoggingToSyslog conf \<and> journal_enabled
                    then if DisableLoggingToStandardOutput conf then Syslog else Multi [Syslog, sender]
                    else sender);
          formatter = (if EnableJSONColorFormattingForLogOutput conf then JSON_Color_Format
                       else if EnableJSONColorFormattingForLogOutput conf then JSON_Format
                       else Default_Format)
      in \<lparr>as_sender = sender, as_formatter = formatter, as_priority = Priority conf,
          as_name = path_base argv0\<rparr>)"

text \<open>The remote loggers: what each constructor of a sender answers is a parameter. The result is
  the list of senders, the root one last, the errors left for the cleanup phase, and the
  senders to close in it. A failing XMPP sender ends the set up early.\<close>

definition WithRemoteNotify ::
    "(NotifySettings \<Rightarrow> errors) \<Rightarrow> 'v Configuration \<Rightarrow> sender list \<times> errors \<times> sender list" where
  "WithRemoteNotify xmpp_NewSender conf =
     (let notify = s_Notify conf; target = n_Target notify;
          use_xmpp = (target \<noteq> [] \<and> Enabled notify); err = xmpp_NewSender notify
      in if use_xmpp \<and> err \<noteq> []
         then ([Root], [Wrapf err ''setting up notify send issue logger'' []], [])
         else
           let loggers = (if use_xmpp then [Xmpp target] else []);
               telegram = (if tg_Target (s_Telegram conf) \<noteq> [] then [Telegram_Bot (tg_Target (s_Telegram conf))]
                           else []);
               loggers = loggers @ telegram;
               closed = loggers;
               loggers = (if length loggers = 0 then [Desktop] else loggers)
           in (loggers @ [Root], [], closed))"

definition WithJiraIssue ::
    "('v Configuration \<Rightarrow> errors) \<Rightarrow> 'v Configuration \<Rightarrow> sender list \<times> errors \<times> sender list" where
  "WithJiraIssue jira_MakeIssueSender conf =
     (if jira_URL (s_Credentials conf) = [] then ([Root], [], [])
      else
        let err = jira_MakeIssueSender conf; s = Jira (jira_URL (s_Credentials conf))
        in if err \<noteq> [] then ([Root], [Wrapf err ''setting up jira issue logger'' []], [])
           else ([s, Root], [], [s]))"

text \<open>The loggers of a context: the sender of the process, the logger of the application, and the loggers
  by name. Looking one up is the logging library's.\<close>

record logger_ctx =
  lg_process :: app_sender
  lg_app :: "app_sender option"
  lg_named :: "(string \<times> sender list) list"

definition WithAppLogger :: "string \<Rightarrow> bool \<Rightarrow> string \<Rightarrow> LoggingSettings \<Rightarrow> logger_ctx \<Rightarrow> logger_ctx" where
  "WithAppLogger goos journal_enabled argv0 conf ctx =
     (let sender = SetupLogging goos journal_enabled argv0 conf
      in ctx\<lparr>lg_process := sender, lg_app := Some sender\<rparr>)"

definition WithDesktopNotify :: "logger_ctx \<Rightarrow> logger_ctx" where
  "WithDesktopNotify ctx = ctx\<lparr>lg_named := (''desktop'', [Desktop, Root]) # lg_named ctx\<rparr>"

definition DesktopNotify :: "logger_ctx \<Rightarrow> sender list option" where
  "DesktopNotify ctx = map_of (lg_named ctx) ''desktop''"

definition RemoteNotify :: "logger_ctx \<Rightarrow> sender list option" where
  "RemoteNotify ctx = map_of (lg_named ctx) ''remote''"

definition Twitter :: "logger_ctx \<Rightarrow> sender list option" where
  "Twitter ctx = map_of (lg_named ctx) ''twitter''"

definition JiraIssue :: "logger_ctx \<Rightarrow> sender list option" where
  "JiraIssue ctx = map_of (lg_named ctx) ''jira-issue''"

text \<open>The constructor of the Twitter sender: an error is left for the cleanup phase, and the sender that
  is nil then is used all the same.\<close>

definition twitter_sender :: "(Credentials \<Rightarrow> errors) \<Rightarrow> Credentials \<Rightarrow> sender outcome \<times> errors" where
  "twitter_sender twitter_MakeSender conf =
     (let err = twitter_MakeSender conf
      in (if err \<noteq> [] then Panic nil_deref
          else Return (Twitter_Bot (''@'' @ tw_Username conf @ ''/sardis'')),
          wrap_errs err ''problem constructing twitter sender'' []))"

text \<open>A failure to make the sender is reported and also panics.\<close>

lemma twitter_sender_panics:
  "twitter_sender mk conf = (if mk conf = [] then (Return (Twitter_Bot (''@'' @ tw_Username conf @ ''/sardis'')), [])
     else (Panic nil_deref, [Wrapf (mk conf) ''problem constructing twitter sender'' []]))"
  by (simp add: twitter_sender_def wrap_errs_def Let_def)

section \<open>Joins\<close>

text \<open>The joins of the parts: nothing joined is neutral, and the nesting of the files does not
  matter.\<close>

lemmas srv_joins = Network_Join_def LoggingSettings_Join_def NotifySettings_Join_def Credentials_Join_def
  DMenuFlags_Join_def Telegram_Join_def

interpretation network_join: config_join Network_Join "[]"
  by unfold_locales (simp_all add: Network_Join_def)

interpretation logging_join: config_join LoggingSettings_Join zero_LoggingSettings
  by unfold_locales (simp_all add: LoggingSettings_Join_def zero_LoggingSettings_def)

interpretation notify_join: config_join NotifySettings_Join zero_NotifySettings
  by unfold_locales (simp_all add: NotifySettings_Join_def zero_NotifySettings_def)

interpretation credentials_join: config_join Credentials_Join zero_Credentials
  by unfold_locales (simp_all add: Credentials_Join_def zero_Credentials_def)

text \<open>The last value that is set, in a list of settings.\<close>

definition last_set :: "'a \<Rightarrow> 'a list \<Rightarrow> 'a" where
  "last_set z xs = (case find (\<lambda>x. x \<noteq> z) (rev xs) of Some x \<Rightarrow> x | None \<Rightarrow> z)"

lemma last_set_simps [simp]:
  "last_set z [] = z" "last_set z [x] = x" "last_set z (xs @ [x]) = Default z x (last_set z xs)"
  by (simp_all add: last_set_def Default_def)

abbreviation join_files ::
    "string \<Rightarrow> (string \<Rightarrow> stat_result) \<Rightarrow> 'v Configuration \<Rightarrow> 'v Configuration list \<Rightarrow> 'v Configuration" where
  "join_files home stat c fs \<equiv> foldl (\<lambda>c f. Configuration_Join home stat c (Some f)) c fs"

lemma join_files_parts:
  "s_Notify (join_files home stat c fs) = foldl NotifySettings_Join (s_Notify c) (map s_Notify fs)"
  "s_Logging (join_files home stat c fs) = foldl LoggingSettings_Join (s_Logging c) (map s_Logging fs)"
  "s_Credentials (join_files home stat c fs) = foldl Credentials_Join (s_Credentials c) (map s_Credentials fs)"
  "s_ConfigPaths (join_files home stat c fs) = concat (map s_ConfigPaths (c # fs))"
  "s_Network (join_files home stat c fs) = s_Network c"
  "s_WithAnnotations (join_files home stat c fs) = s_WithAnnotations c"
  "s_AnnotationSeparator (join_files home stat c fs) = s_AnnotationSeparator c"
  by (induction fs rule: rev_induct) (simp_all add: Configuration_Join_def)

lemma join_files_history:
  "sh_MinLength (s_ShellHistory (join_files home stat c fs)) =
     Min (set (map (sh_MinLength \<circ> s_ShellHistory) (c # fs)))"
  "sh_MaxLength (s_ShellHistory (join_files home stat c fs)) =
     Max (set (map (sh_MaxLength \<circ> s_ShellHistory) (c # fs)))"
  by (induction fs rule: rev_induct)
     (simp_all add: Configuration_Join_def ShellHistory_Join_def insert_commute min.commute max.commute)

lemma join_files_notify:
  "s_Notify (join_files home stat c fs) = \<lparr>
      n_Name = last_set [] (map (n_Name \<circ> s_Notify) (c # fs)),
      n_Target = last_set [] (map (n_Target \<circ> s_Notify) (c # fs)),
      n_Host = last_set [] (map (n_Host \<circ> s_Notify) (c # fs)),
      n_User = last_set [] (map (n_User \<circ> s_Notify) (c # fs)),
      n_Password = last_set [] (map (n_Password \<circ> s_Notify) (c # fs)),
      n_Disabled = last_set None (map (n_Disabled \<circ> s_Notify) (c # fs))\<rparr>"
proof (induction fs rule: rev_induct)
  case Nil
  show ?case by (rule NotifySettings.equality) simp_all
next
  case (snoc f fs)
  then show ?case by (simp add: Configuration_Join_def NotifySettings_Join_def flip: append_Cons)
qed

lemma join_files_logging:
  "s_Logging (join_files home stat c fs) = \<lparr>
      DisableStandardOutput = last_set None (map (DisableStandardOutput \<circ> s_Logging) (c # fs)),
      EnableJSONFormating = last_set None (map (EnableJSONFormating \<circ> s_Logging) (c # fs)),
      EnableJSONColorFormatting = last_set None (map (EnableJSONColorFormatting \<circ> s_Logging) (c # fs)),
      DisableSyslog = last_set None (map (DisableSyslog \<circ> s_Logging) (c # fs)),
      Priority = last_set 0 (map (Priority \<circ> s_Logging) (c # fs))\<rparr>"
proof (induction fs rule: rev_induct)
  case Nil
  show ?case by (rule LoggingSettings.equality) simp_all
next
  case (snoc f fs)
  then show ?case by (simp add: Configuration_Join_def LoggingSettings_Join_def flip: append_Cons)
qed

lemma join_files_credentials:
  "s_Credentials (join_files home stat c fs) = \<lparr>
      cr_Path = last_set [] (map (cr_Path \<circ> s_Credentials) (c # fs)),
      tw_Username = last_set [] (map (tw_Username \<circ> s_Credentials) (c # fs)),
      tw_ConsumerKey = last_set [] (map (tw_ConsumerKey \<circ> s_Credentials) (c # fs)),
      tw_ConsumerSecret = last_set [] (map (tw_ConsumerSecret \<circ> s_Credentials) (c # fs)),
      tw_OauthToken = last_set [] (map (tw_OauthToken \<circ> s_Credentials) (c # fs)),
      tw_OauthSecret = last_set [] (map (tw_OauthSecret \<circ> s_Credentials) (c # fs)),
      jira_Username = last_set [] (map (jira_Username \<circ> s_Credentials) (c # fs)),
      jira_Password = last_set [] (map (jira_Password \<circ> s_Credentials) (c # fs)),
      jira_URL = last_set [] (map (jira_URL \<circ> s_Credentials) (c # fs)),
      gh_Username = last_set [] (map (gh_Username \<circ> s_Credentials) (c # fs)),
      gh_Password = last_set [] (map (gh_Password \<circ> s_Credentials) (c # fs)),
      gh_Token = last_set [] (map (gh_Token \<circ> s_Credentials) (c # fs)),
      cr_AWS = concat (map (cr_AWS \<circ> s_Credentials) (c # fs))\<rparr>"
proof (induction fs rule: rev_induct)
  case Nil
  show ?case by (rule Credentials.equality) simp_all
next
  case (snoc f fs)
  then show ?case by (simp add: Configuration_Join_def Credentials_Join_def flip: append_Cons)
qed

lemma join_files_dmenu:
  "s_DMenuFlags (join_files home stat c fs) = \<lparr>
      dm_Path = last_set [] (map (dm_Path \<circ> s_DMenuFlags) (c # fs)),
      dm_BackgroundColor = last_set [] (map (dm_BackgroundColor \<circ> s_DMenuFlags) (c # fs)),
      dm_TextColor = last_set [] (map (dm_TextColor \<circ> s_DMenuFlags) (c # fs)),
      dm_Font = last_set [] (map (dm_Font \<circ> s_DMenuFlags) (c # fs)),
      dm_Lines = last_set 0 (map (dm_Lines \<circ> s_DMenuFlags) (c # fs)),
      dm_Prompt = last_set [] (map (dm_Prompt \<circ> s_DMenuFlags) (c # fs)),
      dm_Monitor = last_set None (map (dm_Monitor \<circ> s_DMenuFlags) (c # fs)),
      dm_WindowID = last_set None (map (dm_WindowID \<circ> s_DMenuFlags) (c # fs))\<rparr>"
proof (induction fs rule: rev_induct)
  case Nil
  show ?case by (rule DMenuFlags.equality) simp_all
next
  case (snoc f fs)
  then show ?case by (simp add: Configuration_Join_def DMenuFlags_Join_def flip: append_Cons)
qed

lemma join_files_telegram:
  "s_Telegram (join_files home stat c fs) = \<lparr>
      tg_Name = last_set [] (map (tg_Name \<circ> s_Telegram) (c # fs)),
      tg_Target = last_set [] (map (tg_Target \<circ> s_Telegram) (c # fs)),
      tg_Token = last_set [] (map (tg_Token \<circ> s_Telegram) (c # fs)),
      tg_Client = last_set None (map (tg_Client \<circ> s_Telegram) (c # fs))\<rparr>"
proof (induction fs rule: rev_induct)
  case Nil
  show ?case by (rule Telegram.equality) simp_all
next
  case (snoc f fs)
  then show ?case by (simp add: Configuration_Join_def Telegram_Join_def flip: append_Cons)
qed

lemma unique_unique_append: "unique (unique xs @ ys) = unique (xs @ ys)"
  by (simp add: unique_def remdups_append2)

lemma join_files_excluded:
  "sh_ExcludePrefixes (s_ShellHistory (join_files home stat c (fs @ [f]))) =
     unique (concat (map (sh_ExcludePrefixes \<circ> s_ShellHistory) (c # fs @ [f])))"
  "sh_ExcludeSubstrings (s_ShellHistory (join_files home stat c (fs @ [f]))) =
     unique (concat (map (sh_ExcludeSubstrings \<circ> s_ShellHistory) (c # fs @ [f])))"
  by (induction fs arbitrary: f rule: rev_induct)
     (simp_all add: Configuration_Join_def ShellHistory_Join_def unique_unique_append flip: append_assoc)


text \<open>The limits on the length of the shell history after validation. The upper one is
  positive, and when no lower limit is set it becomes 4, also above the upper one, so that no
  length is accepted. A file that does not set the lower limit resets it for all the files it is
  joined with.\<close>

theorem history_limits_forget_minimum:
  assumes "\<forall>f \<in> set (c # fs). 0 \<le> sh_MinLength (s_ShellHistory f)"
    and "conf = snd (Configuration_Validate env (join_files home stat c fs))"
    and "lo = sh_MinLength (s_ShellHistory conf)" and "hi = sh_MaxLength (s_ShellHistory conf)"
  shows "0 < hi \<and>
    ((\<exists>f \<in> set (c # fs). sh_MinLength (s_ShellHistory f) = 0) \<longrightarrow> lo = 4) \<and>
    ({n. lo \<le> n \<and> n \<le> hi} = {} \<longleftrightarrow> lo = 4 \<and> hi < 4)"
proof -
  define sh where "sh = s_ShellHistory (join_files home stat c fs)"
  let ?ms = "set (map (sh_MinLength \<circ> s_ShellHistory) (c # fs))"
  have limits: "s_ShellHistory conf = ShellHistory_limits sh"
    by (simp add: assms(2) Configuration_Validate_def sh_def Let_def split: prod.splits)
  have lo0: "0 \<le> sh_MinLength sh" and m: "sh_MinLength sh = Min ?ms"
    using assms(1) by (simp_all add: sh_def join_files_history Min_ge_iff)
  have "sh_MinLength sh = 0" if "\<exists>f \<in> set (c # fs). sh_MinLength (s_ShellHistory f) = 0"
  proof -
    from that have "0 \<in> ?ms" by force
    then have "Min ?ms \<le> 0" by (intro Min_le) auto
    with lo0 m show ?thesis by linarith
  qed
  moreover have "0 < hi \<and> (sh_MinLength sh = 0 \<longrightarrow> lo = 4) \<and> (lo = 4 \<or> lo \<le> hi)"
    using lo0 by (auto simp: assms(3,4) limits ShellHistory_limits_def Default_def Let_def)
  ultimately show ?thesis by (auto simp: set_eq_iff intro: exI[of _ lo])
qed

definition history_file :: "int \<Rightarrow> int \<Rightarrow> unit Configuration" where
  "history_file lo hi = zero_Configuration
     \<lparr>s_ShellHistory := \<lparr>sh_MinLength = lo, sh_MaxLength = hi, sh_Paths = [], sh_ExcludePrefixes = [],
        sh_ExcludeSubstrings = []\<rparr>\<rparr>"

definition demo_env :: "unit srv_env" where
  "demo_env = \<lparr>se_map_order = (\<lambda>xs. xs),
     se_notify = \<lparr>ne_target = [], ne_host = [], ne_user = [], ne_password = []\<rparr>,
     se_home = ''/home/u'', se_homedir_Expand = (\<lambda>p. (p, [])), se_unmarshal = (\<lambda>p c. (None, c)),
     se_dmenu_path = ''dmenu'', se_dmenu_background = ''#000000'', se_dmenu_text = ''#ffffff'',
     se_http_client = (), se_telegram_IsZero = (\<lambda>t. tg_Token t = []), se_telegram_Validate = (\<lambda>t. [])\<rparr>"

theorem history_limits_forget_minimum_witness:
  "sh_MinLength (s_ShellHistory (snd (Configuration_Validate demo_env
     (join_files ''/home/u'' (\<lambda>p. Not_Exist) (history_file 8 3) [history_file 0 2])))) = 4"
  using history_limits_forget_minimum [of "history_file 8 3" "[history_file 0 2]" _ demo_env "''/home/u''"
      "\<lambda>p. Not_Exist", OF _ refl refl refl]
  by (simp add: history_file_def zero_Configuration_def)

end
