(* ===== verification/Sardis_Conf.thy ===== *)
theory Sardis_Conf
  imports Sysmgmt Srv Subexec_Conf
begin

text \<open>
  The configuration of the program, \<open>conf.go\<close> and \<open>context.go\<close>: reading a file and the files it
  links to, moving the deprecated sections to where they belong now, joining files, and the
  validation that puts the parts together. Decoding a file and the file system are parameters.
\<close>

section \<open>The configuration\<close>

text \<open>The workers that the parts define.\<close>

datatype sardis_worker = Repo_Task repo_worker | Service_Task SystemdService

definition lift_Command :: "('a \<Rightarrow> 'b) \<Rightarrow> 'a Command \<Rightarrow> 'b Command" where
  "lift_Command f c =
     \<lparr>cmd_Name = cmd_Name c, cmd_GroupName = cmd_GroupName c, cmd_GroupCategory = cmd_GroupCategory c,
      cmd_Directory = cmd_Directory c, cmd_Environment = cmd_Environment c, cmd_Command = cmd_Command c,
      cmd_Arg = cmd_Arg c, cmd_Commands = cmd_Commands c, cmd_OverrideDefault = cmd_OverrideDefault c,
      cmd_Notify = cmd_Notify c, cmd_Background = cmd_Background c, cmd_SortHint = cmd_SortHint c,
      cmd_Logs = cmd_Logs c, cmd_WorkerDefinition = map_option f (cmd_WorkerDefinition c),
      cmd_unaliasedName = cmd_unaliasedName c\<rparr>"

definition lift_Group :: "('a \<Rightarrow> 'b) \<Rightarrow> 'a Group \<Rightarrow> 'b Group" where
  "lift_Group f g =
     \<lparr>g_Category = g_Category g, g_Name = g_Name g, g_Aliases = g_Aliases g, g_Directory = g_Directory g,
      g_Environment = g_Environment g, g_CmdNamePrefix = g_CmdNamePrefix g, g_Command = g_Command g,
      g_Notify = g_Notify g, g_Background = g_Background g, g_Host = g_Host g,
      g_Commands = map (lift_Command f) (g_Commands g), g_MenuSelections = g_MenuSelections g,
      g_SortHint = g_SortHint g, g_Synthetic = g_Synthetic g\<rparr>"

record 'v Configuration =
  Settings :: "'v Srv.Configuration option"
  Repos :: Repo.Configuration
  Operations :: "sardis_worker Subexec_Conf.Configuration"
  System :: Sysmgmt.Configuration
  NetworkCOMPAT :: Network
  HostsCOMPAT :: "HostDefinition list"
  BlogCOMPAT :: "Project list"
  CommandsCOMPAT :: "sardis_worker Group list"
  RepoCOMPAT :: "GitRepository list"
  LinksCOMPAT :: "LinkDefinition list"
  operationsGenerated :: bool
  linkedFilesRead :: bool
  originalPath :: string

definition zero_Configuration :: "'v Configuration" where
  "zero_Configuration =
     \<lparr>Settings = None,
      Repos = \<lparr>GitRepos = [], Projects = [], TagGroups = [], lookupProcessed = False, cache_tags = [],
        cache_lookup = []\<rparr>,
      Operations = Subexec_Conf.empty_Configuration,
      System = \<lparr>y_GoPackages = [], y_Arch = \<lparr>BuildPath = [], Packages = [], cache = empty_cache\<rparr>,
        y_SystemD = [],
        y_Links = \<lparr>lc_Links = [], lc_ManagedLinkTrees = [], lc_Discovery = None\<rparr>, y_ServicesLEGACY = []\<rparr>,
      NetworkCOMPAT = [], HostsCOMPAT = [], BlogCOMPAT = [], CommandsCOMPAT = [], RepoCOMPAT = [],
      LinksCOMPAT = [], operationsGenerated = False, linkedFilesRead = False, originalPath = []\<rparr>"

text \<open>A file: the map of local configurations may be nil, and so may its entries.\<close>

record 'v ConfigurationFile =
  cf_Local :: "(string \<times> 'v Configuration option) list option"
  cf_Global :: "'v Configuration option"

section \<open>Migrate and Join\<close>

definition migrate_settings :: "'v Configuration \<Rightarrow> 'v Configuration" where
  "migrate_settings conf =
     (let conf = conf\<lparr>NetworkCOMPAT := NetworkCOMPAT conf @ NetworkCOMPAT conf\<rparr>;
          conf = (if Settings conf = None \<and> 0 < length (NetworkCOMPAT conf)
                  then conf\<lparr>Settings := Some Srv.zero_Configuration\<rparr> else conf)
      in case Settings conf of
           None \<Rightarrow> conf
         | Some s \<Rightarrow> conf
             \<lparr>Settings := Some (s\<lparr>s_Network := (s_Network s @ HostsCOMPAT conf) @ NetworkCOMPAT conf\<rparr>),
              HostsCOMPAT := [], NetworkCOMPAT := []\<rparr>)"

definition Migrate :: "'v Configuration \<Rightarrow> 'v Configuration" where
  "Migrate conf =
     (let conf = conf
            \<lparr>Repos := (Repos conf)
               \<lparr>Projects := Projects (Repos conf) @ map (\<lambda>b. b\<lparr>p_Type := ''blog''\<rparr>) (BlogCOMPAT conf),
                GitRepos := GitRepos (Repos conf) @ RepoCOMPAT conf\<rparr>,
             BlogCOMPAT := [],
             Operations := (Operations conf)
               \<lparr>c_Commands := c_Commands (Operations conf) @ CommandsCOMPAT conf\<rparr>,
             CommandsCOMPAT := [], RepoCOMPAT := [],
             System := (System conf)
               \<lparr>y_Links := (y_Links (System conf))
                  \<lparr>lc_Links := lc_Links (y_Links (System conf)) @ LinksCOMPAT conf\<rparr>\<rparr>,
             LinksCOMPAT := []\<rparr>;
          conf = migrate_settings conf
      in conf\<lparr>System := (System conf)
           \<lparr>y_SystemD := y_SystemD (System conf) @ y_ServicesLEGACY (System conf), y_ServicesLEGACY := []\<rparr>\<rparr>)"

text \<open>What joining and reading take from the host.\<close>

record 'v conf_env =
  ce_stat :: "string \<Rightarrow> stat_result"
  ce_home :: string
  ce_hostname :: string
  ce_unmarshal_file :: "string \<Rightarrow> go_error option \<times> 'v ConfigurationFile"
  ce_unmarshal_conf :: "string \<Rightarrow> go_error option \<times> 'v Configuration option"

text \<open>\<open>Settings.Join\<close> with a nil receiver returns when its argument is nil and panics otherwise.\<close>

definition Join :: "'v conf_env \<Rightarrow> 'v Configuration \<Rightarrow> 'v Configuration option \<Rightarrow> 'v Configuration outcome" where
  "Join env conf mcf =
     (case mcf of
        None \<Rightarrow> Return conf
      | Some mcf \<Rightarrow>
          let conf = conf\<lparr>NetworkCOMPAT := Network_Join (NetworkCOMPAT conf) (NetworkCOMPAT mcf)\<rparr>;
              rest = (\<lambda>settings. Return (conf
                \<lparr>Settings := settings,
                 System := Sysmgmt.Configuration_Join (System conf) (System mcf),
                 Repos := Repo.Configuration_Join (Repos conf) (Repos mcf),
                 Operations := Subexec_Conf.Configuration_Join (Operations conf) (Operations mcf)\<rparr>))
          in case Settings conf of
               None \<Rightarrow> (if Settings mcf = None then rest None else Panic nil_deref)
             | Some s \<Rightarrow> rest (Some (Srv.Configuration_Join (ce_home env) (ce_stat env) s (Settings mcf))))"

section \<open>Reading\<close>

definition mark_defined :: "'v Configuration \<Rightarrow> 'v Configuration" where
  "mark_defined out = out\<lparr>System := (System out)\<lparr>y_Links := (y_Links (System out))
     \<lparr>lc_Links := map (\<lambda>l. l\<lparr>l_Defined := True\<rparr>) (lc_Links (y_Links (System out)))\<rparr>\<rparr>\<rparr>"

text \<open>The cases of the code in its order. A local configuration for this host in a file without a
  global one meets none of them, which the code takes for impossible.\<close>

definition select_configuration ::
    "'v conf_env \<Rightarrow> string \<Rightarrow> 'v ConfigurationFile \<Rightarrow> (go_error + 'v Configuration) outcome" where
  "select_configuration env fn fnout =
     (case (cf_Local fnout, cf_Global fnout) of
        (None, Some g) \<Rightarrow> Return (Inr g)
      | (None, None) \<Rightarrow>
          (case ce_unmarshal_conf env fn of
             (Some err, out) \<Rightarrow> Return (Inl (Wrapf [err] ''problem unmarshaling config data: %w'' []))
           | (None, None) \<Rightarrow> Panic nil_deref
           | (None, Some out) \<Rightarrow> Return (Inr out))
      | (Some l, glob) \<Rightarrow>
          (case (map_of l (ce_hostname env), glob) of
             (Some (Some lc), Some g) \<Rightarrow>
               (case Join env g (Some (Migrate lc)) of
                  Panic e \<Rightarrow> Panic e | Return out \<Rightarrow> Return (Inr out))
           | (Some (Some lc), None) \<Rightarrow> Panic (Errf ''this should be impossible'' [])
           | (_, Some g) \<Rightarrow> Return (Inr g)
           | (_, None) \<Rightarrow> Return (Inl (Errf ''local configs defined but no base for %s'' [S fn]))))"

definition readConfiguration :: "'v conf_env \<Rightarrow> string \<Rightarrow> (go_error + 'v Configuration) outcome" where
  "readConfiguration env fn =
     (if is_not_exist (ce_stat env fn) then Return (Inl (Errf ''%s does not exist: %w'' [S fn]))
      else
        (case ce_unmarshal_file env fn of
           (Some err, fnout) \<Rightarrow> Return (Inl (Wrapf [err] ''file %s was not parsable: %w'' [S fn]))
         | (None, fnout) \<Rightarrow>
             (case select_configuration env fn fnout of
                Panic e \<Rightarrow> Panic e
              | Return (Inl err) \<Rightarrow> Return (Inl err)
              | Return (Inr out) \<Rightarrow> Return (Inr ((mark_defined out)\<lparr>originalPath := fn\<rparr>)))))"

fun link_loop :: "'v conf_env \<Rightarrow> string list \<Rightarrow> 'v Configuration \<Rightarrow> (errors \<times> 'v Configuration) outcome" where
  "link_loop env [] conf = Return ([], conf)"
| "link_loop env (fn # fns) conf =
     (let fn = TryExpandHomeDir (ce_home env) fn;
          push = (\<lambda>e. case link_loop env fns conf of
                    Panic p \<Rightarrow> Panic p | Return (ec, conf) \<Rightarrow> Return (e # ec, conf))
      in case readConfiguration env fn of
           Panic p \<Rightarrow> Panic p
         | Return (Inl err) \<Rightarrow> push (Wrapf [err] ''problem reading linked config file %q: %w'' [S fn])
         | Return (Inr iconf) \<Rightarrow>
             if Settings iconf \<noteq> None
             then push (Errf ''nested file %q specified system configuration'' [S fn])
             else
               (case Join env conf (Some (Migrate iconf)) of
                  Panic p \<Rightarrow> Panic p
                | Return conf \<Rightarrow> link_loop env fns conf))"

definition expandLinkedFiles :: "'v conf_env \<Rightarrow> 'v Configuration \<Rightarrow> (errors \<times> 'v Configuration) outcome" where
  "expandLinkedFiles env conf =
     (if linkedFilesRead conf then Return ([], conf)
      else
        let conf = Migrate conf
        in case Settings conf of
             None \<Rightarrow> Panic nil_deref
           | Some s \<Rightarrow>
               (case link_loop env (s_ConfigPaths s) conf of
                  Panic p \<Rightarrow> Panic p
                | Return (ec, conf) \<Rightarrow> Return (ec, conf\<lparr>linkedFilesRead := True\<rparr>)))"

section \<open>Validation\<close>

definition expandOperations :: "'v Configuration \<Rightarrow> (errors \<times> 'v Configuration) outcome" where
  "expandOperations conf =
     (if operationsGenerated conf
      then Return ([Errf ''cannot generate operations more than once'' []], conf)
      else
        (case SyntheticTaskGroups (Repos conf) of
           Panic p \<Rightarrow> Panic p
         | Return (synthetic, repos) \<Rightarrow>
             Return ([], conf
               \<lparr>Repos := repos,
                Operations := (Operations conf)\<lparr>c_Commands := c_Commands (Operations conf) @
                  map (lift_Group Repo_Task) (ConcreteTaskGroups (Repos conf)) @
                  map (lift_Group Repo_Task) synthetic @
                  map (lift_Group Service_Task) (TaskGroups (y_SystemD (System conf)))\<rparr>,
                operationsGenerated := True\<rparr>)))"

record ('v, 'w) validate_env =
  ve_conf :: "'v conf_env"
  ve_srv :: "'v srv_env"
  ve_sys :: "'w sys_env"
  ve_expand :: "string \<Rightarrow> string"
  ve_same_host :: "sardis_worker Group \<Rightarrow> sardis_worker Group \<Rightarrow> bool"
  ve_map_order :: "(string \<times> nat) list \<Rightarrow> (string \<times> nat) list"

definition doValidate ::
    "('v, 'w) validate_env \<Rightarrow> 'v Configuration \<Rightarrow> 'w \<Rightarrow> (errors \<times> 'v Configuration \<times> 'w) outcome" where
  "doValidate env conf w =
     (let conf = (if Settings conf = None then conf\<lparr>Settings := Some Srv.zero_Configuration\<rparr> else conf)
      in case expandLinkedFiles (ve_conf env) conf of
           Panic p \<Rightarrow> Panic p
         | Return (e1, conf) \<Rightarrow>
             (case expandOperations conf of
                Panic p \<Rightarrow> Panic p
              | Return (e2, conf) \<Rightarrow>
                  let (e3, settings) = Srv.Configuration_Validate (ve_srv env)
                         (deref_z Srv.zero_Configuration (Settings conf));
                      conf = conf\<lparr>Settings := Some settings\<rparr>
                  in case Sysmgmt.Configuration_Validate (ve_sys env) (System conf) w of
                       Panic p \<Rightarrow> Panic p
                     | Return (e4, sys, w) \<Rightarrow>
                         (case Repo.doValidate (ce_home (ve_conf env)) (Repos conf) of
                            Panic p \<Rightarrow> Panic p
                          | Return (e5, repos) \<Rightarrow>
                              let (e6, ops) = Subexec_Conf.Configuration_Validate (ve_expand env)
                                    (ce_home (ve_conf env)) (ve_same_host env) (ve_map_order env)
                                    (ce_hostname (ve_conf env)) (Operations conf)
                              in Return (e1 @ e2 @ e3 @ e4 @ e5 @ e6,
                                   conf\<lparr>System := sys, Repos := repos, Operations := ops\<rparr>, w))))"

definition LoadConfiguration ::
    "('v, 'w) validate_env \<Rightarrow> string \<Rightarrow> 'w \<Rightarrow> ((errors + 'v Configuration) \<times> 'w) outcome" where
  "LoadConfiguration env fn w =
     (case readConfiguration (ve_conf env) fn of
        Panic p \<Rightarrow> Panic p
      | Return (Inl err) \<Rightarrow> Return (Inl [err], w)
      | Return (Inr out) \<Rightarrow>
          (case doValidate env out w of
             Panic p \<Rightarrow> Panic p
           | Return (ec, out, w) \<Rightarrow> Return (if ec \<noteq> [] then Inl ec else Inr out, w)))"

section \<open>context.go\<close>

text \<open>What a context holds under the key: nothing, a value of another type, or a pointer to a
  configuration.\<close>

datatype 'c ctx_value = Absent | Foreign | Attached "'c option"

definition HasAppConfiguration :: "'c ctx_value \<Rightarrow> bool" where
  "HasAppConfiguration ctx \<longleftrightarrow> (case ctx of Attached p \<Rightarrow> True | _ \<Rightarrow> False)"

definition WithConfiguration :: "'c ctx_value \<Rightarrow> 'c option \<Rightarrow> 'c ctx_value" where
  "WithConfiguration ctx conf = (if HasAppConfiguration ctx then ctx else Attached conf)"

definition AppConfiguration :: "'c ctx_value \<Rightarrow> 'c option" where
  "AppConfiguration ctx = (case ctx of Attached (Some c) \<Rightarrow> Some c | _ \<Rightarrow> None)"

definition MustAppConfiguration :: "'c ctx_value \<Rightarrow> 'c outcome" where
  "MustAppConfiguration ctx =
     (case ctx of
        Absent \<Rightarrow> Panic (Errf ''sardis configuration is not attached to the context'' [])
      | Foreign \<Rightarrow> Panic (Errf ''value is a sardis app configuration type'' [])
      | Attached None \<Rightarrow> Panic (Errf ''cannot return a nil configuration'' [])
      | Attached (Some c) \<Rightarrow> Return c)"

section \<open>What becomes of the sections\<close>

lemma Migrate_parts [simp]:
  "GitRepos (Repos (Migrate conf)) = GitRepos (Repos conf) @ RepoCOMPAT conf"
  "Projects (Repos (Migrate conf)) =
     Projects (Repos conf) @ map (\<lambda>b. b\<lparr>p_Type := ''blog''\<rparr>) (BlogCOMPAT conf)"
  "c_Commands (Operations (Migrate conf)) = c_Commands (Operations conf) @ CommandsCOMPAT conf"
  "lc_Links (y_Links (System (Migrate conf))) = lc_Links (y_Links (System conf)) @ LinksCOMPAT conf"
  "y_SystemD (System (Migrate conf)) = y_SystemD (System conf) @ y_ServicesLEGACY (System conf)"
  "y_GoPackages (System (Migrate conf)) = y_GoPackages (System conf)"
  "y_Arch (System (Migrate conf)) = y_Arch (System conf)"
  "linkedFilesRead (Migrate conf) = linkedFilesRead conf"
  by (simp_all add: Migrate_def migrate_settings_def Let_def split: option.splits)

lemma Settings_Migrate:
  "Settings (Migrate conf) =
     (if Settings conf = None \<and> NetworkCOMPAT conf = [] then None
      else let s = deref_z Srv.zero_Configuration (Settings conf)
           in Some (s\<lparr>s_Network := s_Network s @ HostsCOMPAT conf @ NetworkCOMPAT conf @ NetworkCOMPAT conf\<rparr>))"
  by (cases "Settings conf") (auto simp: Migrate_def migrate_settings_def Let_def)

lemma Migrate_rest:
  "BlogCOMPAT (Migrate conf) = [] \<and> CommandsCOMPAT (Migrate conf) = [] \<and> RepoCOMPAT (Migrate conf) = [] \<and>
   LinksCOMPAT (Migrate conf) = [] \<and> y_ServicesLEGACY (System (Migrate conf)) = [] \<and>
   NetworkCOMPAT (Migrate conf) = []"
  "HostsCOMPAT (Migrate conf) = (if Settings (Migrate conf) = None then HostsCOMPAT conf else [])"
  by (auto simp: Migrate_def migrate_settings_def Let_def split: option.splits)

lemma Migrate_idempotent: "Migrate (Migrate conf) = Migrate conf"
proof -
  define m where "m = Migrate conf"
  note r = Migrate_rest[of conf, folded m_def]
  have h: "Settings m \<noteq> None \<longrightarrow> HostsCOMPAT m = []" using r(2) by simp
  let ?m = "m\<lparr>BlogCOMPAT := [], CommandsCOMPAT := [], RepoCOMPAT := [], LinksCOMPAT := []\<rparr>"
  have "migrate_settings m = m"
    using r(1) h by (cases "Settings m") (simp_all add: migrate_settings_def Let_def)
  moreover have "?m = m"
    using r(1) by (cases m) simp
  moreover have "m\<lparr>System := (System m)\<lparr>y_SystemD := y_SystemD (System m) @ y_ServicesLEGACY (System m),
      y_ServicesLEGACY := []\<rparr>\<rparr> = m"
    using r(1) by (cases m, cases "System m") simp
  moreover have "Migrate m = (migrate_settings ?m)\<lparr>System := (System (migrate_settings ?m))
      \<lparr>y_SystemD := y_SystemD (System (migrate_settings ?m)) @ y_ServicesLEGACY (System (migrate_settings ?m)),
       y_ServicesLEGACY := []\<rparr>\<rparr>"
    using r(1) by (simp add: Migrate_def Let_def)
  ultimately have "Migrate m = m" by metis
  then show ?thesis by (simp add: m_def)
qed

text \<open>C26: moving the deprecated sections. Each section is appended to the one that replaces it, in
  order, and emptied, and moving them twice is the same as once. The hosts go to the settings
  when there are settings or a network section (whose hosts are added twice); otherwise the
  separate hosts stay where they are.\<close>

theorem migrate_moves_sections:
  "GitRepos (Repos (Migrate conf)) = GitRepos (Repos conf) @ RepoCOMPAT conf \<and>
   map p_Name (Projects (Repos (Migrate conf))) =
     map p_Name (Projects (Repos conf)) @ map p_Name (BlogCOMPAT conf) \<and>
   c_Commands (Operations (Migrate conf)) = c_Commands (Operations conf) @ CommandsCOMPAT conf \<and>
   lc_Links (y_Links (System (Migrate conf))) = lc_Links (y_Links (System conf)) @ LinksCOMPAT conf \<and>
   y_SystemD (System (Migrate conf)) = y_SystemD (System conf) @ y_ServicesLEGACY (System conf) \<and>
   Migrate (Migrate conf) = Migrate conf \<and>
   (case Settings (Migrate conf) of
      None \<Rightarrow> Settings conf = None \<and> NetworkCOMPAT conf = [] \<and> HostsCOMPAT (Migrate conf) = HostsCOMPAT conf
    | Some s \<Rightarrow> HostsCOMPAT (Migrate conf) = [] \<and>
        s_Network s = s_Network (deref_z Srv.zero_Configuration (Settings conf)) @ HostsCOMPAT conf @
          NetworkCOMPAT conf @ NetworkCOMPAT conf)"
  by (simp add: Migrate_idempotent Settings_Migrate Migrate_rest(2) Let_def comp_def split: option.splits if_splits)

text \<open>The linked files that are read and accepted.\<close>

definition accepted :: "'v conf_env \<Rightarrow> string list \<Rightarrow> 'v Configuration list" where
  "accepted env fns = List.map_filter (\<lambda>fn. case readConfiguration env (TryExpandHomeDir (ce_home env) fn) of
     Return (Inr c) \<Rightarrow> (if Settings c = None then Some c else None) | _ \<Rightarrow> None) fns"

lemma accepted_simps [simp]:
  "accepted env [] = []"
  "accepted env (fn # fns) = (case readConfiguration env (TryExpandHomeDir (ce_home env) fn) of
     Return (Inr c) \<Rightarrow> (if Settings c = None then c # accepted env fns else accepted env fns)
   | _ \<Rightarrow> accepted env fns)"
  by (simp_all add: accepted_def List.map_filter_simps split: outcome.splits sum.splits)

lemma Join_settings:
  assumes "Settings conf = Some s"
  obtains conf' s' where "Join env conf (Some mcf) = Return conf'" and "Settings conf' = Some s'"
    and "s_Network s' = s_Network s"
    and "GitRepos (Repos conf') = GitRepos (Repos conf) @ GitRepos (Repos mcf)"
    and "Projects (Repos conf') = Projects (Repos conf)"
    and "c_Commands (Operations conf') = c_Commands (Operations conf) @ c_Commands (Operations mcf)"
    and "lc_Links (y_Links (System conf')) = lc_Links (y_Links (System conf)) @ lc_Links (y_Links (System mcf))"
    and "y_SystemD (System conf') = y_SystemD (System conf) @ y_SystemD (System mcf)"
    and "y_GoPackages (System conf') = y_GoPackages (System conf) @ y_GoPackages (System mcf)"
    and "Packages (y_Arch (System conf')) = Packages (y_Arch (System conf)) @ Packages (y_Arch (System mcf))"
  using assms that
  by (simp add: Join_def Let_def Repo.Configuration_Join_def Subexec_Conf.Configuration_Join_def
      Srv.Configuration_Join_def split: option.splits)

lemma link_loop_spec:
  assumes "Settings conf = Some s"
    and "\<forall>fn \<in> set fns. \<forall>p. readConfiguration env (TryExpandHomeDir (ce_home env) fn) \<noteq> Panic p"
  shows "\<exists>ec conf' s'. link_loop env fns conf = Return (ec, conf') \<and> Settings conf' = Some s' \<and>
    s_Network s' = s_Network s \<and> Projects (Repos conf') = Projects (Repos conf) \<and>
    GitRepos (Repos conf') = GitRepos (Repos conf) @ concat (map (\<lambda>m. GitRepos (Repos m) @ RepoCOMPAT m) (accepted env fns)) \<and>
    c_Commands (Operations conf') = c_Commands (Operations conf) @ concat (map (\<lambda>m. c_Commands (Operations m) @ CommandsCOMPAT m) (accepted env fns)) \<and>
    lc_Links (y_Links (System conf')) = lc_Links (y_Links (System conf)) @ concat (map (\<lambda>m. lc_Links (y_Links (System m)) @ LinksCOMPAT m) (accepted env fns)) \<and>
    y_SystemD (System conf') = y_SystemD (System conf) @ concat (map (\<lambda>m. y_SystemD (System m) @ y_ServicesLEGACY (System m)) (accepted env fns)) \<and>
    y_GoPackages (System conf') = y_GoPackages (System conf) @ concat (map (\<lambda>m. y_GoPackages (System m)) (accepted env fns)) \<and>
    Packages (y_Arch (System conf')) = Packages (y_Arch (System conf)) @ concat (map (\<lambda>m. Packages (y_Arch (System m))) (accepted env fns)) \<and>
    length ec + length (accepted env fns) = length fns"
  using assms
proof (induction fns arbitrary: conf s)
  case (Cons fn fns)
  let ?fn = "TryExpandHomeDir (ce_home env) fn"
  from Cons.prems(2) obtain r where r: "readConfiguration env ?fn = Return r"
    by (cases "readConfiguration env ?fn") auto
  have np: "\<forall>fn \<in> set fns. \<forall>p. readConfiguration env (TryExpandHomeDir (ce_home env) fn) \<noteq> Panic p"
    using Cons.prems(2) by simp
  show ?case
  proof (cases "\<exists>c. r = Inr c \<and> Settings c = None")
    case True
    then obtain c where c: "r = Inr c" "Settings c = None" by blast
    obtain conf1 s1 where j: "Join env conf (Some (Migrate c)) = Return conf1" "Settings conf1 = Some s1"
      "s_Network s1 = s_Network s"
      "GitRepos (Repos conf1) = GitRepos (Repos conf) @ GitRepos (Repos (Migrate c))"
      "Projects (Repos conf1) = Projects (Repos conf)"
      "c_Commands (Operations conf1) = c_Commands (Operations conf) @ c_Commands (Operations (Migrate c))"
      "lc_Links (y_Links (System conf1)) = lc_Links (y_Links (System conf)) @ lc_Links (y_Links (System (Migrate c)))"
      "y_SystemD (System conf1) = y_SystemD (System conf) @ y_SystemD (System (Migrate c))"
      "y_GoPackages (System conf1) = y_GoPackages (System conf) @ y_GoPackages (System (Migrate c))"
      "Packages (y_Arch (System conf1)) = Packages (y_Arch (System conf)) @ Packages (y_Arch (System (Migrate c)))"
      by (rule Join_settings[OF Cons.prems(1), of env "Migrate c"])
    from Cons.IH[OF j(2) np] j r c show ?thesis by auto
  next
    case False
    then have skip: "accepted env (fn # fns) = accepted env fns"
      using r by (auto split: sum.splits)
    from False r have "\<exists>e. link_loop env (fn # fns) conf =
        (case link_loop env fns conf of Panic p \<Rightarrow> Panic p | Return (ec, conf) \<Rightarrow> Return (e # ec, conf))"
      by (cases r) (auto simp: Let_def)
    with Cons.IH[OF Cons.prems(1) np] skip show ?thesis by auto
  qed
qed simp

text \<open>C19: reading the linked files of a configuration that has settings, once. When no file makes the
  reading panic, the files that can be read and have no settings of their own (\<open>good\<close>) are joined in
  order: their repositories, groups of commands, links, services and packages, each section
  followed by its deprecated form, follow those of the main file, and every file that is not joined
  leaves exactly one error. The hosts and the projects or blogs that a linked file defines are
  lost: the network is that of the main file, followed by its deprecated hosts and twice its
  deprecated network, and the projects are those of the main file followed by its blogs, which get the
  type for that.\<close>

theorem linked_files_are_joined:
  assumes "\<not> linkedFilesRead conf" and "Settings conf = Some s"
    and "\<forall>fn \<in> set (s_ConfigPaths s). \<forall>p. readConfiguration env (TryExpandHomeDir (ce_home env) fn) \<noteq> Panic p"
    and "good = accepted env (s_ConfigPaths s)"
  shows "\<exists>ec conf' s'. expandLinkedFiles env conf = Return (ec, conf') \<and> linkedFilesRead conf' \<and>
    Settings conf' = Some s' \<and>
    s_Network s' = s_Network s @ HostsCOMPAT conf @ NetworkCOMPAT conf @ NetworkCOMPAT conf \<and>
    Projects (Repos conf') = Projects (Repos conf) @ map (\<lambda>b. b\<lparr>p_Type := ''blog''\<rparr>) (BlogCOMPAT conf) \<and>
    GitRepos (Repos conf') =
      GitRepos (Repos conf) @ RepoCOMPAT conf @
      concat (map (\<lambda>m. GitRepos (Repos m) @ RepoCOMPAT m) good) \<and>
    c_Commands (Operations conf') =
      c_Commands (Operations conf) @ CommandsCOMPAT conf @
      concat (map (\<lambda>m. c_Commands (Operations m) @ CommandsCOMPAT m) good) \<and>
    lc_Links (y_Links (System conf')) =
      lc_Links (y_Links (System conf)) @ LinksCOMPAT conf @
      concat (map (\<lambda>m. lc_Links (y_Links (System m)) @ LinksCOMPAT m) good) \<and>
    y_SystemD (System conf') =
      y_SystemD (System conf) @ y_ServicesLEGACY (System conf) @
      concat (map (\<lambda>m. y_SystemD (System m) @ y_ServicesLEGACY (System m)) good) \<and>
    y_GoPackages (System conf') =
      y_GoPackages (System conf) @
      concat (map (\<lambda>m. y_GoPackages (System m)) good) \<and>
    Packages (y_Arch (System conf')) =
      Packages (y_Arch (System conf)) @
      concat (map (\<lambda>m. Packages (y_Arch (System m))) good) \<and>
    length ec + length good = length (s_ConfigPaths s)"
proof -
  let ?s = "s\<lparr>s_Network := s_Network s @ HostsCOMPAT conf @ NetworkCOMPAT conf @ NetworkCOMPAT conf\<rparr>"
  have m: "Settings (Migrate conf) = Some ?s" using assms(2) by (simp add: Settings_Migrate Let_def)
  have "s_ConfigPaths ?s = s_ConfigPaths s" by simp
  with link_loop_spec[OF m, of "s_ConfigPaths s" env] assms(3) obtain ec conf' s' where
    l: "link_loop env (s_ConfigPaths ?s) (Migrate conf) = Return (ec, conf')" "Settings conf' = Some s'"
    "s_Network s' = s_Network ?s" "Projects (Repos conf') = Projects (Repos (Migrate conf))"
    "GitRepos (Repos conf') = GitRepos (Repos (Migrate conf)) @
      concat (map (\<lambda>m. GitRepos (Repos m) @ RepoCOMPAT m) good)"
    "c_Commands (Operations conf') = c_Commands (Operations (Migrate conf)) @
      concat (map (\<lambda>m. c_Commands (Operations m) @ CommandsCOMPAT m) good)"
    "lc_Links (y_Links (System conf')) = lc_Links (y_Links (System (Migrate conf))) @
      concat (map (\<lambda>m. lc_Links (y_Links (System m)) @ LinksCOMPAT m) good)"
    "y_SystemD (System conf') = y_SystemD (System (Migrate conf)) @
      concat (map (\<lambda>m. y_SystemD (System m) @ y_ServicesLEGACY (System m)) good)"
    "y_GoPackages (System conf') = y_GoPackages (System (Migrate conf)) @
      concat (map (\<lambda>m. y_GoPackages (System m)) good)"
    "Packages (y_Arch (System conf')) = Packages (y_Arch (System (Migrate conf))) @
      concat (map (\<lambda>m. Packages (y_Arch (System m))) good)"
    "length ec + length good = length (s_ConfigPaths s)"
    unfolding assms(4) by auto
  have "expandLinkedFiles env conf = Return (ec, conf'\<lparr>linkedFilesRead := True\<rparr>)"
    using assms(1) m l(1) by (simp add: expandLinkedFiles_def)
  then show ?thesis using l(2-) by (intro exI[of _ ec] exI[of _ "conf'\<lparr>linkedFilesRead := True\<rparr>"] exI[of _ s'])
      simp
qed

text \<open>Of two linked files one does not exist; the other adds a link.\<close>

definition example_link :: LinkDefinition where
  "example_link = \<lparr>l_Name = ''vimrc'', l_Path = ''/home'', l_Target = ''/etc/vimrc'', l_Update = False,
     l_RequireSudo = False, l_Defined = True, l_PathExists = False, l_TargetExists = False\<rparr>"

definition example_env :: "unit conf_env" where
  "example_env = \<lparr>ce_stat = (\<lambda>p. if p = ''/a'' then Found False else Not_Exist), ce_home = ''/home'',
     ce_hostname = ''h'',
     ce_unmarshal_file = (\<lambda>p. (None, \<lparr>cf_Local = None,
       cf_Global = Some (zero_Configuration\<lparr>LinksCOMPAT := [example_link]\<rparr>)\<rparr>)),
     ce_unmarshal_conf = (\<lambda>p. (None, None))\<rparr>"

lemma example_reads:
  "readConfiguration example_env ''/a'' =
     Return (Inr (zero_Configuration\<lparr>LinksCOMPAT := [example_link], originalPath := ''/a''\<rparr>))"
  "readConfiguration example_env ''/b'' = Return (Inl (Errf ''%s does not exist: %w'' [S ''/b'']))"
  by (simp_all add: readConfiguration_def example_env_def is_not_exist_iff select_configuration_def
      mark_defined_def zero_Configuration_def)

lemma example_accepts:
  "accepted example_env [''/a'', ''/b''] =
     [zero_Configuration\<lparr>LinksCOMPAT := [example_link], originalPath := ''/a''\<rparr>]"
  "TryExpandHomeDir (ce_home example_env) ''/a'' = ''/a''"
  "TryExpandHomeDir (ce_home example_env) ''/b'' = ''/b''"
proof -
  show e: "TryExpandHomeDir (ce_home example_env) ''/a'' = ''/a''"
    "TryExpandHomeDir (ce_home example_env) ''/b'' = ''/b''" by code_simp+
  show "accepted example_env [''/a'', ''/b''] =
      [zero_Configuration\<lparr>LinksCOMPAT := [example_link], originalPath := ''/a''\<rparr>]"
    unfolding accepted_simps e example_reads by (simp add: zero_Configuration_def)
qed

theorem linked_files_are_joined_witness:
  "\<exists>ec conf'. expandLinkedFiles example_env
      (zero_Configuration\<lparr>Settings := Some (Srv.zero_Configuration\<lparr>s_ConfigPaths := [''/a'', ''/b'']\<rparr>)\<rparr>) =
        Return (ec, conf') \<and>
    lc_Links (y_Links (System conf')) = [example_link] \<and> length ec = 1"
proof -
  let ?s = "Srv.zero_Configuration\<lparr>s_ConfigPaths := [''/a'', ''/b'']\<rparr>"
  let ?c = "zero_Configuration\<lparr>Settings := Some ?s\<rparr>"
  have nl: "\<not> linkedFilesRead ?c" "Settings ?c = Some ?s" by (simp_all add: zero_Configuration_def)
  have np: "\<forall>fn \<in> set (s_ConfigPaths ?s). \<forall>p.
      readConfiguration example_env (TryExpandHomeDir (ce_home example_env) fn) \<noteq> Panic p"
    by (simp add: example_accepts(2,3) example_reads)
  have good: "[zero_Configuration\<lparr>LinksCOMPAT := [example_link], originalPath := ''/a''\<rparr>] =
      accepted example_env (s_ConfigPaths ?s)"
    by (simp add: example_accepts(1) del: accepted_simps)
  show ?thesis
    using linked_files_are_joined[OF nl np good] by (auto simp: zero_Configuration_def)
qed

text \<open>A file with a local configuration for this host and no global one makes the reading panic.\<close>

lemma local_only_panics:
  assumes "ce_stat env fn \<noteq> Not_Exist" and "ce_unmarshal_file env fn = (None, \<lparr>cf_Local = Some l, cf_Global = None\<rparr>)"
    and "map_of l (ce_hostname env) = Some (Some lc)"
  shows "readConfiguration env fn = Panic (Errf ''this should be impossible'' [])"
  using assms by (auto simp: readConfiguration_def select_configuration_def is_not_exist_iff)

end
