(* ===== verification/Exec_Menu.thy ===== *)
theory Exec_Menu
  imports Srv Jasper "HOL-Library.Product_Lexorder"
begin

text \<open>
  The \<open>exec\<close> command of \<open>operations/menu.go\<close>: the programs on the path and the lines of the shell
  histories that start one of them are filtered, ordered and offered in a menu, and the answer
  is run. Finding the programs, reading the histories and the menu are parameters.
\<close>

section \<open>Filters\<close>

definition HasCapitals :: "string \<Rightarrow> bool" where
  "HasCapitals str \<longleftrightarrow> contains_any str ''ABCDEFGHIJKLMNOPQRSTUVWXYZ''"

definition HasSeparator :: "string \<Rightarrow> bool" where
  "HasSeparator str \<longleftrightarrow> contains_any str ''_-=+.><>(){}[]''"

definition HasNumbers :: "string \<Rightarrow> bool" where
  "HasNumbers str \<longleftrightarrow> contains_any str ''1234567890''"

definition CmpBool :: "bool \<Rightarrow> bool \<Rightarrow> int" where
  "CmpBool a b = (if a = b then 0 else if a then - 1 else 1)"

fun HasPrefix :: "string list \<Rightarrow> string \<Rightarrow> bool" where
  "HasPrefix [] item \<longleftrightarrow> False"
| "HasPrefix (prefix # prefixes) item \<longleftrightarrow> (if has_prefix item prefix then True else HasPrefix prefixes item)"

fun HasSuffix :: "string list \<Rightarrow> string \<Rightarrow> bool" where
  "HasSuffix [] item \<longleftrightarrow> False"
| "HasSuffix (suffix # suffixes) item \<longleftrightarrow> (if has_suffix item suffix then True else HasSuffix suffixes item)"

fun HasSubstring :: "string list \<Rightarrow> string \<Rightarrow> bool" where
  "HasSubstring [] item \<longleftrightarrow> False"
| "HasSubstring (substr # substrings) item \<longleftrightarrow>
     (if str_contains item substr then True else HasSubstring substrings item)"

lemma Has_iff [simp]:
  "HasPrefix ps s \<longleftrightarrow> (\<exists>p \<in> set ps. has_prefix s p)"
  "HasSuffix ps s \<longleftrightarrow> (\<exists>p \<in> set ps. has_suffix s p)"
  "HasSubstring ps s \<longleftrightarrow> (\<exists>p \<in> set ps. str_contains s p)"
  by (induction ps) auto

section \<open>The candidates\<close>

text \<open>Which lines of a history are dropped: those whose first word is not a program.\<close>

definition drop_history :: "string list \<Rightarrow> string \<Rightarrow> bool" where
  "drop_history bins bin =
     (if \<not> str_contains bin '' '' \<and> bin \<in> set bins then False
      else
        let cmd = str_fields bin
        in if length cmd = 0 then True
           else if cmd ! 0 \<in> set bins then False
           else True)"

definition history ::
    "(string \<Rightarrow> errors + string) \<Rightarrow> (string \<Rightarrow> string list) \<Rightarrow> string list \<Rightarrow> string list \<Rightarrow> string list" where
  "history read_file read_lines bins paths =
     unique (filter (\<lambda>bin. \<not> drop_history bins bin)
       (concat (map (\<lambda>fn. read_lines (case read_file fn of Inl err \<Rightarrow> [] | Inr data \<Rightarrow> data)) paths)))"

definition drop_candidate :: "ShellHistory \<Rightarrow> string \<Rightarrow> bool" where
  "drop_candidate sh str =
     (let n = int (length str)
      in if n < sh_MinLength sh then True
         else if sh_MaxLength sh < n then True
         else if HasPrefix (sh_ExcludePrefixes sh) str then True
         else if contains_any str (''/;$()'' @ [CHR 0x27, CHR 0x5C, CHR 0x22] @ ''*|'') then True
         else if HasSubstring (sh_ExcludeSubstrings sh) str then True
         else False)"

text \<open>\<open>cmp.Or\<close>: the first comparison that tells the two apart.\<close>

definition cmp_or :: "int list \<Rightarrow> int" where
  "cmp_or cs = (case find (\<lambda>c. c \<noteq> 0) cs of None \<Rightarrow> 0 | Some c \<Rightarrow> c)"

definition exec_cmp :: "string \<Rightarrow> string \<Rightarrow> int" where
  "exec_cmp a b = cmp_or
     [CmpBool (HasNumbers a) (HasNumbers b),
      CmpBool (HasCapitals a) (HasCapitals b),
      CmpBool (HasSeparator a) (HasSeparator b),
      compare (length b) (length a),
      compare a b]"

definition exec_candidates :: "string list \<Rightarrow> string list \<Rightarrow> ShellHistory \<Rightarrow> string list" where
  "exec_candidates bins hist sh =
     sort_cmp exec_cmp
       (unique (filter (\<lambda>str. \<not> drop_candidate sh str) (map trim_space (bins @ hist))))"

datatype exec_action = Shell_Script string string | Run_Words string

record ('v, 'w) exec_env =
  xe_bins :: "string list"
  xe_read_file :: "string \<Rightarrow> errors + string"
  xe_read_lines :: "string \<Rightarrow> string list"
  xe_menu :: "string list \<Rightarrow> 'w \<Rightarrow> (errors + string) \<times> 'w"
  xe_run :: "exec_action \<Rightarrow> 'w \<Rightarrow> errors \<times> 'w"

text \<open>The errors of reading the histories are collected and not returned.\<close>

definition ExecCommand :: "('v, 'w) exec_env \<Rightarrow> 'v Srv.Configuration \<Rightarrow> 'w \<Rightarrow> errors \<times> 'w" where
  "ExecCommand env conf w =
     (let sh = s_ShellHistory conf; bins = xe_bins env;
          st = exec_candidates bins (history (xe_read_file env) (xe_read_lines env) bins (sh_Paths sh)) sh
      in case xe_menu env st w of
           (Inl err, w) \<Rightarrow> (err, w)
         | (Inr res, w) \<Rightarrow>
             if str_contains res '' '' then xe_run env (Shell_Script ''bash'' res) w
             else xe_run env (Run_Words res) w)"

section \<open>The order of the candidates\<close>

text \<open>The comparison is that of a key in the lexicographic order: strings with digits first, then
  with capitals, then with separators, the longer ones first, and the rest by their bytes.\<close>

definition exec_key :: "string \<Rightarrow> bool \<times> bool \<times> bool \<times> int \<times> string" where
  "exec_key s = (\<not> HasNumbers s, \<not> HasCapitals s, \<not> HasSeparator s, - int (length s), s)"

lemma exec_key_inj: "exec_key a = exec_key b \<longleftrightarrow> a = b"
  by (auto simp: exec_key_def)

lemma cmp_or_simps [simp]: "cmp_or [] = 0" "cmp_or (c # cs) = (if c = 0 then cmp_or cs else c)"
  by (simp_all add: cmp_or_def)

lemma CmpBool_compare: "CmpBool a b = compare (\<not> a) (\<not> b)"
  by (auto simp: CmpBool_def compare_def)

lemma compare_pair: "compare (a, x) (b, y) = (if compare a b = 0 then compare x y else compare a b)"
  by (auto simp: compare_def)

lemma exec_cmp_key: "exec_cmp a b = compare (exec_key a) (exec_key b)"
proof -
  have "compare (length b) (length a) = compare (- int (length a)) (- int (length b))"
    by (simp add: compare_def)
  then show ?thesis
    by (simp only: exec_cmp_def exec_key_def compare_pair CmpBool_compare cmp_or_simps) simp
qed

lemma exec_cmp_ok: "cmp_ok exec_cmp"
  by (auto simp: cmp_ok_def exec_cmp_key)

lemma set_unique [simp]: "set (unique xs) = set xs" and distinct_unique [simp]: "distinct (unique xs)"
  by (simp_all add: unique_def)

lemma sort_exec_sorted:
  "sorted (map exec_key (sort_cmp exec_cmp xs))"
  "distinct xs \<Longrightarrow> distinct (map exec_key (sort_cmp exec_cmp xs))"
proof -
  show "sorted (map exec_key (sort_cmp exec_cmp xs))"
    using sorted_sort_cmp[OF exec_cmp_ok, of xs] by (simp add: exec_cmp_key sorted_wrt_map)
  assume "distinct xs"
  then have "distinct (sort_cmp exec_cmp xs)"
    by (metis distinct_count_atmost_1 mset_sort_cmp set_sort_cmp)
  then show "distinct (map exec_key (sort_cmp exec_cmp xs))"
    by (simp add: distinct_map inj_on_def exec_key_inj)
qed

lemma sort_exec_unique:
  assumes "distinct xs" and "distinct ys" and "set xs = set ys"
  shows "sort_cmp exec_cmp xs = sort_cmp exec_cmp ys"
proof -
  have "map exec_key (sort_cmp exec_cmp xs) = map exec_key (sort_cmp exec_cmp ys)"
    by (rule sorted_distinct_set_unique) (simp_all add: sort_exec_sorted assms)
  then show ?thesis by (metis exec_key_inj inj_map_eq_map injI)
qed


definition demo_history :: ShellHistory where
  "demo_history = \<lparr>sh_MinLength = 2, sh_MaxLength = 16, sh_Paths = [], sh_ExcludePrefixes = [''sudo''],
     sh_ExcludeSubstrings = []\<rparr>"


end
