(* ===== verification/Operations.thy ===== *)
theory Operations
  imports Sardis_Conf Exec_Menu Repo_Jobs
begin

text \<open>
  The commands of \<open>operations/\<close> over the parts: loading the configuration (\<open>cmdr.go\<close>), repositories
  (\<open>repo.go\<close>), packages (\<open>arch.go\<close>), links and nightly maintenance (\<open>admin.go\<close>), the blog
  (\<open>blog.go\<close>), tickets, tweets and notes. A command that hands jobs to the worker pool is the list
  of jobs it hands over; the pool, an argument, says how many of them it took, and the collected
  errors.
\<close>

section \<open>Jobs\<close>

datatype op_job =
    Job_Update GitRepository | Job_Cleanup GitRepository | Job_Clone GitRepository
  | Job_Status GitRepository | Job_Fetch GitRepository
  | Job_Link LinkDefinition | Job_Service SystemdService
  | Job_Aur_Fetch string bool | Job_Abs_Build string | Job_Install
  | Job_Join op_job op_job

type_synonym 'w pool = "op_job list \<Rightarrow> 'w \<Rightarrow> nat \<times> errors \<times> 'w"

definition pool_run :: "'w pool \<Rightarrow> op_job list \<Rightarrow> 'w \<Rightarrow> errors \<times> 'w" where
  "pool_run pool jobs w = (case pool jobs w of (_, err, w) \<Rightarrow> (err, w))"

section \<open>cmdr.go\<close>

record global_flags =
  fl_conf :: string
  fl_level :: string
  fl_quietSyslog :: bool
  fl_quietStdOut :: bool
  fl_jsonLog :: bool
  fl_colorJsonLog :: bool
  fl_annotate :: bool

text \<open>The options of the command line and the environment are put over the settings that were read.\<close>

definition apply_flags ::
    "(string \<Rightarrow> int) \<Rightarrow> (string \<Rightarrow> string) \<Rightarrow> global_flags \<Rightarrow> 'v Srv.Configuration \<Rightarrow> 'v Srv.Configuration" where
  "apply_flags level_from getenv fl s =
     s\<lparr>s_Logging := (s_Logging s)
         \<lparr>Priority := level_from (fl_level fl),
          DisableSyslog := Some (fl_quietSyslog fl \<or> getenv ''SARDIS_LOG_QUIET_SYSLOG'' \<noteq> []),
          DisableStandardOutput := Some (fl_quietStdOut fl \<or> getenv ''SARDIS_LOG_QUIET_STDOUT'' \<noteq> []),
          EnableJSONFormating := Some (fl_jsonLog fl \<or> getenv ''SARDIS_LOG_FORMAT_JSON'' \<noteq> []),
          EnableJSONColorFormatting := Some (fl_colorJsonLog fl \<or> getenv ''SARDIS_LOG_COLOR_JSON'' \<noteq> [])\<rparr>,
       s_WithAnnotations := fl_annotate fl \<or> getenv ''SARDIS_ANNOTATE_OUTPUT'' \<noteq> [] \<or> s_AnnotationSeparator s \<noteq> [],
       s_AnnotationSeparator := Default [] (s_AnnotationSeparator s) [CHR 0x09]\<rparr>"

definition op_LoadConfiguration ::
    "('v, 'w) validate_env \<Rightarrow> (string \<Rightarrow> int) \<Rightarrow> (string \<Rightarrow> string) \<Rightarrow> global_flags \<Rightarrow> 'w \<Rightarrow>
     ((errors + 'v Sardis_Conf.Configuration) \<times> 'w) outcome" where
  "op_LoadConfiguration env level_from getenv fl w =
     (case LoadConfiguration env (fl_conf fl) w of
        Panic p \<Rightarrow> Panic p
      | Return (Inl err, w) \<Rightarrow> Return (Inl err, w)
      | Return (Inr conf, w) \<Rightarrow>
          (case Settings conf of
             None \<Rightarrow> Panic nil_deref
           | Some s \<Rightarrow> Return (Inr (conf\<lparr>Settings := Some (apply_flags level_from getenv fl s)\<rparr>), w)))"

definition ResolveConfiguration ::
    "('v, 'w) validate_env \<Rightarrow> (string \<Rightarrow> int) \<Rightarrow> (string \<Rightarrow> string) \<Rightarrow> 'v Sardis_Conf.Configuration ctx_value \<Rightarrow>
     global_flags \<Rightarrow> 'w \<Rightarrow> ((errors + 'v Sardis_Conf.Configuration option) \<times> 'w) outcome" where
  "ResolveConfiguration env level_from getenv ctx fl w =
     (if HasAppConfiguration ctx then Return (Inr (AppConfiguration ctx), w)
      else
        (case op_LoadConfiguration env level_from getenv fl w of
           Panic p \<Rightarrow> Panic p
         | Return (Inl err, w) \<Rightarrow> Return (Inl err, w)
         | Return (Inr conf, w) \<Rightarrow> Return (Inr (Some conf), w)))"

text \<open>What \<open>addOpCommand\<close> gives to its action: the configuration, resolved first, and the argument.\<close>

record ('c, 'a) withConf =
  wc_conf :: 'c
  wc_arg :: 'a

definition withConfBuilderSpec ::
    "('w \<Rightarrow> ((errors + 'c) \<times> 'w) outcome) \<Rightarrow> (errors + 'a) outcome \<Rightarrow> 'w \<Rightarrow>
     ((errors + ('c, 'a) withConf) \<times> 'w) outcome" where
  "withConfBuilderSpec resolve embedded w =
     (case resolve w of
        Panic p \<Rightarrow> Panic p
      | Return (Inl err, w) \<Rightarrow> Return (Inl err, w)
      | Return (Inr c, w) \<Rightarrow>
          (case embedded of
             Panic p \<Rightarrow> Panic p
           | Return (Inl err) \<Rightarrow> Return (Inl err, w)
           | Return (Inr arg) \<Rightarrow> Return (Inr \<lparr>wc_conf = c, wc_arg = arg\<rparr>, w)))"

section \<open>repo.go\<close>

text \<open>Run the jobs and complain when the pool has taken none.\<close>

definition run_counted :: "'w pool \<Rightarrow> string list \<Rightarrow> op_job list \<Rightarrow> 'w \<Rightarrow> errors \<times> 'w" where
  "run_counted pool args jobs w =
     (case pool jobs w of (ct, err, w) \<Rightarrow>
        if ct = 0 then ([Errf ''no repositories for %s'' [L args]], w)
        else if err \<noteq> [] then (err, w)
        else ([], w))"

definition repoUpdate :: "'w pool \<Rightarrow> set_add \<Rightarrow> Repo.Configuration \<Rightarrow> string list \<Rightarrow> 'w \<Rightarrow> errors \<times> 'w" where
  "repoUpdate pool set_add conf args w = run_counted pool args (map Job_Update (Repo.FindAll set_add conf args)) w"

definition repoCleanup :: "'w pool \<Rightarrow> set_add \<Rightarrow> Repo.Configuration \<Rightarrow> string list \<Rightarrow> 'w \<Rightarrow> errors \<times> 'w" where
  "repoCleanup pool set_add conf args w = run_counted pool args (map Job_Cleanup (Repo.FindAll set_add conf args)) w"

definition repoStatus :: "'w pool \<Rightarrow> set_add \<Rightarrow> Repo.Configuration \<Rightarrow> string list \<Rightarrow> 'w \<Rightarrow> errors \<times> 'w" where
  "repoStatus pool set_add conf args w = run_counted pool args (map Job_Status (Repo.FindAll set_add conf args)) w"

definition repoFetch :: "'w pool \<Rightarrow> set_add \<Rightarrow> Repo.Configuration \<Rightarrow> string list \<Rightarrow> 'w \<Rightarrow> errors \<times> 'w" where
  "repoFetch pool set_add conf args w =
     run_counted pool args (map Job_Fetch (filter r_Fetch (Repo.FindAll set_add conf args))) w"

definition repoClone ::
    "'w pool \<Rightarrow> (string \<Rightarrow> stat_result) \<Rightarrow> set_add \<Rightarrow> Repo.Configuration \<Rightarrow> string list \<Rightarrow> 'w \<Rightarrow> errors \<times> 'w" where
  "repoClone pool stat set_add conf args w =
     pool_run pool (map Job_Clone (filter (\<lambda>rc. is_not_exist (stat (r_Path rc))) (Repo.FindAll set_add conf args))) w"

text \<open>Name, path, whether it is there, whether it is enabled, and the tags. The sort, which need not
  be stable, is an argument.\<close>

definition repoList ::
    "((GitRepository \<Rightarrow> GitRepository \<Rightarrow> bool) \<Rightarrow> GitRepository list \<Rightarrow> GitRepository list) \<Rightarrow>
     (string \<Rightarrow> stat_result) \<Rightarrow> string \<Rightarrow> set_add \<Rightarrow> Repo.Configuration \<Rightarrow> string list \<Rightarrow>
     (string \<times> string \<times> bool \<times> bool \<times> string) list" where
  "repoList sort_slice stat homedir set_add conf args =
     (let repos = (if length args = 0 then GitRepos conf else Repo.FindAll set_add conf args)
      in map (\<lambda>rp. (r_Name rp, replace_first (r_Path rp) homedir ''~'', FileExists stat (r_Path rp),
                    \<not> r_Disabled rp, join_with '', '' (sort (r_Tags rp))))
           (sort_slice (\<lambda>a b. r_Name a < r_Name b) repos))"

fun fallbackTo :: "'a \<Rightarrow> 'a \<Rightarrow> 'a list \<Rightarrow> 'a" where
  "fallbackTo zero first args =
     (if first \<noteq> zero then first
      else case find (\<lambda>arg. arg \<noteq> zero) args of Some arg \<Rightarrow> arg | None \<Rightarrow> zero)"

definition repoGithubClone :: "'w run \<Rightarrow> string \<Rightarrow> string \<Rightarrow> string \<Rightarrow> string list \<Rightarrow> 'w \<Rightarrow> errors \<times> 'w" where
  "repoGithubClone run account_flag repo_flag path_flag cli_args w =
     (let args = cli_args @ [[], []];
          account = fallbackTo [] account_flag args;
          repo = fallbackTo [] repo_flag (drop 1 args);
          repoPath = ''git@github.com:'' @ account @ ''/'' @ repo @ ''.git''
      in run (CreateCommand\<lparr>jc_dir := path_flag, jc_args := [[''git'', ''clone'', repoPath]]\<rparr>) w)"

section \<open>arch.go\<close>

definition fetchAur :: "string list \<Rightarrow> op_job list" where
  "fetchAur args = map (\<lambda>name. Job_Aur_Fetch name True) args"

definition buildPkg :: "string list \<Rightarrow> op_job list" where
  "buildPkg args = map Job_Abs_Build args"

definition installAur :: "string list \<Rightarrow> op_job list" where
  "installAur args = map (\<lambda>name. Job_Join (Job_Aur_Fetch name True) (Job_Abs_Build name)) args"

definition setupArchLinux :: "ArchLinux \<Rightarrow> op_job list" where
  "setupArchLinux arch =
     Job_Install #
     List.map_filter (\<lambda>pkg. if InDistRepos (ap_State pkg) then None
       else Some (Job_Join (Job_Aur_Fetch (ap_Name pkg) (ap_ShouldUpdate pkg)) (Job_Abs_Build (ap_Name pkg))))
       (ArchLinux.Packages arch)"

text \<open>Where the packages are dumped to: standard output, or a file that is created.\<close>

definition dump_target :: "(string \<Rightarrow> stat_result) \<Rightarrow> (string \<Rightarrow> errors) \<Rightarrow> string \<Rightarrow> errors + string" where
  "dump_target stat os_create path =
     (if path = [] then Inr ''<stdout>''
      else if \<not> FileExists stat (path_dir path)
      then Inl [Errf ''cannot write file %q, create parent directory'' [S path]]
      else if \<not> HasSuffix [''json'', ''yaml'', ''bson'', ''yml'', ''jsonl''] path
      then Inl [Errf ''unknown serialization format for %s'' [S (path_ext path)]]
      else case os_create path of [] \<Rightarrow> Inr path | err \<Rightarrow> Inl err)"

definition dumpArchPackages ::
    "(string \<Rightarrow> stat_result) \<Rightarrow> (string \<Rightarrow> errors) \<Rightarrow> (ArchLinux \<Rightarrow> errors \<times> ArchLinux) \<Rightarrow> string \<Rightarrow>
     (encoder \<Rightarrow> ArchPackageIndex \<Rightarrow> 'd \<times> go_error option) \<Rightarrow>
     (string \<Rightarrow> 'd \<Rightarrow> 'w \<Rightarrow> go_error option \<times> 'w) \<Rightarrow> (string \<Rightarrow> errors) \<Rightarrow> string \<Rightarrow> ArchLinux \<Rightarrow> 'w \<Rightarrow>
     (errors \<times> 'w) outcome" where
  "dumpArchPackages stat os_create discovery hostname encode write os_close path0 conf w =
     (case dump_target stat os_create path0 of
        Inl err \<Rightarrow> Return (err, w)
      | Inr path \<Rightarrow>
          let closed = (\<lambda>err. if path0 = [] then err else err @ os_close path)
          in (case discovery conf of (err, conf) \<Rightarrow>
             if err \<noteq> [] then Return (closed err, w)
             else
               (case Export hostname conf of
                  Panic p \<Rightarrow> Panic p
                | Return (data, conf) \<Rightarrow>
                    (case Write_Into encode (write path) (MarshalerForFile path) ((index_Sort data)\<lparr>DEP := []\<rparr>) w of
                       Panic p \<Rightarrow> Panic p
                     | Return (err, w) \<Rightarrow> Return (closed (case err of None \<Rightarrow> [] | Some e \<Rightarrow> [e]), w)))))"

section \<open>admin.go\<close>

definition linkOp :: "'w pool \<Rightarrow> Sysmgmt.Configuration \<Rightarrow> 'w \<Rightarrow> errors \<times> 'w" where
  "linkOp pool conf w = pool_run pool (map Job_Link (lc_Links (y_Links conf))) w"

definition nightly_jobs :: "'v Sardis_Conf.Configuration \<Rightarrow> op_job list" where
  "nightly_jobs conf =
     map Job_Link (lc_Links (y_Links (System conf))) @ map Job_Cleanup (GitRepos (Repos conf)) @
     map Job_Service (y_SystemD (System conf))"

definition nightly :: "'w pool \<Rightarrow> 'v Sardis_Conf.Configuration \<Rightarrow> 'w \<Rightarrow> errors \<times> 'w" where
  "nightly pool conf w = pool_run pool (nightly_jobs conf) w"

definition renderBool :: "bool \<Rightarrow> string" where
  "renderBool b = (if b then ''t'' else ''f'')"

text \<open>What the discovery of links prints, in each format. The table is sorted with a comparison
  made of \<open>LessThan\<close>, by a sort that is an argument.\<close>

datatype disco_format = Disco_JSON | Disco_Line | Disco_YAML | Disco_Table

definition disco_format :: "string \<Rightarrow> disco_format" where
  "disco_format f =
     (if f \<in> set [''JSON'', ''json'', ''js'', ''j''] then Disco_JSON
      else if f \<in> set [''line'', ''ln''] then Disco_Line
      else if f \<in> set [''YAML'', ''yaml'', ''yml'', ''y'', ''export''] then Disco_YAML
      else Disco_Table)"

definition disco_cmp :: "LinkDefinition \<Rightarrow> LinkDefinition \<Rightarrow> int" where
  "disco_cmp a b = (if LessThan a b then - 1 else if LessThan b a then 1 else 0)"

datatype disco_row = Disco_Row LinkDefinition bool | Disco_Text string | Disco_Cells "string list"

definition discover ::
    "((LinkDefinition \<Rightarrow> LinkDefinition \<Rightarrow> int) \<Rightarrow> LinkDefinition list \<Rightarrow> LinkDefinition list) \<Rightarrow>
     ((tree_entry \<Rightarrow> found) \<Rightarrow> string \<Rightarrow> LinkDefinition list) \<Rightarrow> (string \<Rightarrow> stat_result) \<Rightarrow>
     (string \<Rightarrow> readlink_result) \<Rightarrow> (string \<Rightarrow> go_error + string) \<Rightarrow> string \<Rightarrow> Sysmgmt.Configuration \<Rightarrow> string list \<Rightarrow>
     (errors + disco_row list) outcome" where
  "discover sort_func fs_walk stat readlink filepath_Abs homedir conf args =
     (case lc_Discovery (y_Links conf) of
        None \<Rightarrow> Return (Inl [Errf ''discovery config not defined'' []])
      | Some disco \<Rightarrow>
          let lookup = LinkConfiguration_Resolve (y_Links conf);
              defined = (\<lambda>d. map_of lookup (l_Path d) \<noteq> None);
              find_links = FindLinks fs_walk stat readlink filepath_Abs
          in if args = [] then Panic index_out_of_range
             else Return (Inr (case disco_format (args ! 0) of
               Disco_JSON \<Rightarrow> map (\<lambda>d. Disco_Row d (defined d)) (find_links disco)
             | Disco_Line \<Rightarrow> map (\<lambda>d. Disco_Text (l_Path d @ '' -> '' @ l_Target d)) (find_links disco)
             | Disco_YAML \<Rightarrow> map (\<lambda>d. Disco_Row (d\<lparr>l_Defined := defined d\<rparr>) (defined d)) (find_links disco)
             | Disco_Table \<Rightarrow> Disco_Cells [''Path'', ''Target'', ''Exists'', ''Defined''] #
                 map (\<lambda>d. Disco_Cells [TryCollapseHomeDir homedir (l_Path d), TryCollapseHomeDir homedir (l_Target d),
                                       renderBool (l_TargetExists d), renderBool (defined d)])
                   (sort_func disco_cmp (find_links disco)))))"

text \<open>The checks that print a part of the configuration, and the table of groups and commands: the first
  command of a group stands beside its name, and an empty line follows each group.\<close>

definition configCheck :: "('x \<Rightarrow> errors) \<Rightarrow> errors \<Rightarrow> 'x \<Rightarrow> errors" where
  "configCheck encode flush part = encode part @ flush"

definition hacking_rows :: "'k Group list \<Rightarrow> (string \<times> string list) outcome list" where
  "hacking_rows groups =
     concat (map (\<lambda>cg.
       map (\<lambda>i. (case NamesAtIndex cg (int i) of
                   Panic p \<Rightarrow> Panic p
                 | Return names \<Rightarrow> Return (if i = 0 then g_Name cg else [], names)))
         [0..<length (g_Commands cg)] @ [Return ([], [])]) groups)"

lemma hacking_rows_return: "Panic p \<notin> set (hacking_rows groups)"
  by (auto simp: hacking_rows_def NamesAtIndex_def)

text \<open>The code of the clipboard: what the program wrote is printed.\<close>

definition qrCode :: "(jcommand \<Rightarrow> 'w \<Rightarrow> errors \<times> string \<times> 'w) \<Rightarrow> (string \<Rightarrow> 'w \<Rightarrow> 'w) \<Rightarrow> 'w \<Rightarrow> errors \<times> 'w" where
  "qrCode run print w =
     (case run (CreateCommand\<lparr>jc_args := [[''xsel'', ''--clipboard'', ''--output'']]\<rparr>) w of
        (err, buf, w) \<Rightarrow>
          if err \<noteq> [] then ([Wrapf err ''problem getting clipboard: %w'' []], w) else ([], print buf w))"

definition op_Set :: "'a list \<Rightarrow> 'a set" where "op_Set xs = set xs"

fun containsAny :: "'a list \<Rightarrow> 'a list \<Rightarrow> bool" where
  "containsAny [] vals \<longleftrightarrow> False"
| "containsAny (v # vs) vals \<longleftrightarrow> (if v \<in> set vals then True else containsAny vs vals)"

section \<open>blog.go\<close>

definition deploy_cmd :: "Project \<Rightarrow> GitRepository \<Rightarrow> jcommand" where
  "deploy_cmd blog repo = CreateCommand
     \<lparr>jc_args := map line_args (p_DeployCommands blog), jc_dir := r_Path repo,
      jc_env := [(''SARDIS_LOG_QUIET_STDOUT'', ''true'')]\<rparr>"

text \<open>The job that synchronises the repository, whose error is annotated, and then, by the library's
  \<open>Join\<close> when there was none, the commands that deploy, built before the job runs.\<close>

definition deploy_blog :: "'w ops \<Rightarrow> string \<Rightarrow> Project \<Rightarrow> GitRepository \<Rightarrow> 'w \<Rightarrow> (errors \<times> 'w) outcome option" where
  "deploy_blog ops name blog repo w =
     (case SyncRemoteJob ops (op_hostname ops) repo w of
        Out_Of_Fuel \<Rightarrow> None
      | Panicked p _ w \<Rightarrow> Some (Panic p)
      | Done err _ w \<Rightarrow>
          let (err, w) = (if err \<noteq> [] then (wrap_errs err ''problem syncing blog %q repo'' [S name], w)
                          else op_run ops (deploy_cmd blog repo) w)
          in Some (Return (if err \<noteq> [] then [Wrapf err ''problem deploying the blog %q: %w'' [S name]] else [], w)))"

definition blogPublish ::
    "'w ops \<Rightarrow> 'v Sardis_Conf.Configuration option \<Rightarrow> string \<Rightarrow> 'w \<Rightarrow> (errors \<times> 'w) outcome option" where
  "blogPublish ops conf name w =
     (case conf of
        None \<Rightarrow> Some (Return ([Errf ''no blog configured'' []], w))
      | Some conf \<Rightarrow>
          if length (BlogCOMPAT conf) = 0 then Some (Return ([Errf ''no blog configured'' []], w))
          else
            (case ProjectsByName (Repos conf) name of
               None \<Rightarrow> Some (Return ([Errf ''blog %q is not defined'' [S name]], w))
             | Some blog \<Rightarrow>
                 (case FindOne 2 (Repos conf) (p_RepoName blog) of
                    None \<Rightarrow> None
                  | Some (Inl err) \<Rightarrow> Some (Return ([err], w))
                  | Some (Inr repo) \<Rightarrow>
                      if \<not> p_Enabled blog then Some (Return ([], w))
                      else deploy_blog ops name blog repo w)))"

section \<open>Tickets, tweets and notes\<close>

text \<open>A ticket is loggable or not; logging stops when the context is done, which is asked before
  each ticket.\<close>

fun log_tickets :: "(nat \<Rightarrow> bool) \<Rightarrow> nat \<Rightarrow> 't list \<Rightarrow> 't list" where
  "log_tickets cancelled idx [] = []"
| "log_tickets cancelled idx (t # ts) = (if cancelled idx then [] else t # log_tickets cancelled (idx + 1) ts)"

definition bulkCreateTickets ::
    "(string \<Rightarrow> stat_result) \<Rightarrow> string \<Rightarrow> (string \<Rightarrow> errors + 't list) \<Rightarrow> ('t \<Rightarrow> bool) \<Rightarrow> (nat \<Rightarrow> bool) \<Rightarrow>
     'v Srv.Configuration \<Rightarrow> string \<Rightarrow> errors \<times> 't list" where
  "bulkCreateTickets stat cwd unmarshal_file loggable cancelled conf arg =
     (let path = (if arg = [] then cwd else arg)
      in if \<not> FileExists stat path then ([Errf ''ticket spec file file %s does not exist'' [S path]], [])
         else if jira_URL (s_Credentials conf) = []
         then ([Errf ''cannot create jira tickets without jira url'' []], [])
         else case unmarshal_file path of
                Inl err \<Rightarrow> (err, [])
              | Inr tickets \<Rightarrow>
                  let ec = concat (map (\<lambda>(idx, t). when_err (\<not> loggable t)
                         (Errf (''invalid/unlogable message at index %d, '%s'' @ [CHR 0x27]) [I (int idx)]))
                         (zip [0..<length tickets] tickets))
                  in if ec \<noteq> [] then (ec, []) else ([], log_tickets cancelled 0 tickets))"

text \<open>The credentials are those of the configuration of the context, which this command, unlike the
  others, does not attach.\<close>

definition Tweet ::
    "(Credentials \<Rightarrow> string \<Rightarrow> 'w \<Rightarrow> 'w) \<Rightarrow> 'v Sardis_Conf.Configuration ctx_value \<Rightarrow> string \<Rightarrow> 'w \<Rightarrow>
     (errors \<times> 'w) outcome" where
  "Tweet send ctx msg w =
     (if 280 < length msg then Return ([Errf ''message is too long [%d]'' [I (int (length msg))]], w)
      else
        (case AppConfiguration ctx of
           None \<Rightarrow> Panic nil_deref
         | Some conf \<Rightarrow>
             (case Settings conf of
                None \<Rightarrow> Panic nil_deref
              | Some s \<Rightarrow> Return ([], send (s_Credentials s) msg w))))"

definition notifySend :: "(string \<Rightarrow> 'w \<Rightarrow> 'w) \<Rightarrow> string list \<Rightarrow> 'w \<Rightarrow> errors \<times> 'w" where
  "notifySend send args w = ([], send (join_with '' '' args) w)"

definition notifyDesktop :: "(string \<Rightarrow> 'w \<Rightarrow> 'w) \<Rightarrow> string list \<Rightarrow> 'w \<Rightarrow> errors \<times> 'w" where
  "notifyDesktop send args w = ([], send (join_with '' '' args) w)"

definition notifyPipe :: "(string \<Rightarrow> 'w \<Rightarrow> 'w) \<Rightarrow> string list \<Rightarrow> 'w \<Rightarrow> errors \<times> 'w" where
  "notifyPipe send lines w = ([], fold send lines w)"

section \<open>No blog is ever published\<close>

text \<open>A decoder leaves the unexported fields of what it decodes at their zero values.\<close>

definition decoded :: "'v Sardis_Conf.Configuration \<Rightarrow> bool" where
  "decoded c \<longleftrightarrow> \<not> linkedFilesRead c \<and> \<not> operationsGenerated c \<and> \<not> lookupProcessed (Repos c)"

lemma Join_keeps:
  "Join env c m = Return c' \<Longrightarrow> BlogCOMPAT c' = BlogCOMPAT c \<and> linkedFilesRead c' = linkedFilesRead c"
  by (auto simp: Join_def Let_def split: option.splits if_splits)

lemma Join_decoded: "Join env c m = Return c' \<Longrightarrow> decoded c' = decoded c"
  by (auto simp: decoded_def Join_def Let_def Repo.Configuration_Join_def split: option.splits if_splits)

lemma link_loop_keeps:
  "link_loop env fns c = Return (ec, c') \<Longrightarrow> BlogCOMPAT c' = BlogCOMPAT c"
proof (induction fns arbitrary: c ec)
  case (Cons fn fns)
  then show ?case
    by (auto simp: Let_def split: outcome.splits sum.splits if_splits prod.splits dest!: Join_keeps)
qed simp

lemma expandLinkedFiles_empties:
  assumes "expandLinkedFiles env c = Return (ec, c')" "\<not> linkedFilesRead c"
  shows "BlogCOMPAT c' = []"
  using assms Migrate_rest(1)[of c]
  by (auto simp: expandLinkedFiles_def Let_def split: option.splits outcome.splits dest!: link_loop_keeps)

lemma expandOperations_keeps:
  "expandOperations c = Return (ec, c') \<Longrightarrow> BlogCOMPAT c' = BlogCOMPAT c"
  by (auto simp: expandOperations_def split: outcome.splits if_splits prod.splits)

lemma doValidate_empties:
  assumes "doValidate env c w = Return (ec, c', w')" "\<not> linkedFilesRead c"
  shows "BlogCOMPAT c' = []"
proof -
  define c0 where "c0 = (if Settings c = None then c\<lparr>Settings := Some Srv.zero_Configuration\<rparr> else c)"
  have l: "\<not> linkedFilesRead c0" using assms(2) by (simp add: c0_def)
  obtain e1 c1 where 1: "expandLinkedFiles (ve_conf env) c0 = Return (e1, c1)"
    using assms(1) by (auto simp: doValidate_def c0_def[symmetric] Let_def split: outcome.splits)
  obtain e2 c2 where 2: "expandOperations c1 = Return (e2, c2)"
    using assms(1) by (auto simp: doValidate_def c0_def[symmetric] Let_def 1 split: outcome.splits)
  have "BlogCOMPAT c2 = []"
    using expandLinkedFiles_empties[OF 1 l] expandOperations_keeps[OF 2] by simp
  then show ?thesis
    using assms(1)
    by (auto simp: doValidate_def c0_def[symmetric] Let_def 1 2 split: outcome.splits prod.splits)
qed

definition decoded_file :: "'v ConfigurationFile \<Rightarrow> bool" where
  "decoded_file f \<longleftrightarrow> (case cf_Global f of None \<Rightarrow> True | Some g \<Rightarrow> decoded g)"

definition decoder_env :: "'v conf_env \<Rightarrow> bool" where
  "decoder_env env \<longleftrightarrow>
     (\<forall>fn. decoded_file (snd (ce_unmarshal_file env fn)) \<and>
        (case snd (ce_unmarshal_conf env fn) of None \<Rightarrow> True | Some c \<Rightarrow> decoded c))"

lemma select_configuration_decoded:
  assumes "decoder_env env" "decoded_file f" "select_configuration env fn f = Return (Inr out)"
  shows "decoded out"
proof -
  have u: "decoded c" if "ce_unmarshal_conf env fn = (e, Some c)" for e c
    using assms(1) that by (auto simp: decoder_env_def split: option.splits dest: spec[of _ fn])
  have g: "decoded c" if "cf_Global f = Some c" for c
    using assms(2) that by (simp add: decoded_file_def)
  show ?thesis
    using assms(3) u g
    by (auto simp: select_configuration_def split: option.splits prod.splits outcome.splits dest: Join_decoded)
qed

lemma readConfiguration_decoded:
  assumes "decoder_env env" "readConfiguration env fn = Return (Inr out)"
  shows "decoded out"
proof -
  obtain f c where f: "ce_unmarshal_file env fn = (None, f)" "select_configuration env fn f = Return (Inr c)"
    "out = (mark_defined c)\<lparr>originalPath := fn\<rparr>"
    using assms(2) by (auto simp: readConfiguration_def split: if_splits prod.splits option.splits outcome.splits sum.splits)
  have "decoded_file f" using assms(1) f(1) by (metis decoder_env_def snd_conv)
  from select_configuration_decoded[OF assms(1) this f(2)] show ?thesis
    by (simp add: f(3) mark_defined_def decoded_def)
qed

text \<open>No blog is ever published. The command asks whether the configuration has blogs in the
  deprecated section, but a configuration that was loaded has none there, since loading it has
  moved them all to the projects of the repositories: whatever was configured, and whatever the
  name, the answer is that no blog is configured, and nothing is run.\<close>

theorem blog_publish_never_runs:
  assumes "decoder_env (ve_conf env)"
    and "op_LoadConfiguration env level_from getenv fl w = Return (Inr conf, w')"
  shows "blogPublish ops (Some conf) name u = Some (Return ([Errf ''no blog configured'' []], u))"
proof -
  obtain c s where c: "LoadConfiguration env (fl_conf fl) w = Return (Inr c, w')"
    "conf = c\<lparr>Settings := Some s\<rparr>"
    using assms(2) by (auto simp: op_LoadConfiguration_def split: outcome.splits prod.splits sum.splits option.splits)
  obtain out where r: "readConfiguration (ve_conf env) (fl_conf fl) = Return (Inr out)"
    and v: "\<exists>ec. doValidate env out w = Return (ec, c, w')"
    using c(1) by (auto simp: LoadConfiguration_def split: outcome.splits prod.splits sum.splits if_splits)
  obtain ec where "doValidate env out w = Return (ec, c, w')" using v by blast
  moreover have "\<not> linkedFilesRead out" using readConfiguration_decoded[OF assms(1) r] by (simp add: decoded_def)
  ultimately have "BlogCOMPAT c = []" by (rule doValidate_empties)
  then show ?thesis by (simp add: blogPublish_def c(2))
qed

definition demo_blog :: Project where
  "demo_blog = \<lparr>p_Name = ''blog'', p_Type = [], p_RepoName = ''blog'', p_Notify = False, p_Enabled = True,
     p_DeployCommands = [''make publish'']\<rparr>"

definition demo_conf_env :: "unit conf_env" where
  "demo_conf_env = \<lparr>ce_stat = (\<lambda>p. if p = ''/conf'' then Found False else Not_Exist), ce_home = ''/home/u'',
     ce_hostname = ''h'',
     ce_unmarshal_file = (\<lambda>p. (None, \<lparr>cf_Local = None,
       cf_Global = Some (Sardis_Conf.zero_Configuration\<lparr>BlogCOMPAT := [demo_blog]\<rparr>)\<rparr>)),
     ce_unmarshal_conf = (\<lambda>p. (None, None))\<rparr>"

definition demo_validate_env :: "(unit, nat) validate_env" where
  "demo_validate_env = \<lparr>ve_conf = demo_conf_env, ve_srv = demo_env,
     ve_sys = \<lparr>ye_stat = (\<lambda>p w. if p = ''/etc/arch-release'' then Not_Exist else Found True), ye_mkdir_all = (\<lambda>p w. ([], w)), ye_homedir_Expand = (\<lambda>p. (p, [])),
       ye_home = ''/home/u'', ye_hostname = ''h''\<rparr>,
     ve_expand = (\<lambda>s. s), ve_same_host = (\<lambda>a b. g_Host a = g_Host b), ve_map_order = (\<lambda>m. m)\<rparr>"

definition demo_flags :: global_flags where
  "demo_flags = \<lparr>fl_conf = ''/conf'', fl_level = ''info'', fl_quietSyslog = False, fl_quietStdOut = False,
     fl_jsonLog = False, fl_colorJsonLog = False, fl_annotate = False\<rparr>"

lemma demo_reads:
  "readConfiguration demo_conf_env ''/conf'' =
     Return (Inr (Sardis_Conf.zero_Configuration\<lparr>BlogCOMPAT := [demo_blog], originalPath := ''/conf''\<rparr>))"
  by (simp add: readConfiguration_def demo_conf_env_def is_not_exist_iff select_configuration_def
      mark_defined_def Sardis_Conf.zero_Configuration_def)

lemma demo_validates:
  "\<exists>conf s. doValidate demo_validate_env
      (Sardis_Conf.zero_Configuration\<lparr>BlogCOMPAT := [demo_blog], originalPath := ''/conf''\<rparr>) w = Return ([], conf, w) \<and>
     Settings conf = Some s"
proof -
  have e: "TryExpandHomeDir ''/home/u'' ''/home/u'' = ''/home/u''" by code_simp
  show ?thesis
    by (simp add: e doValidate_def demo_validate_env_def demo_conf_env_def expandLinkedFiles_def
      Sardis_Conf.zero_Configuration_def Migrate_def migrate_settings_def Srv.zero_Configuration_def
      expandOperations_def SyntheticTaskGroups_def rebuildIndexes_def ConcreteTaskGroups_def TaskGroups_def
      Sysmgmt.Configuration_Validate_def ArchLinux_Validate_def is_not_exist_iff SystemdConfiguration_Validate_def
      LinkConfiguration_Validate_def expand_def LinkDiscovery_Validate_def new_LinkDiscovery_def
      Repo.doValidate_def projectsValidate_def demo_blog_def
      Subexec_Conf.Configuration_Validate_def Group_Validate_def Let_def lift_Group_def rename_group_def empty_Group_def
      Srv.Configuration_Validate_def Subexec_Conf.empty_Configuration_def demo_env_def NotifySettings_Validate_def
      Credentials_Validate_def zero_NotifySettings_def zero_Credentials_def ShellHistory_limits_def)
qed

lemma demo_decoder: "decoder_env (ve_conf demo_validate_env)"
  by (simp add: decoder_env_def decoded_file_def decoded_def demo_validate_env_def demo_conf_env_def
      Sardis_Conf.zero_Configuration_def)

lemma demo_loads:
  "\<exists>conf. op_LoadConfiguration demo_validate_env (\<lambda>l. 0) (\<lambda>v. []) demo_flags 0 = Return (Inr conf, 0)"
proof -
  obtain c s where v: "doValidate demo_validate_env
      (Sardis_Conf.zero_Configuration\<lparr>BlogCOMPAT := [demo_blog], originalPath := ''/conf''\<rparr>) 0 = Return ([], c, 0)"
    "Settings c = Some s"
    using demo_validates[of 0] by blast
  have "ve_conf demo_validate_env = demo_conf_env" "fl_conf demo_flags = ''/conf''"
    by (simp_all add: demo_validate_env_def demo_flags_def)
  then show ?thesis using v by (simp add: op_LoadConfiguration_def LoadConfiguration_def demo_reads)
qed

theorem blog_publish_never_runs_witness:
  "\<exists>conf. op_LoadConfiguration demo_validate_env (\<lambda>l. 0) (\<lambda>v. []) demo_flags 0 = Return (Inr conf, 0) \<and>
     blogPublish failing_ops (Some conf) ''blog'' [] = Some (Return ([Errf ''no blog configured'' []], []))"
proof -
  obtain conf where l:
    "op_LoadConfiguration demo_validate_env (\<lambda>l. 0) (\<lambda>v. []) demo_flags 0 = Return (Inr conf, 0)"
    using demo_loads by blast
  then show ?thesis
    using blog_publish_never_runs[OF demo_decoder l, of failing_ops "''blog''" "[]"] by (intro exI[of _ conf] conjI)
qed

end
