(* ===== verification/Loaded_Conf.thy ===== *)
theory Loaded_Conf
  imports Operations
begin

text \<open>
  What every configuration that the program works with satisfies: the result of reading a file,
  migrating and joining its sections, generating the task groups, validating all the parts and
  putting the command line over it (\<open>LoadConfiguration\<close> of \<open>operations/cmdr.go\<close> over \<open>conf.go\<close>).
\<close>

section \<open>Groups have different names\<close>

text \<open>Merging never changes the name under which a group is indexed, whether or not the groups that
  meet agree on their category.\<close>

lemma group_key_doMerge [simp]: "group_key (snd (doMerge g h)) = group_key g"
  by (simp add: doMerge_def group_key_def Let_def)

definition keys_inv :: "'k Group list \<Rightarrow> nat \<Rightarrow> 'k Group list \<Rightarrow> (string \<times> nat) list \<Rightarrow> bool \<Rightarrow> bool" where
  "keys_inv ws k groups index merged \<longleftrightarrow>
     map group_key groups = map group_key ws \<and> distinct (map fst index) \<and>
     (\<forall>(n, j) \<in> set index. j < length ws \<and> group_key (ws ! j) = n) \<and>
     (\<not> merged \<longrightarrow> map snd index = [0..<k] \<and> groups = ws)"

lemma keys_inv_step:
  assumes inv: "keys_inv ws k groups index merged" and k: "k < length ws"
  shows "case map_of index (group_key (groups ! k)) of
      None \<Rightarrow> keys_inv ws (Suc k) groups (index @ [(group_key (groups ! k), k)]) merged
    | Some j \<Rightarrow> keys_inv ws (Suc k) (groups[j := snd (doMerge (groups ! j) (groups ! k))]) index True"
proof -
  have keys: "map group_key groups = map group_key ws" using inv by (simp add: keys_inv_def)
  then have len: "length groups = length ws" by (metis length_map)
  have key: "i < length ws \<Longrightarrow> group_key (groups ! i) = group_key (ws ! i)" for i
    using keys len by (metis nth_map)
  show ?thesis
  proof (cases "map_of index (group_key (groups ! k))")
    case None
    show ?thesis unfolding None option.case
      using None inv k key by (auto simp: keys_inv_def map_of_eq_None_iff)
  next
    case (Some j)
    then have "j < length ws" using inv by (auto simp: keys_inv_def dest: map_of_SomeD)
    then have "map group_key (groups[j := snd (doMerge (groups ! j) (groups ! k))]) = map group_key ws"
      using keys len by (simp add: map_update) (metis list_update_id nth_map length_map)
    then show ?thesis using Some inv by (simp add: keys_inv_def)
  qed
qed

lemma merge_loop_keys:
  assumes "merge_loop [k..<length ws] groups index merged = (groups', index', merged')"
    and "keys_inv ws k groups index merged" and "k \<le> length ws"
  shows "keys_inv ws (length ws) groups' index' merged'"
  using assms
proof (induction "length ws - k" arbitrary: k groups index merged)
  case (Suc n)
  then have k: "k < length ws" by simp
  then have "[k..<length ws] = k # [Suc k..<length ws]" by (rule upt_conv_Cons)
  with Suc.prems(1) have step: "(case map_of index (group_key (groups ! k)) of
      None \<Rightarrow> merge_loop [Suc k..<length ws] groups (index @ [(group_key (groups ! k), k)]) merged
    | Some j \<Rightarrow> merge_loop [Suc k..<length ws] (groups[j := snd (doMerge (groups ! j) (groups ! k))]) index True) =
      (groups', index', merged')"
    by (simp add: Let_def)
  have n: "n = length ws - Suc k" "Suc k \<le> length ws" using Suc.hyps(2) k by simp_all
  show ?case
    using step keys_inv_step[OF Suc.prems(2) k] Suc.hyps(1)[OF n(1) _ _ n(2)]
    by (cases "map_of index (group_key (groups ! k))") simp_all
qed simp

lemma merged_keys_distinct:
  assumes "\<And>xs. mset (map_order xs) = mset xs"
  shows "distinct (map group_key (c_Commands (resolveAliasesAndMergeGroups same_host map_order hostname conf)))"
proof (cases "c_Commands conf = []")
  case True
  then show ?thesis by (simp add: resolveAliasesAndMergeGroups_def)
next
  case False
  define ws where "ws = with_aliases hostname conf"
  obtain groups index merged where loop: "merge_loop [0..<length ws] ws [] False = (groups, index, merged)"
    by (metis prod_cases3)
  have "keys_inv ws 0 ws [] False" by (simp add: keys_inv_def)
  then have inv: "keys_inv ws (length ws) groups index merged" using merge_loop_keys[OF loop] by simp
  then have keys: "map group_key groups = map group_key ws" and dis: "distinct (map fst index)"
    and idx: "\<forall>(n, j) \<in> set index. j < length ws \<and> group_key (ws ! j) = n"
    by (auto simp: keys_inv_def)
  have key: "\<forall>(n, j) \<in> set index. group_key (groups ! j) = n"
    using idx keys by (metis (mono_tags, lifting) case_prodD case_prodI2 length_map nth_map)
  have picked: "map (\<lambda>j. group_key (groups ! j)) (map snd xs) = map fst xs" if "set xs \<subseteq> set index" for xs
    using that key by (induction xs) auto
  show ?thesis
  proof (cases merged)
    case False
    then have "map snd index = [0..<length ws]" "groups = ws" using inv by (simp_all add: keys_inv_def)
    moreover have "map (\<lambda>j. group_key (groups ! j)) [0..<length ws] = map group_key ws"
      by (rule nth_equalityI) (use \<open>groups = ws\<close> in simp_all)
    ultimately have "map group_key ws = map fst index" using picked[of index] by simp
    then show ?thesis
      using False loop dis \<open>c_Commands conf \<noteq> []\<close> \<open>groups = ws\<close>
      by (simp add: resolveAliasesAndMergeGroups_def ws_def)
  next
    case True
    define sparse where "sparse = sort_cmp (\<lambda>a b. compare (snd a) (snd b)) (map_order index)"
    have m: "mset sparse = mset index" by (simp add: sparse_def assms)
    then have "set sparse \<subseteq> set index" by (metis mset_eq_setD order_refl)
    then have "map (\<lambda>j. group_key (groups ! j)) (map snd sparse) = map fst sparse" by (rule picked)
    moreover have "distinct (map fst sparse)"
      using dis m by (metis mset_eq_imp_distinct_iff mset_map)
    ultimately have d: "distinct (map (\<lambda>j. group_key (groups ! j)) (map snd sparse))" by (simp only:)
    let ?rs = "map sort_commands (map (\<lambda>j. groups ! j) (map snd sparse))"
    have "distinct (map group_key ?rs)" using d by (simp add: comp_def)
    moreover have "mset (map group_key (stable_sort (group_cmp same_host) ?rs)) = mset (map group_key ?rs)"
      by (simp only: mset_map mset_stable_sort)
    ultimately have "distinct (map group_key (stable_sort (group_cmp same_host) ?rs))"
      by (metis mset_eq_imp_distinct_iff)
    then show ?thesis
      using True loop False by (simp add: resolveAliasesAndMergeGroups_def ws_def sparse_def Let_def)
  qed
qed

section \<open>The deprecated sections are empty\<close>

definition migrated :: "'v Sardis_Conf.Configuration \<Rightarrow> bool" where
  "migrated c \<longleftrightarrow> BlogCOMPAT c = [] \<and> CommandsCOMPAT c = [] \<and> RepoCOMPAT c = [] \<and> LinksCOMPAT c = [] \<and>
     NetworkCOMPAT c = [] \<and> HostsCOMPAT c = [] \<and> y_ServicesLEGACY (System c) = []"

lemma Migrate_migrated: "Settings c \<noteq> None \<Longrightarrow> migrated (Migrate c)"
  using Migrate_rest[of c] Settings_Migrate[of c] by (simp add: migrated_def Let_def split: if_splits)

lemma Join_migrated:
  assumes "Join env c (Some (Migrate m)) = Return c'" "migrated c"
  shows "migrated c'"
  using assms Migrate_rest(1)[of m]
  by (auto simp: Join_def Let_def migrated_def Network_Join_def split: option.splits if_splits)

lemma link_loop_migrated:
  "link_loop env fns c = Return (ec, c') \<Longrightarrow> migrated c \<Longrightarrow> decoded c \<Longrightarrow> migrated c' \<and> decoded c'"
proof (induction fns arbitrary: c ec)
  case (Cons fn fns)
  then show ?case
    by (auto simp: Let_def split: outcome.splits sum.splits if_splits prod.splits
        dest: Join_migrated Join_decoded)
qed simp

lemma expandLinkedFiles_migrated:
  assumes "expandLinkedFiles env c = Return (ec, c')" "decoded c" "Settings c \<noteq> None"
  shows "migrated c' \<and> linkedFilesRead c' \<and> \<not> operationsGenerated c' \<and> \<not> lookupProcessed (Repos c')"
proof -
  have "decoded (Migrate c)"
    using assms(2) by (simp add: decoded_def Migrate_def migrate_settings_def Let_def split: option.splits)
  then show ?thesis
    using assms Migrate_migrated[OF assms(3)]
    by (auto simp: expandLinkedFiles_def Let_def decoded_def[of c] split: option.splits outcome.splits
        dest!: link_loop_migrated) (auto simp: migrated_def decoded_def)
qed

lemma index_repos_distinct:
  "index_repos rps tags lookup = Return (tags', lookup') \<Longrightarrow>
     distinct (map r_Name rps) \<and> (\<forall>rp \<in> set rps. map_of lookup (r_Name rp) = None)"
proof (induction rps arbitrary: tags lookup)
  case (Cons rp rps)
  from Cons.prems have "index_repos rps (fold (\<lambda>tg tags. tag_push tg (r_Name rp) tags) (r_Tags rp) tags)
      (upd (r_Name rp) rp lookup) = Return (tags', lookup')" and "map_of lookup (r_Name rp) = None"
    by (auto split: if_splits)
  with Cons.IH[OF this(1)] show ?case by (fastforce split: if_splits)
qed simp

lemma rebuildIndexes_distinct:
  assumes "rebuildIndexes c = Return (ec, c')" "\<not> lookupProcessed c"
  shows "distinct (map r_Name (GitRepos c')) \<and> lookupProcessed c'"
  using assms index_repos_distinct by (fastforce simp: rebuildIndexes_def split: outcome.splits prod.splits)

lemma expandOperations_facts:
  assumes "expandOperations c = Return (ec, c')" "\<not> operationsGenerated c" "\<not> lookupProcessed (Repos c)"
  shows "(migrated c \<longrightarrow> migrated c') \<and> linkedFilesRead c' = linkedFilesRead c \<and> operationsGenerated c' \<and>
    lookupProcessed (Repos c') \<and> distinct (map r_Name (GitRepos (Repos c')))"
proof -
  obtain e repos synthetic where r: "rebuildIndexes (Repos c) = Return (e, repos)"
    "SyntheticTaskGroups (Repos c) = Return (synthetic, repos)"
    using assms(1,2) by (auto simp: expandOperations_def SyntheticTaskGroups_def Let_def split: outcome.splits prod.splits)
  then show ?thesis
    using assms(1,2) rebuildIndexes_distinct[OF r(1) assms(3)]
    by (auto simp: expandOperations_def migrated_def)
qed

section \<open>The parts are valid\<close>

definition valid_repository :: "GitRepository \<Rightarrow> bool" where
  "valid_repository r \<longleftrightarrow> r_Remote r \<noteq> [] \<and> r_Branch r \<noteq> [] \<and> r_RemoteName r \<noteq> [] \<and>
     \<not> (r_Fetch r \<and> r_LocalSync r)"

lemma wrapped_errors_nil:
  "concat (map (\<lambda>(idx, err). wrap_errs err f (g idx)) (zip [0..<length es] es)) = [] \<longleftrightarrow> (\<forall>e \<in> set es. e = [])"
proof -
  have "set es = snd ` set (zip [0..<length es] es)"
    by (metis length_map map_nth set_map map_snd_zip length_upt minus_nat.diff_0)
  then show ?thesis by (auto simp: split_beta wrap_errs_def)
qed

lemma GitRepository_Validate_valid:
  "GitRepository_Validate home r = ([], r') \<Longrightarrow> valid_repository r' \<and> r_Name r' = r_Name r"
  by (auto simp: GitRepository_Validate_def repo_defaults_def valid_repository_def Let_def split: if_splits)

lemma r_Name_Validate [simp]: "r_Name (snd (GitRepository_Validate home r)) = r_Name r"
  by (simp add: GitRepository_Validate_def repo_defaults_def Let_def)

text \<open>A project goes by its name, or else by that of its repository.\<close>

definition project_name :: "Project \<Rightarrow> string" where
  "project_name p = Default [] (p_Name p) (p_RepoName p)"

lemma projects_loop_names:
  "projects_loop idx ps set0 = [] \<Longrightarrow>
     distinct (map project_name ps) \<and> (\<forall>p \<in> set ps. project_name p \<noteq> [] \<and> project_name p \<notin> set set0)"
proof (induction ps arbitrary: idx set0)
  case (Cons p ps)
  then have n: "\<not> (p_Name p = [] \<and> p_RepoName p = [])" by (auto split: if_splits)
  then have "project_name p \<noteq> []" by (simp add: project_name_def Default_def)
  moreover have "projects_loop (idx + 1) ps
      (Default [] (p_RepoName p) (project_name p) # project_name p # set0) = []" "project_name p \<notin> set set0"
    using Cons.prems n by (simp_all add: Let_def project_name_def)
  ultimately show ?case using Cons.IH by fastforce
qed simp

lemma repo_doValidate_valid:
  assumes "Repo.doValidate home c = Return ([], c')" "lookupProcessed c" "distinct (map r_Name (GitRepos c))"
  shows "distinct (map r_Name (GitRepos c')) \<and> (\<forall>r \<in> set (GitRepos c'). valid_repository r) \<and>
    distinct (map project_name (Projects c')) \<and> (\<forall>p \<in> set (Projects c'). project_name p \<noteq> [])"
proof -
  let ?rs = "map (GitRepository_Validate home) (GitRepos c)"
  have c': "c' = c\<lparr>GitRepos := map snd ?rs\<rparr>" and p: "projectsValidate c = []"
    and e: "concat (map (\<lambda>(idx, err). wrap_errs err ''%d/%d of %T is not valid'' [I (int idx), I (int (length ?rs))])
      (zip [0..<length ?rs] (map fst ?rs))) = []"
    using assms(1,2) by (auto simp: Repo.doValidate_def rebuildIndexes_def Let_def)
  have "\<forall>r \<in> set (GitRepos c). fst (GitRepository_Validate home r) = []"
    using e wrapped_errors_nil[of _ "\<lambda>idx. [I (int idx), I (int (length ?rs))]" "map fst ?rs"] by simp
  then have "\<forall>r \<in> set (map snd ?rs). valid_repository r"
    using GitRepository_Validate_valid by (force simp: prod_eq_iff)
  moreover have "map r_Name (map snd ?rs) = map r_Name (GitRepos c)" by simp
  ultimately show ?thesis
    using assms(3) projects_loop_names[OF p[unfolded projectsValidate_def]] unfolding c' by (simp add: comp_def)
qed

definition valid_link :: "LinkDefinition \<Rightarrow> bool" where
  "valid_link l \<longleftrightarrow> l_Target l \<noteq> [] \<and> l_Name l \<noteq> [] \<and> l_Path l \<noteq> []"

lemma LinkDefinition_Validate_valid: "LinkDefinition_Validate l = ([], l') \<Longrightarrow> valid_link l'"
  by (auto simp: LinkDefinition_Validate_def valid_link_def Let_def split: if_splits)

lemma LinkConfiguration_Validate_valid:
  assumes "LinkConfiguration_Validate expand_home hostname home stat c = ([], c')"
  shows "\<forall>l \<in> set (lc_Links c'). valid_link l"
proof -
  define ls where "ls = map (snd \<circ> expand_link expand_home hostname) (lc_Links c)"
  have rs: "lc_Links c' = map snd (map LinkDefinition_Validate ls)"
    and e: "concat (map (\<lambda>(idx, err). wrap_errs err ''%d/%d of %T is not valid'' [I (int idx), I (int (length ls))])
      (zip [0..<length ls] (map fst (map LinkDefinition_Validate ls)))) = []"
    using assms by (auto simp: LinkConfiguration_Validate_def expand_def Let_def ls_def comp_def split: prod.splits)
  have "\<forall>l \<in> set ls. fst (LinkDefinition_Validate l) = []"
    using e wrapped_errors_nil[of _ "\<lambda>idx. [I (int idx), I (int (length ls))]" "map fst (map LinkDefinition_Validate ls)"]
    by simp
  then show ?thesis using LinkDefinition_Validate_valid unfolding rs by (force simp: prod_eq_iff)
qed

lemma sys_Validate_valid:
  assumes "Sysmgmt.Configuration_Validate env c w = Return ([], c', w')"
  shows "(\<forall>sd \<in> set (y_SystemD c'). SystemdService_Validate sd = []) \<and>
    (\<forall>l \<in> set (lc_Links (y_Links c')). valid_link l) \<and> y_ServicesLEGACY c' = y_ServicesLEGACY c"
proof -
  obtain e1 arch w1 where a: "ArchLinux_Validate (ye_stat env) (ye_mkdir_all env) (ye_home env) (y_Arch c) w =
      Return (e1, arch, w1)"
    using assms by (auto simp: Sysmgmt.Configuration_Validate_def split: outcome.splits)
  obtain e3 links where l: "LinkConfiguration_Validate (ye_homedir_Expand env) (ye_hostname env) (ye_home env)
      (\<lambda>p. ye_stat env p w1) (y_Links c) = (e3, links)" by fastforce
  have r: "e3 = []" "SystemdConfiguration_Validate (y_SystemD c) = []" "c' = c\<lparr>y_Arch := arch, y_Links := links\<rparr>"
    using assms by (simp_all add: Sysmgmt.Configuration_Validate_def a l Let_def)
  show ?thesis
    using LinkConfiguration_Validate_valid[OF l[unfolded r(1)]] r(2)
    by (simp add: r(3) SystemdConfiguration_Validate_def)
qed

definition valid_settings :: "'v Srv.Configuration \<Rightarrow> bool" where
  "valid_settings s \<longleftrightarrow> dm_Lines (s_DMenuFlags s) \<noteq> 0 \<and> dm_Prompt (s_DMenuFlags s) \<noteq> [] \<and>
     0 < sh_MaxLength (s_ShellHistory s) \<and> sh_MinLength (s_ShellHistory s) \<noteq> 0 \<and>
     tg_Client (s_Telegram s) \<noteq> None"

lemma srv_Validate_valid: "valid_settings (snd (Srv.Configuration_Validate env s))"
proof -
  obtain e1 notify where n: "NotifySettings_Validate (se_map_order env) (se_notify env) (s_Notify s) = (e1, notify)"
    by fastforce
  obtain e2 creds where c: "Credentials_Validate (se_homedir_Expand env) (se_unmarshal env) (s_Credentials s) = (e2, creds)"
    by fastforce
  have "dm_Lines (DMenuFlags_defaults env (s_DMenuFlags s)) \<noteq> 0"
    "dm_Prompt (DMenuFlags_defaults env (s_DMenuFlags s)) \<noteq> []"
    by (simp_all add: DMenuFlags_defaults_def Default_def)
  moreover have "0 < sh_MaxLength (ShellHistory_limits (s_ShellHistory s))"
    "sh_MinLength (ShellHistory_limits (s_ShellHistory s)) \<noteq> 0"
    by (simp_all add: ShellHistory_limits_def Default_def Let_def max_def)
  ultimately show ?thesis
    by (simp add: Srv.Configuration_Validate_def valid_settings_def n c Let_def)
qed

section \<open>Loaded configurations\<close>

definition well_formed :: "'v Sardis_Conf.Configuration \<Rightarrow> bool" where
  "well_formed c \<longleftrightarrow>
     migrated c \<and> linkedFilesRead c \<and> operationsGenerated c \<and> lookupProcessed (Repos c) \<and>
     (\<exists>s. Settings c = Some s \<and> valid_settings s \<and> s_AnnotationSeparator s \<noteq> []) \<and>
     distinct (map r_Name (GitRepos (Repos c))) \<and> (\<forall>r \<in> set (GitRepos (Repos c)). valid_repository r) \<and>
     distinct (map project_name (Projects (Repos c))) \<and> (\<forall>p \<in> set (Projects (Repos c)). project_name p \<noteq> []) \<and>
     (\<forall>sd \<in> set (y_SystemD (System c)). SystemdService_Validate sd = []) \<and>
     (\<forall>l \<in> set (lc_Links (y_Links (System c))). valid_link l) \<and>
     distinct (map group_key (c_Commands (Operations c)))"

lemma doValidate_parts:
  assumes "doValidate env c w = Return ([], c', w')"
  obtains c0 c1 c2 sys repos ops settings w0 where
    "c0 = (if Settings c = None then c\<lparr>Settings := Some Srv.zero_Configuration\<rparr> else c)"
    "expandLinkedFiles (ve_conf env) c0 = Return ([], c1)" "expandOperations c1 = Return ([], c2)"
    "settings = snd (Srv.Configuration_Validate (ve_srv env) (deref_z Srv.zero_Configuration (Settings c2)))"
    "Sysmgmt.Configuration_Validate (ve_sys env) (System c2) w0 = Return ([], sys, w')"
    "Repo.doValidate (ce_home (ve_conf env)) (Repos c2) = Return ([], repos)"
    "Operations c' = snd (Subexec_Conf.Configuration_Validate (ve_expand env) (ce_home (ve_conf env))
       (ve_same_host env) (ve_map_order env) (ce_hostname (ve_conf env)) (Operations c2))"
    "Settings c' = Some settings" "System c' = sys" "Repos c' = repos" "migrated c2 \<longrightarrow> migrated (c'\<lparr>System := System c2\<rparr>)"
    "linkedFilesRead c' = linkedFilesRead c2" "operationsGenerated c' = operationsGenerated c2"
proof -
  define c0 where "c0 = (if Settings c = None then c\<lparr>Settings := Some Srv.zero_Configuration\<rparr> else c)"
  note v = assms[unfolded doValidate_def Let_def, folded c0_def]
  obtain e1 c1 where 1: "expandLinkedFiles (ve_conf env) c0 = Return (e1, c1)"
    using v by (cases "expandLinkedFiles (ve_conf env) c0") auto
  obtain e2 c2 where 2: "expandOperations c1 = Return (e2, c2)"
    using v by (cases "expandOperations c1") (auto simp: 1)
  define settings where "settings = snd (Srv.Configuration_Validate (ve_srv env) (deref_z Srv.zero_Configuration (Settings c2)))"
  obtain e3 where 3: "Srv.Configuration_Validate (ve_srv env) (deref_z Srv.zero_Configuration (Settings c2)) = (e3, settings)"
    by (metis settings_def prod.collapse)
  obtain e4 sys w1 where 4: "Sysmgmt.Configuration_Validate (ve_sys env) (System c2) w = Return (e4, sys, w1)"
    using v by (cases "Sysmgmt.Configuration_Validate (ve_sys env) (System c2) w") (auto simp: 1 2 3)
  obtain e5 repos where 5: "Repo.doValidate (ce_home (ve_conf env)) (Repos c2) = Return (e5, repos)"
    using v by (cases "Repo.doValidate (ce_home (ve_conf env)) (Repos c2)") (auto simp: 1 2 3 4)
  obtain e6 ops where 6: "Subexec_Conf.Configuration_Validate (ve_expand env) (ce_home (ve_conf env))
       (ve_same_host env) (ve_map_order env) (ce_hostname (ve_conf env)) (Operations c2) = (e6, ops)"
    by fastforce
  have r: "e1 = []" "e2 = []" "e3 = []" "e4 = []" "e5 = []" "w1 = w'"
    "c' = c2\<lparr>Settings := Some settings, System := sys, Repos := repos, Operations := ops\<rparr>"
    using v by (simp_all add: 1 2 3 4 5 6)
  show thesis
    by (rule that[OF c0_def 1[unfolded r] 2[unfolded r] settings_def 4[unfolded r] 5[unfolded r]])
      (simp_all add: r(7) 6 migrated_def)
qed

text \<open>C3: every configuration that the program works with is well formed. When loading succeeds, the
  deprecated sections are empty, the linked files have been read and the task groups generated;
  there are settings, with limits for the menus and the history and a separator for annotations;
  repositories and projects have different names, and each repository a remote, a branch and at
  most one way of updating; services and links are valid; and no two groups of commands go by one
  name, so that the name of a group means one group.\<close>

theorem loaded_configuration_well_formed:
  assumes "decoder_env (ve_conf env)" and "\<And>xs. mset (ve_map_order env xs) = mset xs"
    and "op_LoadConfiguration env level_from getenv fl w = Return (Inr conf, w')"
  shows "well_formed conf"
proof -
  obtain c s where c: "LoadConfiguration env (fl_conf fl) w = Return (Inr c, w')" "Settings c = Some s"
    "conf = c\<lparr>Settings := Some (apply_flags level_from getenv fl s)\<rparr>"
    using assms(3) by (auto simp: op_LoadConfiguration_def split: outcome.splits prod.splits sum.splits option.splits)
  obtain out where r: "readConfiguration (ve_conf env) (fl_conf fl) = Return (Inr out)"
    and v: "doValidate env out w = Return ([], c, w')"
    using c(1) by (auto simp: LoadConfiguration_def split: outcome.splits prod.splits sum.splits if_splits)
  obtain c0 c1 c2 sys repos settings w0 where p:
    "c0 = (if Settings out = None then out\<lparr>Settings := Some Srv.zero_Configuration\<rparr> else out)"
    "expandLinkedFiles (ve_conf env) c0 = Return ([], c1)" "expandOperations c1 = Return ([], c2)"
    "settings = snd (Srv.Configuration_Validate (ve_srv env) (deref_z Srv.zero_Configuration (Settings c2)))"
    "Sysmgmt.Configuration_Validate (ve_sys env) (System c2) w0 = Return ([], sys, w')"
    "Repo.doValidate (ce_home (ve_conf env)) (Repos c2) = Return ([], repos)"
    "Operations c = snd (Subexec_Conf.Configuration_Validate (ve_expand env) (ce_home (ve_conf env))
       (ve_same_host env) (ve_map_order env) (ce_hostname (ve_conf env)) (Operations c2))"
    "Settings c = Some settings" "System c = sys" "Repos c = repos" "migrated c2 \<longrightarrow> migrated (c\<lparr>System := System c2\<rparr>)"
    "linkedFilesRead c = linkedFilesRead c2" "operationsGenerated c = operationsGenerated c2"
    by (rule doValidate_parts[OF v])
  have "decoded c0" "Settings c0 \<noteq> None"
    using readConfiguration_decoded[OF assms(1) r] by (simp_all add: p(1) decoded_def)
  note l = expandLinkedFiles_migrated[OF p(2) this]
  have o: "migrated c2" "linkedFilesRead c2" "operationsGenerated c2" "lookupProcessed (Repos c2)"
    "distinct (map r_Name (GitRepos (Repos c2)))"
    using expandOperations_facts[OF p(3)] l by simp_all
  note repo = repo_doValidate_valid[OF p(6) o(4,5)] and sys = sys_Validate_valid[OF p(5)]
  have keys: "distinct (map group_key (c_Commands (Operations c)))"
    unfolding p(7) Subexec_Conf.Configuration_Validate_def by (simp add: Let_def merged_keys_distinct assms(2))
  have "lookupProcessed repos"
    using p(6) o(4) by (auto simp: Repo.doValidate_def rebuildIndexes_def Let_def split: outcome.splits)
  moreover have "migrated conf"
    using p(11) o(1) sys by (simp add: c(3) migrated_def p(9))
  moreover have "valid_settings (apply_flags level_from getenv fl s)"
    "s_AnnotationSeparator (apply_flags level_from getenv fl s) \<noteq> []"
    using srv_Validate_valid[of "ve_srv env" "deref_z Srv.zero_Configuration (Settings c2)"] c(2) p(8)
    by (simp_all add: p(4) apply_flags_def valid_settings_def Default_def)
  ultimately show ?thesis
    using o repo sys keys by (simp add: well_formed_def c(3) p(9,10,12,13))
qed

theorem loaded_configuration_well_formed_witness:
  "\<exists>conf. op_LoadConfiguration demo_validate_env (\<lambda>l. 0) (\<lambda>v. []) demo_flags 0 = Return (Inr conf, 0) \<and>
     well_formed conf"
proof -
  have m: "mset (ve_map_order demo_validate_env xs) = mset xs" for xs by (simp add: demo_validate_env_def)
  show ?thesis using demo_loads loaded_configuration_well_formed[OF demo_decoder m] by fast
qed

end
