(* ===== verification/Menu.thy ===== *)
theory Menu
  imports Subexec_Index Subexec_Conf
begin

text \<open>
  The commands of \<open>operations/menu.go\<close> that select, list and run the configured commands. What
  runs commands and what asks the user are parameters that act on the world; the loops that ask
  until there is something to run take fuel, one unit for each question, and answer \<open>None\<close> when it
  is used up. A nil slice and an empty one are not told apart.
\<close>

section \<open>What a menu needs\<close>

datatype menu_answer = Selected string | Selection_Missing | Menu_Error errors

record ('k, 'w) menu_env =
  me_set_add :: set_add
  me_hostname :: string
  me_run :: "'k Command list \<Rightarrow> 'w \<Rightarrow> errors \<times> 'w"
  me_menu :: "string \<Rightarrow> string list \<Rightarrow> 'w \<Rightarrow> menu_answer \<times> 'w"
  me_fzf :: "string \<Rightarrow> string list \<Rightarrow> 'w \<Rightarrow> (errors + nat list) \<times> 'w"
  me_wait :: "'w \<Rightarrow> 'w"

definition Tree :: "string \<Rightarrow> 'k Configuration \<Rightarrow> 'k Node" where
  "Tree hostname conf = NewCommandTree (doExportAllCommands hostname conf)"

section \<open>run and cmd\<close>

definition RunCommand ::
    "('k, 'w) menu_env \<Rightarrow> 'k Configuration \<Rightarrow> string list \<Rightarrow> 'w \<Rightarrow> errors \<times> 'w" where
  "RunCommand env conf args w =
     (case FilterCommands (me_set_add env) (doExportAllCommands (me_hostname env) conf) args of
        Inl err \<Rightarrow> ([Wrapf [err] ''resolving commands %s'' [L args]], w)
      | Inr cmds \<Rightarrow> me_run env cmds w)"

text \<open>\<open>strings.SplitN\<close> for a separator that is not empty.\<close>

function split_n :: "string \<Rightarrow> string \<Rightarrow> nat \<Rightarrow> string list" where
  "split_n s sep 0 = []"
| "split_n s sep (Suc 0) = [s]"
| "split_n [] sep (Suc (Suc n)) = [[]]"
| "split_n (c # s) sep (Suc (Suc n)) =
     (if has_prefix (c # s) sep \<and> sep \<noteq> [] then [] # split_n (drop (length sep) (c # s)) sep (Suc n)
      else case split_n s sep (Suc (Suc n)) of [] \<Rightarrow> [[c]] | p # ps \<Rightarrow> (c # p) # ps)"
  by pat_completeness auto
termination by (relation "measure (\<lambda>(s, sep, n). length s)") (auto split: list.splits)

definition annotate :: "'k Node \<Rightarrow> string \<Rightarrow> string \<Rightarrow> string outcome" where
  "annotate index sep op =
     (case FindCommand index op of
        None \<Rightarrow> Panic nil_deref
      | Some cmd \<Rightarrow>
          let line = op @ '' '' @ sep @ '' '' @ cmd_Command cmd
          in Return (if 0 < length (cmd_Commands cmd)
                     then line @ '' ... +'' @ show_nat (length (cmd_Commands cmd)) else line))"

fun annotate_all :: "'k Node \<Rightarrow> string \<Rightarrow> string list \<Rightarrow> string list outcome" where
  "annotate_all index sep [] = Return []"
| "annotate_all index sep (op # ops) =
     (case annotate index sep op of
        Panic p \<Rightarrow> Panic p
      | Return line \<Rightarrow>
          (case annotate_all index sep ops of Panic p \<Rightarrow> Panic p | Return lines \<Rightarrow> Return (line # lines)))"

text \<open>The errors, the lines printed and the world.\<close>

definition SearchMenu ::
    "('k, 'w) menu_env \<Rightarrow> bool \<Rightarrow> string \<Rightarrow> 'k Configuration \<Rightarrow> string list \<Rightarrow> 'w \<Rightarrow>
     (errors \<times> string list \<times> 'w) outcome" where
  "SearchMenu env with_annotations sep conf args w =
     (if with_annotations \<and> \<not> 0 < length sep
      then Panic (Errf ''annotation separator must be defined as something other than the empty string.'' [])
      else if with_annotations \<and> sep = [CHR 0x0A]
      then Panic (Errf ''annotation separator must be defined as something other than a newline character.'' [])
      else
        let args = (if with_annotations
                    then map (\<lambda>op. if op = [] then op else split_n op sep 1 ! 0) args else args)
        in case ResolveCommands (me_set_add env) (me_hostname env) conf args of
             Panic p \<Rightarrow> Panic p
           | Return (Inl err) \<Rightarrow> Return ([err], [], w)
           | Return (Inr stage) \<Rightarrow>
               if Commands stage \<noteq> []
               then (case me_run env (Commands stage) w of (err, w) \<Rightarrow> Return (err, [], w))
               else
                 let ops = (if Prefixed stage \<noteq> [] then Prefixed stage else Selections stage)
                 in if with_annotations
                    then (case annotate_all (Tree (me_hostname env) conf) sep ops of
                            Panic p \<Rightarrow> Panic p | Return ops \<Rightarrow> Return ([], ops, w))
                    else Return ([], ops, w))"

definition searchCommand ::
    "('k, 'w) menu_env \<Rightarrow> 'k Configuration \<Rightarrow> string list \<Rightarrow> 'w \<Rightarrow> errors \<times> string list \<times> 'w" where
  "searchCommand env conf args w =
     (let prefix = DotJoinParts args;
          list_from = (\<lambda>tree w. ([], map (\<lambda>op. DotJoin [prefix, op]) (sort (KeysAtLevel tree)), w))
      in case Find (Tree (me_hostname env) conf) prefix of
           None \<Rightarrow> ([Errf ''no command found with prefix %q'' [S prefix]], [], w)
         | Some tree \<Rightarrow>
             (case command tree of
                Some cmd \<Rightarrow>
                  (case me_run env [cmd] w of (err, w) \<Rightarrow>
                     if \<not> HasChidren tree then (err, [], w)
                     else if err \<noteq> []
                     then ([Wrapf err ''problem running command %s, %w; missed running children %s''
                              [S (cmd_Name cmd), S prefix]], [], w)
                     else list_from tree w)
              | None \<Rightarrow>
                  if \<not> HasChidren tree
                  then ([Errf ''no further selections at %q'' [S prefix]], [], w)
                  else list_from tree w))"

section \<open>Menus over the groups\<close>

fun fuzzy_loop ::
    "nat \<Rightarrow> ('k, 'w) menu_env \<Rightarrow> 'k Configuration \<Rightarrow> bool \<Rightarrow> string list \<Rightarrow> string list \<Rightarrow> 'w \<Rightarrow>
     (errors \<times> 'w) outcome option" where
  "fuzzy_loop 0 env conf should_block prompt op w = None"
| "fuzzy_loop (Suc n) env conf should_block prompt op w =
     (case ResolveCommands (me_set_add env) (me_hostname env) conf op of
        Panic p \<Rightarrow> Some (Panic p)
      | Return (Inl err) \<Rightarrow> Some (Return ([err], w))
      | Return (Inr stage) \<Rightarrow>
          if Commands stage \<noteq> []
          then (case me_run env (Commands stage) w of (err, w) \<Rightarrow>
                  Some (Return (err, if should_block \<and> err = [] then me_wait env w else w)))
          else if Selections stage \<noteq> []
          then
            let pv = DotJoinParts prompt
            in case me_fzf env (pv @ '' =>> '') (Selections stage) w of
                 (Inl err, w) \<Rightarrow> Some (Return ([Wrapf err ''fuzzy selection [%s]: %w'' [S pv]], w))
               | (Inr idxs, w) \<Rightarrow>
                   (case stage_Resolve stage idxs of
                      Panic p \<Rightarrow> Some (Panic p)
                    | Return op \<Rightarrow>
                        (case op of
                           [] \<Rightarrow> Some (Return ([Errf ''not found'' []], w))
                         | [o1] \<Rightarrow> fuzzy_loop n env conf should_block (prompt @ [o1]) op w
                         | _ \<Rightarrow> fuzzy_loop n env conf should_block
                                 (prompt @ [''['' @ join_with '','' op @ '']'']) op w))
          else Some (Return ([Errf ''unexpect outcome'' []], w)))"

definition fuzzy ::
    "nat \<Rightarrow> ('k, 'w) menu_env \<Rightarrow> 'k Configuration \<Rightarrow> bool \<Rightarrow> string list \<Rightarrow> 'w \<Rightarrow> (errors \<times> 'w) outcome option" where
  "fuzzy n env conf should_block args w =
     fuzzy_loop n env conf should_block [me_hostname env, ''sardis''] args w"

fun DMenu ::
    "nat \<Rightarrow> ('k, 'w) menu_env \<Rightarrow> 'k Configuration \<Rightarrow> string list \<Rightarrow> 'w \<Rightarrow> (errors \<times> 'w) outcome option" where
  "DMenu 0 env conf op w = None"
| "DMenu (Suc n) env conf op w =
     (case ResolveCommands (me_set_add env) (me_hostname env) conf op of
        Panic p \<Rightarrow> Some (Panic p)
      | Return (Inl err) \<Rightarrow> Some (Return ([err], w))
      | Return (Inr stage) \<Rightarrow>
          if Commands stage \<noteq> [] then Some (Return (me_run env (Commands stage) w))
          else if Selections stage \<noteq> []
          then (case me_menu env (Default [] (NextLabel stage) ''sardis'' @ '' ==>>'') (Selections stage) w of
                  (Selection_Missing, w) \<Rightarrow> Some (Return ([], w))
                | (Menu_Error err, w) \<Rightarrow> Some (Return (err, w))
                | (Selected selected, w) \<Rightarrow> DMenu n env conf [DotJoin [Prefix stage, selected]] w)
          else Some (Return ([Errf ''unexpect outcome'' []], w)))"

section \<open>Searches in the tree\<close>

text \<open>The nodes selected at one level: their commands, some of them nil, and their children, which
  make the next level.\<close>

fun narrow_all ::
    "'k Node \<Rightarrow> string list \<Rightarrow> nat list \<Rightarrow> 'k Command option list \<Rightarrow> 'k Node \<Rightarrow>
     ('k Command option list \<times> 'k Node) outcome" where
  "narrow_all tree selections [] cmds nextSearch = Return (cmds, nextSearch)"
| "narrow_all tree selections (sidx # selected) cmds nextSearch =
     (if \<not> sidx < length selections then Panic index_out_of_range
      else case NarrowTo tree (selections ! sidx) of
             None \<Rightarrow> Panic (Errf ''cannot resolve nil nodes in the search'' [])
           | Some sn \<Rightarrow> narrow_all tree selections selected (cmds @ [command sn])
               (Extend nextSearch (map Some (Children sn))))"

fun fuzzySearch :: "nat \<Rightarrow> ('k, 'w) menu_env \<Rightarrow> nat \<Rightarrow> 'k Node \<Rightarrow> 'w \<Rightarrow> (errors \<times> 'w) outcome option" where
  "fuzzySearch 0 env ct tree w = None"
| "fuzzySearch (Suc n) env ct tree w =
     (let ask = (\<lambda>w.
        let selections = KeysAtLevel tree
        in case me_fzf env (me_hostname env @ ''.sardis ==> '') selections w of
             (Inl err, w) \<Rightarrow> Some (Return ([Wrapf err ''fuzzy search selections [%s]: %w'' [S (Node_ID tree)]], w))
           | (Inr selected, w) \<Rightarrow>
               (case narrow_all tree selections selected [] NewNode of
                  Panic p \<Rightarrow> Some (Panic p)
                | Return (cmds, nextSearch) \<Rightarrow>
                    if 0 < length cmds
                    then (case me_run env (List.map_filter (\<lambda>c. c) cmds) w of (err, w) \<Rightarrow>
                            if err \<noteq> [] then Some (Return (err, w))
                            else if Node_Len nextSearch = 0 then Some (Return ([], w))
                            else fuzzySearch n env (ct + 1) nextSearch w)
                    else fuzzySearch n env (ct + 1) nextSearch w))
      in case command tree of
           Some cmd \<Rightarrow>
             (case me_run env [cmd] w of (err, w) \<Rightarrow>
                if \<not> HasChidren tree \<or> err \<noteq> [] then Some (Return (err, w)) else ask w)
         | None \<Rightarrow>
             if \<not> HasChidren tree
             then Some (Return ([Errf ''no further selections at level %d'' [I (int ct)]], w))
             else ask w)"

fun dmenu_search_loop ::
    "nat \<Rightarrow> ('k, 'w) menu_env \<Rightarrow> string list \<Rightarrow> 'k Node option \<Rightarrow> 'w \<Rightarrow> (errors \<times> 'w) option" where
  "dmenu_search_loop 0 env path tree w = None"
| "dmenu_search_loop (Suc n) env path None w =
     Some ([Errf ''no command found named %s []'' [S (DotJoin path)]], w)"
| "dmenu_search_loop (Suc n) env path (Some tree) w =
     (let ask = (\<lambda>w.
        case me_menu env ((if 0 < length path then last path else ''sardis.root'') @ '' =>>'') (KeysAtLevel tree) w of
          (Selection_Missing, w) \<Rightarrow> Some ([], w)
        | (Menu_Error err, w) \<Rightarrow> Some (err, w)
        | (Selected selected, w) \<Rightarrow> dmenu_search_loop n env (path @ [selected]) (NarrowTo tree selected) w)
      in case command tree of
           Some cmd \<Rightarrow>
             if HasChidren tree
             then if 0 < length path \<and> Node_ID tree = last path
                  then (case me_run env [cmd] w of (err, w) \<Rightarrow> if err \<noteq> [] then Some (err, w) else ask w)
                  else ask w
             else Some (me_run env [cmd] w)
         | None \<Rightarrow>
             if \<not> HasChidren tree
             then Some ([Errf ''no further selections at %s'' [S (DotJoin path)]], w)
             else ask w)"

definition dmenuSearch ::
    "nat \<Rightarrow> ('k, 'w) menu_env \<Rightarrow> 'k Configuration \<Rightarrow> string \<Rightarrow> 'w \<Rightarrow> (errors \<times> 'w) option" where
  "dmenuSearch n env conf arg w =
     (let tree = Tree (me_hostname env) conf
      in if arg \<noteq> [] then dmenu_search_loop n env [arg] (NarrowTo tree arg) w
         else dmenu_search_loop n env [] (Some tree) w)"

section \<open>Lists\<close>

text \<open>The rows of the tables, headers included.\<close>

fun group_rows :: "'k Group \<Rightarrow> nat \<Rightarrow> 'k Command list \<Rightarrow> string list list" where
  "group_rows grp idx [] = []"
| "group_rows grp idx (cc # ccs) =
     (if idx = 0 then [g_Category grp, g_Name grp, g_CmdNamePrefix grp, cmd_Name cc, cmd_Command cc]
      else [[], [], [], cmd_Name cc, cmd_Command cc]) # group_rows grp (idx + 1) ccs"

definition listCommands :: "string \<Rightarrow> 'k Configuration \<Rightarrow> string list \<Rightarrow> string list list" where
  "listCommands hostname conf args =
     [''Category'', ''Group'', ''Prefix'', ''Name'', ''Command''] #
     concat (map (\<lambda>(name, grp). if args = [] \<or> name \<in> set args
                                then group_rows grp 0 (g_Commands grp) @ [[[], [], [], [], []]] else [])
       (doExportCommandGroups hostname conf))"

definition listCommandsPlain ::
    "set_add \<Rightarrow> string \<Rightarrow> 'k Configuration \<Rightarrow> (go_error + string list) outcome" where
  "listCommandsPlain set_add hostname conf =
     (case ResolveCommands set_add hostname conf [] of
        Panic p \<Rightarrow> Panic p
      | Return (Inl err) \<Rightarrow> Return (Inl err)
      | Return (Inr stage) \<Rightarrow>
          if length (Selections stage) \<noteq> 0
          then Return (Inl (Errf ''found invalid selections %s'' [L (Selections stage)]))
          else if length (Commands stage) = 0 then Return (Inl (Errf ''no commands defined'' []))
          else Return (Inr (if length (Prefixed stage) \<noteq> 0 then Prefixed stage else Selections stage)))"

definition shorten :: "string \<Rightarrow> string" where
  "shorten c = (if 48 < length c then ''<'' @ take 48 c @ ''...>'' else c)"

definition command_rows :: "string \<Rightarrow> 'k Command \<Rightarrow> string list list" where
  "command_rows homedir cmd =
     (let dir = (if cmd_Directory cmd = homedir then [] else cmd_Directory cmd);
          cmds = map shorten (cmd_Command cmd # cmd_Commands cmd)
      in case cmds of
           [] \<Rightarrow> []
         | chunk # chunks \<Rightarrow>
             [cmd_Name cmd, chunk, TryCollapseHomeDir homedir dir] # map (\<lambda>chunk. [[], [], chunk, []]) chunks)"

definition listCommandsWithInfo :: "string \<Rightarrow> string \<Rightarrow> 'k Configuration \<Rightarrow> string list list" where
  "listCommandsWithInfo homedir hostname conf =
     [''Name'', ''Command'', ''Directory''] #
     concat (map (command_rows homedir) (doExportAllCommands hostname conf))"

section \<open>The searches end\<close>

fun node_height :: "'k Node \<Rightarrow> nat" where
  "node_height (Node w c ch) = Suc (foldr max (map (\<lambda>(k, n). node_height n) ch) 0)"

lemma foldr_max_le: "x \<in> set xs \<Longrightarrow> x \<le> foldr max xs (0 :: nat)"
  by (induction xs) auto

lemma foldr_max_bound: "(\<And>x. x \<in> set xs \<Longrightarrow> x \<le> b) \<Longrightarrow> foldr max xs (0 :: nat) \<le> b"
  by (induction xs) auto

lemma node_height_child: "m \<in> set (Children n) \<Longrightarrow> node_height m < node_height n"
proof (cases n)
  case (Node w c ch)
  assume "m \<in> set (Children n)"
  then obtain k where "(k, m) \<in> set ch" by (auto simp: Children_def Node)
  then have "node_height m \<in> set (map (\<lambda>(k, n). node_height n) ch)" by force
  from foldr_max_le[OF this] show ?thesis by (simp add: Node)
qed

lemma node_height_bound: "(\<And>m. m \<in> set (Children n) \<Longrightarrow> node_height m < b) \<Longrightarrow> 0 < b \<Longrightarrow> node_height n \<le> b"
proof (cases n)
  case (Node w c ch)
  assume *: "\<And>m. m \<in> set (Children n) \<Longrightarrow> node_height m < b" and "0 < b"
  have "foldr max (map (\<lambda>(k, n). node_height n) ch) 0 \<le> b - 1"
    using * by (intro foldr_max_bound) (fastforce simp: Children_def Node)
  with \<open>0 < b\<close> show ?thesis by (simp add: Node)
qed

lemma NarrowTo_child: "NarrowTo n k = Some m \<Longrightarrow> m \<in> set (Children n)"
  unfolding NarrowTo_def child_def Children_def by (force dest: map_of_SomeD)

lemma Children_set_child: "m \<in> set (Children (set_child k c n)) \<Longrightarrow> m = c \<or> m \<in> set (Children n)"
  by (cases n) (auto simp: Children_def dest!: set_upd_subset)

lemma Children_Extend:
  "m \<in> set (Children (Extend n (map Some ns))) \<Longrightarrow> m \<in> set ns \<or> m \<in> set (Children n)"
proof (induction ns arbitrary: n)
  case (Cons a ns)
  then have "m \<in> set ns \<or> m \<in> set (Children (set_child (word a) a n))"
    by (simp add: Extend_def Push_def)
  then show ?case using Children_set_child by auto
qed (simp add: Extend_def)

lemma narrow_all_children:
  assumes "narrow_all tree selections selected cmds next0 = Return (cmds', next')"
    and "m \<in> set (Children next')"
  shows "m \<in> set (Children next0) \<or> (\<exists>sn \<in> set (Children tree). m \<in> set (Children sn))"
  using assms
proof (induction tree selections selected cmds next0 rule: narrow_all.induct)
  case (2 tree selections sidx selected cmds next0)
  then obtain sn where sn: "sidx < length selections" "NarrowTo tree (selections ! sidx) = Some sn"
    by (auto split: if_splits option.splits)
  with 2 have "m \<in> set (Children (Extend next0 (map Some (Children sn)))) \<or>
      (\<exists>sn \<in> set (Children tree). m \<in> set (Children sn))"
    by simp
  with sn(2) show ?case by (auto dest!: Children_Extend NarrowTo_child)
qed simp

lemma node_height_pos [simp]: "0 < node_height n"
  by (cases n) simp

lemma HasChidren_iff: "HasChidren n \<longleftrightarrow> Children n \<noteq> []"
  by (simp add: HasChidren_def Node_Len_def Children_def)

lemma Children_NewNode [simp]: "Children NewNode = []"
  by (simp add: Children_def NewNode_def)

text \<open>The next level of a fuzzy search is lower than the level it is made from.\<close>

lemma narrow_all_height:
  assumes "narrow_all tree selections selected [] NewNode = Return (cmds', next')" and "HasChidren tree"
  shows "node_height next' < node_height tree"
proof -
  have "Children tree \<noteq> []" using assms(2) by (simp add: HasChidren_iff)
  then obtain m where m: "m \<in> set (Children tree)" using hd_in_set by blast
  have "node_height next' \<le> node_height tree - 1"
  proof (rule node_height_bound)
    fix x assume "x \<in> set (Children next')"
    from narrow_all_children[OF assms(1) this] obtain sn
      where "sn \<in> set (Children tree)" "x \<in> set (Children sn)" by auto
    then show "node_height x < node_height tree - 1"
      using node_height_child[of sn tree] node_height_child[of x sn] by simp
  next
    show "0 < node_height tree - 1" using node_height_child[OF m] node_height_pos[of m] by linarith
  qed
  then show ?thesis using node_height_pos[of tree] by linarith
qed

lemma fuzzySearch_ends: "node_height tree \<le> n \<Longrightarrow> fuzzySearch n env ct tree w \<noteq> None"
proof (induction n arbitrary: ct tree w)
  case 0
  then show ?case using node_height_pos[of tree] by simp
next
  case (Suc n)
  show ?case
  proof (cases "HasChidren tree")
    case True
    have go: "fuzzySearch n env (ct + 1) nxt w' \<noteq> None"
      if "narrow_all tree (KeysAtLevel tree) sel [] NewNode = Return (cmds, nxt)" for sel cmds nxt w'
      using narrow_all_height[OF that True] Suc by (intro Suc.IH) simp
    show ?thesis
      using True go
      by (auto simp: Let_def split: option.splits prod.splits sum.splits outcome.splits)
  next
    case False
    then show ?thesis by (auto simp: Let_def split: option.splits prod.splits)
  qed
qed

lemma dmenu_search_ends: "(case tree of None \<Rightarrow> 0 | Some t \<Rightarrow> node_height t) < n \<Longrightarrow>
    dmenu_search_loop n env path tree w \<noteq> None"
proof (induction n arbitrary: path tree w)
  case (Suc n)
  show ?case
  proof (cases tree)
    case (Some t)
    have go: "dmenu_search_loop n env p (NarrowTo t k) w' \<noteq> None" for p k w'
    proof (rule Suc.IH)
      show "(case NarrowTo t k of None \<Rightarrow> 0 | Some t \<Rightarrow> node_height t) < n"
        using Suc.prems node_height_pos[of t] node_height_child[OF NarrowTo_child, of t k]
        unfolding Some option.case by (cases "NarrowTo t k"; simp del: node_height_pos; linarith?; fastforce?)
    qed
    have ask: "(case me_menu env prompt keys w' of
          (Selection_Missing, w) \<Rightarrow> Some ([], w)
        | (Menu_Error err, w) \<Rightarrow> Some (err, w)
        | (Selected selected, w) \<Rightarrow> dmenu_search_loop n env (path @ [selected]) (NarrowTo t selected) w) \<noteq> None"
      for prompt keys w'
      by (simp add: go del: not_None_eq split: prod.split menu_answer.split)
    show ?thesis unfolding Some dmenu_search_loop.simps Let_def
      using ask by (auto simp del: not_None_eq split: option.split prod.split)
  qed simp
qed simp

text \<open>C32: the searches end, whatever the user answers and whatever the commands do. Each answer
  goes down in the tree of commands, so that a search asks at most as many times as the tree is
  high (one more for the menu that searches a name that is not there) and then returns.\<close>

theorem menu_searches_return:
  "fuzzySearch (node_height (Tree host conf) + n) env 0 (Tree host conf) w \<noteq> None \<and>
   dmenuSearch (node_height (Tree (me_hostname env) conf) + 1 + n) env conf arg w \<noteq> None"
proof
  show "fuzzySearch (node_height (Tree host conf) + n) env 0 (Tree host conf) w \<noteq> None"
    by (rule fuzzySearch_ends) simp
  let ?t = "Tree (me_hostname env) conf"
  have "(case NarrowTo ?t arg of None \<Rightarrow> 0 | Some t \<Rightarrow> node_height t) < node_height ?t + 1 + n"
    using node_height_child[OF NarrowTo_child[of ?t arg]] by (fastforce split: option.splits)
  then have "dmenu_search_loop (node_height ?t + 1 + n) env [arg] (NarrowTo ?t arg) w \<noteq> None"
    by (rule dmenu_search_ends)
  moreover have "dmenu_search_loop (node_height ?t + 1 + n) env [] (Some ?t) w \<noteq> None"
    by (rule dmenu_search_ends) simp
  ultimately show "dmenuSearch (node_height ?t + 1 + n) env conf arg w \<noteq> None"
    unfolding dmenuSearch_def Let_def by simp
qed

section \<open>What the menus run\<close>

text \<open>A user whose answers are known in advance, and commands whose failures are given by \<open>f\<close>, which
  may be none. The world is what the user still answers, what the menus offered, and the commands
  that were run.\<close>

type_synonym 'k script = "string list \<times> string list list \<times> 'k Command list list"

definition scripted :: "('k Command list \<Rightarrow> errors) \<Rightarrow> string \<Rightarrow> ('k, 'k script) menu_env" where
  "scripted f hostname =
     \<lparr>me_set_add = list_add, me_hostname = hostname,
      me_run = (\<lambda>cmds (answers, offered, runs). (f cmds, (answers, offered, runs @ [cmds]))),
      me_menu = (\<lambda>prompt sels (answers, offered, runs). case answers of
         [] \<Rightarrow> (Selection_Missing, (answers, offered @ [sels], runs))
       | a # as \<Rightarrow> (Selected a, (as, offered @ [sels], runs))),
      me_fzf = (\<lambda>prompt sels w. (Inl [], w)), me_wait = (\<lambda>w. w)\<rparr>"

lemma scripted_simps [simp]:
  "me_set_add (scripted f h) = list_add" "me_hostname (scripted f h) = h"
  "me_run (scripted f h) cmds (answers, offered, runs) = (f cmds, (answers, offered, runs @ [cmds]))"
  "me_menu (scripted f h) prompt sels (a # as, offered, runs) = (Selected a, (as, offered @ [sels], runs))"
  by (simp_all add: scripted_def)

fun well_worded :: "'k Node \<Rightarrow> bool" where
  "well_worded (Node w c ch) \<longleftrightarrow> list_all (\<lambda>(k, n). word n = k \<and> well_worded n) ch"

lemma word_simps [simp]:
  "word (set_child k c n) = word n" "word (set_command cmd n) = word n" "word (set_word w n) = w"
  by (cases n; simp)+

lemma word_add_parts [simp]: "word (add_parts ps cmd n) = word n"
  by (cases ps) (simp_all add: Let_def)

lemma well_worded_simps:
  "well_worded (set_command cmd n) = well_worded n" "well_worded (set_word w NewNode)" "well_worded NewNode"
  by (cases n; simp add: NewNode_def)+

lemma well_worded_set_child: "well_worded n \<Longrightarrow> word c = k \<Longrightarrow> well_worded c \<Longrightarrow> well_worded (set_child k c n)"
  by (cases n) (auto simp: list_all_iff dest!: set_upd_subset)

lemma well_worded_child: "well_worded n \<Longrightarrow> child k n = Some c \<Longrightarrow> word c = k \<and> well_worded c"
  by (cases n) (auto simp: child_def list_all_iff dest!: map_of_SomeD)

lemma well_worded_add_parts: "well_worded n \<Longrightarrow> well_worded (add_parts parts cmd n)"
proof (induction parts cmd n rule: add_parts.induct)
  case (2 elem rest cmd prev)
  define nxt where "nxt = (case child elem prev of Some c \<Rightarrow> c | None \<Rightarrow> set_word elem NewNode)"
  have "well_worded nxt \<and> word nxt = elem"
    using well_worded_child[OF 2(2)] by (auto simp: nxt_def well_worded_simps split: option.splits)
  then have "well_worded (if rest = [] then set_command cmd nxt else nxt) \<and>
      word (if rest = [] then set_command cmd nxt else nxt) = elem"
    by (simp add: well_worded_simps)
  with 2 show ?case by (simp add: nxt_def[symmetric] well_worded_set_child)
qed simp

lemma well_worded_Tree: "well_worded (Tree h conf)"
proof -
  have "well_worded n \<Longrightarrow> well_worded (fold Node_add cs n)" for cs and n :: "'a Node"
    by (induction cs arbitrary: n) (simp_all add: Node_add_def well_worded_add_parts)
  then show ?thesis by (simp add: Tree_def NewCommandTree_def well_worded_simps)
qed

lemma Tree_root: "command (Tree h conf) = None"
proof -
  have "find_path [] (fold Node_add cs NewNode) = None" for cs :: "'a Command list"
    by (simp only: tree_index.lookup_fold) (simp add: NewNode_def find_None_iff split: option.split)
  then show ?thesis by (simp add: Tree_def NewCommandTree_def)
qed

text \<open>The commands at the nodes of a path below a node.\<close>

fun commands_along :: "string list \<Rightarrow> 'k Node \<Rightarrow> 'k Command list" where
  "commands_along [] n = []"
| "commands_along (k # ps) n =
     (case child k n of
        None \<Rightarrow> []
      | Some m \<Rightarrow> (case command m of None \<Rightarrow> [] | Some c \<Rightarrow> [c]) @ commands_along ps m)"

lemma commands_along_last:
  "itersearch ps n = Some leaf \<Longrightarrow> command leaf = Some c \<Longrightarrow> ps \<noteq> [] \<Longrightarrow>
     commands_along ps n \<noteq> [] \<and> last (commands_along ps n) = c"
proof (induction ps arbitrary: n)
  case (Cons k ps)
  then show ?case by (cases "ps = []") (auto split: option.splits)
qed simp

lemma child_HasChidren: "child k n = Some m \<Longrightarrow> HasChidren n"
  by (cases n) (auto simp: child_def HasChidren_def Node_Len_def)

text \<open>What the menus along a path offer, from the node on.\<close>

fun keys_along :: "string list \<Rightarrow> 'k Node \<Rightarrow> string list list" where
  "keys_along [] n = []"
| "keys_along (k # ps) n =
     KeysAtLevel n # (case child k n of None \<Rightarrow> [] | Some m \<Rightarrow> keys_along ps m)"

text \<open>The errors of the first command that fails.\<close>

definition first_failure :: "('k Command list \<Rightarrow> errors) \<Rightarrow> 'k Command list \<Rightarrow> errors" where
  "first_failure f cs = (case find (\<lambda>c. f [c] \<noteq> []) cs of None \<Rightarrow> [] | Some c \<Rightarrow> f [c])"

lemma first_failure_Cons:
  "first_failure f (c # cs) = (if f [c] \<noteq> [] then f [c] else first_failure f cs)"
  "first_failure f [] = []"
  by (simp_all add: first_failure_def)

text \<open>Where a search stops: at the end of the path when nothing fails, and at the node of the command
  that fails otherwise.\<close>

definition stops_at :: "('k Command list \<Rightarrow> errors) \<Rightarrow> errors \<Rightarrow> nat \<Rightarrow> string list \<Rightarrow> 'k Node \<Rightarrow> bool" where
  "stops_at f err k ps n \<longleftrightarrow>
     (if err = [] then k = length ps
      else \<exists>node d. itersearch (take k ps) n = Some node \<and> command node = Some d \<and> f [d] = err)"

lemma stops_at_child: "child k n = Some m \<Longrightarrow> stops_at f err i ps m \<Longrightarrow> stops_at f err (Suc i) (k # ps) n"
  by (simp add: stops_at_def split: if_splits)

lemma search_walk:
  assumes "itersearch ps n = Some leaf" and "command leaf \<noteq> None" and "children leaf = []" and "well_worded n"
    and "if path = [] then command n = None else word n = last path"
    and "cs = (case command n of None \<Rightarrow> [] | Some c \<Rightarrow> [c]) @ commands_along ps n"
  shows "\<exists>k \<le> length ps. stops_at f (first_failure f cs) k ps n \<and>
    dmenu_search_loop (Suc (length ps + fuel)) (scripted f h) path (Some n) (ps, offered, runs) =
      Some (first_failure f cs, (drop k ps, offered @ take k (keys_along ps n),
        runs @ map (\<lambda>c. [c]) (upto_first (\<lambda>c. f [c] \<noteq> []) cs)))"
  using assms
proof (induction ps arbitrary: n path offered runs cs)
  case Nil
  then show ?case by (auto simp: HasChidren_def Node_Len_def first_failure_def stops_at_def split: if_splits)
next
  case (Cons k ps)
  then obtain m where m: "child k n = Some m" "itersearch ps m = Some leaf" by (auto split: option.splits)
  note w = well_worded_child[OF Cons.prems(4) m(1)]
  define ds where "ds = (case command m of None \<Rightarrow> [] | Some c \<Rightarrow> [c]) @ commands_along ps m"
  have path: "if path @ [k] = [] then command m = None else word m = last (path @ [k])" by (simp add: w)
  have step: "\<exists>i \<le> length ps. stops_at f (first_failure f ds) i ps m \<and>
      dmenu_search_loop (Suc (length ps + fuel)) (scripted f h) (path @ [k]) (Some m) (ps, offered', runs') =
      Some (first_failure f ds, (drop i ps, offered' @ take i (keys_along ps m),
        runs' @ map (\<lambda>c. [c]) (upto_first (\<lambda>c. f [c] \<noteq> []) ds)))" for offered' runs'
    by (rule Cons.IH[OF m(2) Cons.prems(2,3) conjunct2[OF w] path ds_def])
  have e: "Suc (length (k # ps) + fuel) = Suc (Suc (length ps + fuel))" by simp
  have narrow: "NarrowTo n k = Some m" using m(1) by (simp add: NarrowTo_def)
  have cs: "cs = (case command n of None \<Rightarrow> [] | Some c \<Rightarrow> [c]) @ ds"
    using Cons.prems(6) m(1) by (simp add: ds_def)
  have ask: "\<exists>i \<le> length (k # ps). stops_at f (first_failure f ds) i (k # ps) n \<and>
      dmenu_search_loop (Suc (length ps + fuel)) (scripted f h) (path @ [k]) (Some m)
        (ps, offered @ [KeysAtLevel n], runs') =
      Some (first_failure f ds, (drop i (k # ps), offered @ take i (keys_along (k # ps) n),
        runs' @ map (\<lambda>c. [c]) (upto_first (\<lambda>c. f [c] \<noteq> []) ds)))" for runs'
  proof -
    obtain i where "i \<le> length ps" "stops_at f (first_failure f ds) i ps m"
      "dmenu_search_loop (Suc (length ps + fuel)) (scripted f h) (path @ [k]) (Some m)
          (ps, offered @ [KeysAtLevel n], runs') =
        Some (first_failure f ds, (drop i ps, (offered @ [KeysAtLevel n]) @ take i (keys_along ps m),
        runs' @ map (\<lambda>c. [c]) (upto_first (\<lambda>c. f [c] \<noteq> []) ds)))"
      using step by blast
    then show ?thesis by (intro exI[of _ "Suc i"]) (simp add: m(1) stops_at_child del: dmenu_search_loop.simps)
  qed
  show ?case
  proof (cases "command n")
    case None
    then show ?thesis unfolding e using ask[of runs] child_HasChidren[OF m(1)]
      by (simp add: narrow cs del: dmenu_search_loop.simps(3) add: dmenu_search_loop.simps(3)[of "Suc (length ps + fuel)"])
  next
    case (Some c)
    then have p: "path \<noteq> []" "word n = last path" using Cons.prems(5) by (auto split: if_splits)
    show ?thesis
    proof (cases "f [c] = []")
      case True
      then show ?thesis unfolding e using ask[of "runs @ [[c]]"] child_HasChidren[OF m(1)] Some p
        by (simp add: narrow cs Node_ID_def first_failure_Cons
            del: dmenu_search_loop.simps(3) add: dmenu_search_loop.simps(3)[of "Suc (length ps + fuel)"])
    next
      case False
      then show ?thesis unfolding e using child_HasChidren[OF m(1)] Some p
        by (intro exI[of _ 0]) (simp add: stops_at_def narrow cs Node_ID_def first_failure_Cons
            del: dmenu_search_loop.simps(3) add: dmenu_search_loop.simps(3)[of "Suc (length ps + fuel)"])
    qed
  qed
qed

text \<open>C31: searching with the menu. When the answers are the words of a path that ends at a command
  without further commands below it, the search runs the commands along the path, from the
  shortest to the whole path and each by itself, up to the first one that fails, whose error it
  returns without asking further. The menus offer the words below the path so far. When no
  command fails every answer is used and the last command that runs is the one that the path names.\<close>

theorem dmenu_search_follows_path:
  assumes "itersearch ps (Tree h conf) = Some leaf" and "command leaf = Some c" and "children leaf = []"
    and "ps \<noteq> []" and "cs = commands_along ps (Tree h conf)"
  shows "\<exists>k \<le> length ps. stops_at f (first_failure f cs) k ps (Tree h conf) \<and>
    dmenuSearch (length ps + 1 + n) (scripted f h) conf [] (ps, [], []) =
      Some (first_failure f cs,
        (drop k ps, take k (keys_along ps (Tree h conf)), map (\<lambda>c. [c]) (upto_first (\<lambda>c. f [c] \<noteq> []) cs))) \<and>
    (first_failure f cs = [] \<longrightarrow> upto_first (\<lambda>c. f [c] \<noteq> []) cs = cs) \<and>
    last cs = c \<and> find_path ps (Tree h conf) = Some c"
proof -
  have "cs = (case command (Tree h conf) of None \<Rightarrow> [] | Some c \<Rightarrow> [c]) @ commands_along ps (Tree h conf)"
    by (simp add: Tree_root assms(5))
  note walk' = search_walk[OF assms(1) _ assms(3) well_worded_Tree _ this, of "[]" f n h "[]" "[]"]
  have e: "length ps + 1 + n = Suc (length ps + n)" by simp
  have all: "upto_first (\<lambda>c. f [c] \<noteq> []) cs = cs" if "first_failure f cs = []"
    by (rule upto_first_none) (use that in \<open>auto simp: first_failure_def find_None_iff find_Some_iff split: option.splits\<close>)
  have "find_path ps (Tree h conf) = Some c" using assms(1,2) by (simp add: find_path_def)
  moreover have "last cs = c" using commands_along_last[OF assms(1,2,4)] assms(5) by simp
  ultimately show ?thesis
    using walk' assms(2) all unfolding e dmenuSearch_def by (auto simp: Tree_root Let_def simp del: dmenu_search_loop.simps)
qed

lemma FilterCommands_one:
  assumes "c \<in> set cmds"
  obtains d where "find (\<lambda>d. NamePrime d = NamePrime c) cmds = Some d"
    and "FilterCommands list_add cmds [NamePrime c] = Inr [d]"
proof -
  let ?out = "fst (keep_first list_add [NamePrime c] cmds [])"
  have ok: "set_add_ok list_add" by (simp add: set_add_ok_def list_add_def)
  note f = keep_first_facts[OF ok, of "[NamePrime c]" cmds "[]"]
  have s: "set (map NamePrime ?out) = {NamePrime c}" using f assms by auto
  with f have "length ?out = 1" by (metis One_nat_def card.empty card_insert_disjoint distinct_card empty_iff finite.emptyI length_map)
  then obtain d where d: "?out = [d]" by (auto simp: length_Suc_conv)
  with s f have "find (\<lambda>d. NamePrime d = NamePrime c) cmds = Some d" by auto
  moreover have "FilterCommands list_add cmds [NamePrime c] = Inr [d]"
    using assms d by (auto simp: FilterCommands_def Let_def case_prod_unfold)
  ultimately show thesis by (rule that)
qed

text \<open>C33: the menu of all commands. Started without arguments, the menu is asked once and offers
  exactly the full names of the commands, in their order; an answer that is one of them, and neither a
  keyword nor the name or an alias of a group, runs the first command of that name, alone and once, and
  the result is that of the command, failure included.\<close>

theorem dmenu_runs_selection:
  assumes "c \<in> set (doExportAllCommands h conf)" and "name = NamePrime c" and "name \<noteq> []"
    and "name \<notin> set ([''all'', ''a''] @ group_keywords)" and "map_of (doExportCommandGroups h conf) name = None"
  shows "\<exists>d. find (\<lambda>d. NamePrime d = name) (doExportAllCommands h conf) = Some d \<and>
    DMenu (2 + n) (scripted f h) conf [] ([name], [], []) =
      Some (Return (f [d], ([], [map NamePrime (doExportAllCommands h conf)], [[d]])))"
proof -
  obtain d where d: "find (\<lambda>d. NamePrime d = name) (doExportAllCommands h conf) = Some d"
    "FilterCommands list_add (doExportAllCommands h conf) [name] = Inr [d]"
    using FilterCommands_one[OF assms(1)] assms(2) by blast
  have all: "ResolveCommands list_add h conf [] = Return (Inr (all_stage (doExportAllCommands h conf)))"
    by (simp add: ResolveCommands_def Let_def)
  have "ResolveCommands list_add h conf [name] =
      Return (Inr (stage0\<lparr>NextLabel := ''sardis'', Commands := [d]\<rparr>))"
    using assms(4,5) d(2) by (simp add: ResolveCommands_def Let_def group_keywords_def)
  moreover have "doExportAllCommands h conf \<noteq> []" using assms(1) by auto
  moreover have "DotJoin [[], name] = name" using assms(3) by (simp add: DotJoin_def DotJoinParts_def)
  ultimately show ?thesis
    using d(1) all by (simp add: all_stage_def stage0_def)
qed

section \<open>Examples\<close>

lemma two_files_exports:
  "doExportAllCommands ''me'' two_files = [demo_cmd ''repo.pull'' ''git pull'', demo_cmd ''repo.push'' ''git push'']"
  by (simp add: doExportAllCommands_def two_files_def local_ssh_def empty_Configuration_def demo_cmd_def
      empty_Command_def empty_Group_def DotJoin_def DotJoinParts_def)

lemma two_files_paths:
  "SparseString (DotSplit (NamePrime (demo_cmd ''repo.pull'' ''git pull''))) = [''repo'', ''pull'']"
  "SparseString (DotSplit (NamePrime (demo_cmd ''repo.push'' ''git push''))) = [''repo'', ''push'']"
  by (simp_all add: demo_cmd_def NamePrime_def empty_Command_def DotSplit_def)

lemma two_files_tree:
  "Tree ''me'' two_files = Node [] None
     [(''repo'', Node ''repo'' None
        [(''pull'', Node ''pull'' (Some (demo_cmd ''repo.pull'' ''git pull'')) []),
         (''push'', Node ''push'' (Some (demo_cmd ''repo.push'' ''git push'')) [])])]"
  by (simp add: Tree_def NewCommandTree_def two_files_exports Node_add_def two_files_paths NewNode_def
      child_def Let_def del: SparseString_filter)

theorem dmenu_search_follows_path_witness:
  "dmenuSearch 3 (scripted (\<lambda>_. []) ''me'') two_files [] ([''repo'', ''pull''], [], []) =
     Some ([], ([], [[''repo''], [''pull'', ''push'']], [[demo_cmd ''repo.pull'' ''git pull'']]))"
proof -
  have path: "itersearch [''repo'', ''pull''] (Tree ''me'' two_files) =
      Some (Node ''pull'' (Some (demo_cmd ''repo.pull'' ''git pull'')) [])"
    by (simp add: two_files_tree child_def)
  have cs: "commands_along [''repo'', ''pull''] (Tree ''me'' two_files) = [demo_cmd ''repo.pull'' ''git pull'']"
    by (simp add: two_files_tree child_def)
  have offered: "keys_along [''repo'', ''pull''] (Tree ''me'' two_files) = [[''repo''], [''pull'', ''push'']]"
    by (simp add: two_files_tree child_def KeysAtLevel_def)
  show ?thesis
    using dmenu_search_follows_path[OF path _ _ _ cs[symmetric], of "demo_cmd ''repo.pull'' ''git pull''" "\<lambda>_. []" 0]
    by (auto simp: first_failure_Cons stops_at_def offered numeral_3_eq_3 simp del: dmenu_search_loop.simps keys_along.simps)
qed

theorem dmenu_runs_selection_witness:
  "\<exists>d. find (\<lambda>d. NamePrime d = ''repo.push'') (doExportAllCommands ''me'' two_files) = Some d \<and>
     DMenu 2 (scripted (\<lambda>_. []) ''me'') two_files [] ([''repo.push''], [], []) =
       Some (Return ([], ([], [[''repo.pull'', ''repo.push'']], [[d]])))"
proof -
  have mem: "demo_cmd ''repo.push'' ''git push'' \<in> set (doExportAllCommands ''me'' two_files)"
    by (simp add: two_files_exports)
  have name: "''repo.push'' = NamePrime (demo_cmd ''repo.push'' ''git push'')"
    by (simp add: demo_cmd_def NamePrime_def empty_Command_def)
  have "map_of (doExportCommandGroups ''me'' two_files) ''repo.push'' = None"
    by (simp add: doExportCommandGroups_def two_files_def empty_Configuration_def local_ssh_def
        empty_Group_def group_key_def DotJoin_def DotJoinParts_def)
  from dmenu_runs_selection[OF mem name _ _ this, of 0 "\<lambda>_. []"] show ?thesis
    by (simp add: group_keywords_def two_files_exports demo_cmd_def NamePrime_def empty_Command_def
        del: DMenu.simps)
qed

end
