(* ===== verification/Tools.thy ===== *)
theory Tools
  imports Srv Jasper
begin

text \<open>
  The small tools: \<open>tools/dupe\<close> (files of a tree that a mirror has too), \<open>tools/depgraph\<close> (the
  dependencies of the packages of a module) and \<open>tools/execpath\<close> (the programs on the search path
  and the options for the package manager). Walking the file system and loading packages are
  parameters.
\<close>

section \<open>tools/dupe\<close>

text \<open>What a walk meets, in its order: an error, a directory or another thing that is not a regular
  file, or a regular file with what opening and reading it answers.\<close>

datatype walk_entry = Walk_Error errors | Not_Regular string | Regular string "errors + string"

datatype OperationType = OperationNone | OperationDelete | OperationDisplay

datatype DiffMode = DiffMissing | DiffSame | Diff

record Options =
  o_Target :: string
  o_Mirror :: string
  o_Mode :: DiffMode
  o_Header :: string
  o_Operation :: OperationType

type_synonym tree_state = "(string \<times> string) list"

definition slice_out_of_range :: go_error where
  "slice_out_of_range = Errf ''slice bounds out of range'' []"

fun read_entries :: "string \<Rightarrow> walk_entry list \<Rightarrow> tree_state \<Rightarrow> (errors + tree_state) outcome" where
  "read_entries root [] out = Return (Inr out)"
| "read_entries root (Walk_Error err # es) out = Return (Inl err)"
| "read_entries root (Not_Regular path # es) out = read_entries root es out"
| "read_entries root (Regular path (Inl err) # es) out = Return (Inl err)"
| "read_entries root (Regular path (Inr content) # es) out =
     (if length path < length root + 1 then Panic slice_out_of_range
      else read_entries root es
        (upd (drop (length root + 1) path) (trim content [CHR 0x0A, CHR 0x09, CHR '' '']) out))"

definition readTree :: "(string \<Rightarrow> walk_entry list) \<Rightarrow> string \<Rightarrow> (errors + tree_state) outcome" where
  "readTree tree root = read_entries root (tree root) []"

definition dupe_Find :: "(string \<Rightarrow> walk_entry list) \<Rightarrow> Options \<Rightarrow> (errors + string list) outcome" where
  "dupe_Find tree opts =
     (case readTree tree (o_Target opts) of
        Panic p \<Rightarrow> Panic p
      | Return (Inl err) \<Rightarrow> Return (Inl err)
      | Return (Inr target) \<Rightarrow>
          (case readTree tree (o_Mirror opts) of
             Panic p \<Rightarrow> Panic p
           | Return (Inl err) \<Rightarrow> Return (Inl err)
           | Return (Inr mirror) \<Rightarrow>
               Return (Inr (sort (map (\<lambda>(path, tc). path_join [o_Target opts, path])
                 (filter (\<lambda>(path, tc). map_of mirror path = Some tc) target))))))"

section \<open>tools/depgraph\<close>

text \<open>What the loader answers for a package, and for each of its imports: the path that the type
  checker found, when it ran, and the path in the source.\<close>

record loaded_import =
  im_Types :: "string option"
  im_PkgPath :: string

record loaded_package =
  lp_PkgPath :: string
  lp_Errors :: errors
  lp_Module :: "string option"
  lp_Imports :: "loaded_import list"

type_synonym DepGraph = "(string \<times> string list) list"

definition Packages :: "DepGraph \<Rightarrow> string list" where
  "Packages g = sort (map fst g)"

definition pkgPath :: "loaded_import \<Rightarrow> string" where
  "pkgPath imp = (case im_Types imp of Some path \<Rightarrow> path | None \<Rightarrow> im_PkgPath imp)"

definition intraModuleDeps :: "loaded_package \<Rightarrow> string \<Rightarrow> string list" where
  "intraModuleDeps pkg modulePath =
     sort (filter (\<lambda>path. modulePath = [] \<or> has_prefix (lp_PkgPath pkg) modulePath)
       (unique (map pkgPath (lp_Imports pkg))))"

fun firstModulePath :: "loaded_package list \<Rightarrow> string" where
  "firstModulePath [] = []"
| "firstModulePath (pkg # pkgs) = (case lp_Module pkg of Some path \<Rightarrow> path | None \<Rightarrow> firstModulePath pkgs)"

fun scan_packages :: "string \<Rightarrow> loaded_package list \<Rightarrow> errors \<Rightarrow> DepGraph \<Rightarrow> errors \<times> DepGraph" where
  "scan_packages modulePath [] ec graph = (ec, graph)"
| "scan_packages modulePath (pkg # pkgs) ec graph =
     scan_packages modulePath pkgs (ec @ lp_Errors pkg)
       (if modulePath = [] \<or> has_prefix (lp_PkgPath pkg) modulePath
        then upd (lp_PkgPath pkg) (intraModuleDeps pkg modulePath) graph else graph)"

definition Scan :: "(string \<Rightarrow> errors + loaded_package list) \<Rightarrow> string \<Rightarrow> errors + DepGraph" where
  "Scan load dir =
     (case load dir of
        Inl err \<Rightarrow> Inl [Wrapf err ''depgraph: loading packages: %w'' []]
      | Inr pkgs \<Rightarrow>
          (case scan_packages (firstModulePath pkgs) pkgs [] [] of (ec, graph) \<Rightarrow>
             if ec \<noteq> [] then Inl ec else Inr graph))"

section \<open>tools/execpath\<close>

text \<open>A directory of the search path that does not exist gives a random name instead of a path. What
  the walk of a directory meets: its paths, with whether each is a directory.\<close>

definition FindAll ::
    "(string \<Rightarrow> stat_result) \<Rightarrow> (string \<Rightarrow> string) \<Rightarrow> (string \<Rightarrow> (string \<times> bool) list) \<Rightarrow> string \<Rightarrow> string list" where
  "FindAll stat new_uuid tree PATH =
     concat (map (\<lambda>path.
         if \<not> FileExists stat path then [new_uuid path]
         else
           let found = map trim_space (map fst (filter (\<lambda>(p, is_dir). \<not> is_dir \<and> trim_space p \<noteq> []) (tree path)))
           in filter (\<lambda>p. p \<noteq> [] \<and> stat p = Found False) found)
       (unique (if PATH = [] then [] else split_on (CHR '':'') PATH)))"

datatype PacmanCommand = PacmanCommandQuery | PacmanCommandSync | Pacman_Other string

record PacmanConf =
  pc_Operation :: PacmanCommand
  pc_Confirm :: bool
  pc_Query :: "string list"
  pc_Sync :: "string list"

definition withQuery :: "string list \<Rightarrow> PacmanConf \<Rightarrow> PacmanConf" where
  "withQuery inp c = c\<lparr>pc_Query := pc_Query c @ inp\<rparr>"

definition withSync :: "string list \<Rightarrow> PacmanConf \<Rightarrow> PacmanConf" where
  "withSync inp c = c\<lparr>pc_Sync := pc_Sync c @ inp\<rparr>"

definition PacmanConf_validate :: "PacmanConf \<Rightarrow> errors" where
  "PacmanConf_validate c =
     (case pc_Operation c of
        PacmanCommandSync \<Rightarrow> when_err (length (pc_Query c) = 0)
          (Errf ''cannot specify query options %v with sync command'' [L (pc_Query c)])
      | PacmanCommandQuery \<Rightarrow> when_err (length (pc_Sync c) = 0)
          (Errf ''cannot specify sync options %v with query command'' [L (pc_Sync c)])
      | Pacman_Other op \<Rightarrow> [])"

datatype PacmanArg =
    WithOptions PacmanConf | WithOperation PacmanCommand | SetConfirm bool
  | WithQueryArgs "string list" | WithSyncArgs "string list"

fun apply_arg :: "PacmanArg \<Rightarrow> PacmanConf \<Rightarrow> PacmanConf" where
  "apply_arg (WithOptions inp) c = inp"
| "apply_arg (WithOperation op) c = c\<lparr>pc_Operation := op\<rparr>"
| "apply_arg (SetConfirm b) c = c\<lparr>pc_Confirm := b\<rparr>"
| "apply_arg (WithQueryArgs as) c = withQuery as c"
| "apply_arg (WithSyncArgs as) c = withSync as c"

definition NoConfirm :: PacmanArg where "NoConfirm = SetConfirm False"
definition WithConfirm :: PacmanArg where "WithConfirm = SetConfirm True"

definition PacmanConf_apply :: "PacmanArg list \<Rightarrow> PacmanConf \<Rightarrow> PacmanConf" where
  "PacmanConf_apply args c = fold apply_arg args c"

section \<open>Files that a mirror has too\<close>

text \<open>The files of a walk by their path below the root, and what is compared of them.\<close>

definition regular_files :: "walk_entry list \<Rightarrow> (string \<times> string) list" where
  "regular_files es = List.map_filter (\<lambda>e. case e of Regular path (Inr content) \<Rightarrow> Some (path, content) | _ \<Rightarrow> None) es"

definition trimmed :: "string \<Rightarrow> string" where
  "trimmed content = trim content [CHR 0x0A, CHR 0x09, CHR '' '']"

fun entry_ok :: "string \<Rightarrow> walk_entry \<Rightarrow> bool" where
  "entry_ok root (Walk_Error err) \<longleftrightarrow> False"
| "entry_ok root (Not_Regular path) \<longleftrightarrow> True"
| "entry_ok root (Regular path (Inl err)) \<longleftrightarrow> False"
| "entry_ok root (Regular path (Inr content)) \<longleftrightarrow> length root + 1 \<le> length path"

lemma regular_files_simps [simp]:
  "regular_files [] = []"
  "regular_files (Walk_Error err # es) = regular_files es"
  "regular_files (Not_Regular path # es) = regular_files es"
  "regular_files (Regular path (Inl err) # es) = regular_files es"
  "regular_files (Regular path (Inr content) # es) = (path, content) # regular_files es"
  by (simp_all add: regular_files_def List.map_filter_simps)

lemma read_entries_ok:
  assumes "list_all (entry_ok root) es" and "distinct (map fst out)"
  shows "\<exists>out'. read_entries root es out = Return (Inr out') \<and> distinct (map fst out') \<and>
    map_of out' = map_of out ++ map_of (rev (map (\<lambda>(p, c). (drop (length root + 1) p, trimmed c)) (regular_files es)))"
  using assms
proof (induction root es out rule: read_entries.induct)
  case (5 root path content es out)
  have u: "map_of (upd k v out) = map_of out ++ [k \<mapsto> v]" for k and v :: string by simp
  from 5 show ?case
    by (simp add: trimmed_def[symmetric] u del: map_of_upd map_add_upd)
qed auto

text \<open>The files that a walk of \<open>root\<close> reads, by their path below it: the walk meets no error and gives each
  regular file as \<open>root/rel\<close>. Walking a directory gives the cleaned join of the root and the
  path below it, so this is so when the root is a clean path other than the working directory
  (the single dot) and the root of the file system.\<close>

definition walk_reads :: "(string \<Rightarrow> walk_entry list) \<Rightarrow> string \<Rightarrow> (string \<times> string) list \<Rightarrow> bool" where
  "walk_reads tree root files \<longleftrightarrow>
     (\<forall>e \<in> set (tree root). \<not> (\<exists>err. e = Walk_Error err) \<and> \<not> (\<exists>p err. e = Regular p (Inl err))) \<and>
     regular_files (tree root) = map (\<lambda>(rel, content). (root @ ''/'' @ rel, content)) files \<and>
     distinct (map fst files)"

lemma walk_reads_ok:
  assumes "\<forall>e \<in> set es. \<not> (\<exists>err. e = Walk_Error err) \<and> \<not> (\<exists>p err. e = Regular p (Inl err))"
    and "\<forall>(p, c) \<in> set (regular_files es). length root + 1 \<le> length p"
  shows "list_all (entry_ok root) es"
  using assms
proof (induction es)
  case (Cons e es)
  then show ?case by (cases "(root, e)" rule: entry_ok.cases) auto
qed simp

lemma readTree_walk:
  assumes "walk_reads tree root files"
  shows "\<exists>t. readTree tree root = Return (Inr t) \<and> distinct (map fst t) \<and>
    mset t = mset (map (\<lambda>(rel, content). (rel, trimmed content)) files)"
proof -
  let ?keys = "map (\<lambda>(rel, content). (rel, trimmed content)) files"
  have reg: "regular_files (tree root) = map (\<lambda>(rel, content). (root @ ''/'' @ rel, content)) files"
    using assms by (simp add: walk_reads_def)
  have ok: "list_all (entry_ok root) (tree root)"
    by (rule walk_reads_ok) (use assms in \<open>auto simp: walk_reads_def\<close>)
  have keys: "map (\<lambda>(p, c). (drop (length root + 1) p, trimmed c)) (regular_files (tree root)) = ?keys"
    by (simp add: reg comp_def case_prod_unfold)
  obtain t where t: "readTree tree root = Return (Inr t)" "distinct (map fst t)" "map_of t = map_of (rev ?keys)"
    using read_entries_ok[OF ok, of "[]"] unfolding keys by (auto simp: readTree_def)
  have fst: "map fst ?keys = map fst files" by (simp add: comp_def case_prod_unfold)
  have d: "distinct (map fst (rev ?keys))" using assms by (simp only: rev_map[symmetric] fst distinct_rev walk_reads_def)
  have "set t = set (rev ?keys)" by (rule map_of_inject_set[THEN iffD1, OF t(2) d t(3)])
  moreover have "distinct t" "distinct (rev ?keys)" using t(2) d by (simp_all add: distinct_map)
  ultimately have "mset t = mset (rev ?keys)" using set_eq_iff_mset_eq_distinct by blast
  then have "mset t = mset ?keys" by (simp only: mset_rev)
  with t(1,2) show ?thesis by blast
qed

text \<open>C39: duplicates. When both trees can be read and their walks give the files as the root, a slash
  and the path below it (the root is a clean path and neither the single dot nor the root of the
  file system), the answer is the sorted list of exactly those files of the target for which the
  mirror has a file of the same path below its root with the same contents, up to spaces, tabs and line
  ends at both ends; each is listed once, as the join of the target and its path.\<close>

theorem dupe_finds_same_files:
  assumes "walk_reads tree (o_Target opts) target" and "walk_reads tree (o_Mirror opts) mirror"
  shows "dupe_Find tree opts = Return (Inr (sort (map (\<lambda>(rel, content). path_join [o_Target opts, rel])
    (filter (\<lambda>(rel, content). \<exists>content'. (rel, content') \<in> set mirror \<and> trimmed content' = trimmed content)
      target))))"
proof -
  obtain t where t: "readTree tree (o_Target opts) = Return (Inr t)"
    "mset t = mset (map (\<lambda>(rel, content). (rel, trimmed content)) target)"
    using readTree_walk[OF assms(1)] by blast
  obtain m where m: "readTree tree (o_Mirror opts) = Return (Inr m)" "distinct (map fst m)"
    "mset m = mset (map (\<lambda>(rel, content). (rel, trimmed content)) mirror)"
    using readTree_walk[OF assms(2)] by blast
  have look: "map_of m rel = Some tc \<longleftrightarrow> (\<exists>content. (rel, content) \<in> set mirror \<and> trimmed content = tc)" for rel tc
    using m(2) mset_eq_setD[OF m(3)] by (auto simp: map_of_eq_Some_iff)
  let ?hit = "\<lambda>(rel, tc). map_of m rel = Some tc"
  have "mset (map (\<lambda>(path, tc). path_join [o_Target opts, path]) (filter ?hit t)) =
      image_mset (\<lambda>(path, tc). path_join [o_Target opts, path]) (filter_mset ?hit (mset t))"
    by simp
  also have "\<dots> = mset (map (\<lambda>(rel, content). path_join [o_Target opts, rel])
      (filter (\<lambda>(rel, content). \<exists>content'. (rel, content') \<in> set mirror \<and> trimmed content' = trimmed content) target))"
    by (simp add: t(2) look filter_mset_image_mset image_mset.compositionality comp_def case_prod_unfold)
  finally have "sort (map (\<lambda>(path, tc). path_join [o_Target opts, path]) (filter ?hit t)) =
      sort (map (\<lambda>(rel, content). path_join [o_Target opts, rel])
      (filter (\<lambda>(rel, content). \<exists>content'. (rel, content') \<in> set mirror \<and> trimmed content' = trimmed content) target))"
    by (intro properties_for_sort) simp_all
  then show ?thesis by (simp add: dupe_Find_def t(1) m(1))
qed

definition demo_tree :: "string \<Rightarrow> walk_entry list" where
  "demo_tree root =
     (if root = ''/t'' then [Not_Regular ''/t'', Regular ''/t/a'' (Inr ''x ''), Regular ''/t/b'' (Inr ''y'')]
      else if root = ''.'' then [Not_Regular ''.'', Not_Regular ''c'', Regular ''c/a'' (Inr ''x'')]
      else [Not_Regular ''/m'', Regular ''/m/b'' (Inr ''z''), Regular ''/m/a'' (Inr ''x'')])"

definition demo_options :: Options where
  "demo_options = \<lparr>o_Target = ''/t'', o_Mirror = ''/m'', o_Mode = DiffMissing, o_Header = [],
     o_Operation = OperationDisplay\<rparr>"

theorem dupe_finds_same_files_witness:
  "dupe_Find demo_tree demo_options = Return (Inr [path_join [''/t'', ''a'']])"
proof -
  have target: "walk_reads demo_tree (o_Target demo_options) [(''a'', ''x ''), (''b'', ''y'')]"
    and mirror: "walk_reads demo_tree (o_Mirror demo_options) [(''b'', ''z''), (''a'', ''x'')]"
    by (simp_all add: walk_reads_def demo_tree_def demo_options_def)
  show ?thesis using dupe_finds_same_files[OF target mirror]
    by (simp add: trimmed_def trim_def trim_left_def demo_options_def)
qed

text \<open>With the working directory as the target the first two characters of each path are cut off: the
  duplicate that is found here, \<open>a\<close>, is not a file of the target, whose only file is \<open>c/a\<close>.\<close>

lemma dupe_of_working_directory:
  "dupe_Find demo_tree (demo_options\<lparr>o_Target := ''.''\<rparr>) = Return (Inr [path_join [''.'', ''a'']])"
  by (simp add: dupe_Find_def readTree_def demo_tree_def demo_options_def trim_def trim_left_def)

section \<open>The graph of a module\<close>

lemma scan_packages_spec:
  assumes "distinct (map lp_PkgPath pkgs)"
  shows "fst (scan_packages m pkgs ec graph) = ec @ concat (map lp_Errors pkgs) \<and>
    fst ` set (snd (scan_packages m pkgs ec graph)) =
      fst ` set graph \<union> lp_PkgPath ` {p \<in> set pkgs. m = [] \<or> has_prefix (lp_PkgPath p) m} \<and>
    (\<forall>p. map_of (snd (scan_packages m pkgs ec graph)) p =
      (case find (\<lambda>pkg. lp_PkgPath pkg = p \<and> (m = [] \<or> has_prefix (lp_PkgPath pkg) m)) pkgs of
         Some pkg \<Rightarrow> Some (intraModuleDeps pkg m) | None \<Rightarrow> map_of graph p))"
  using assms
proof (induction m pkgs ec graph rule: scan_packages.induct)
  case (2 m pkg pkgs ec graph)
  have "lp_PkgPath pkg \<notin> lp_PkgPath ` set pkgs" using 2(2) by simp
  then have "\<forall>q \<in> set pkgs. lp_PkgPath q \<noteq> lp_PkgPath pkg" by (metis image_eqI)
  then have "find (\<lambda>q. lp_PkgPath q = lp_PkgPath pkg \<and> P q) pkgs = None" for P
    by (auto simp: find_None_iff)
  moreover from this[of "\<lambda>q. True"] have "find (\<lambda>q. lp_PkgPath q = lp_PkgPath pkg) pkgs = None" by simp
  ultimately show ?case using 2 by (auto split: option.splits)
qed simp

text \<open>C48: the graph of a module. When no package has errors, every package whose path starts with the
  module's path (every package, when there is no module) is in the graph with the paths of all
  its imports, sorted and without duplicates: also of those imports that belong to other modules,
  since it is the package and not the import that is compared with the module's path.\<close>

theorem depgraph_lists_all_imports:
  assumes "load dir = Inr pkgs" and "\<forall>pkg \<in> set pkgs. lp_Errors pkg = []" and "distinct (map lp_PkgPath pkgs)"
    and "inside = (\<lambda>pkg. firstModulePath pkgs = [] \<or> has_prefix (lp_PkgPath pkg) (firstModulePath pkgs))"
  shows "\<exists>g. Scan load dir = Inr g \<and> sorted (Packages g) \<and>
    set (Packages g) = lp_PkgPath ` {pkg \<in> set pkgs. inside pkg} \<and>
    (\<forall>pkg \<in> set pkgs. inside pkg \<longrightarrow>
       (\<exists>deps. map_of g (lp_PkgPath pkg) = Some deps \<and> sorted deps \<and> distinct deps \<and>
          set deps = pkgPath ` set (lp_Imports pkg)))"
proof -
  let ?m = "firstModulePath pkgs"
  obtain ec g where g: "scan_packages ?m pkgs [] [] = (ec, g)" by fastforce
  have s: "fst (scan_packages ?m pkgs [] []) = concat (map lp_Errors pkgs)"
    "fst ` set (snd (scan_packages ?m pkgs [] [])) =
      lp_PkgPath ` {p \<in> set pkgs. ?m = [] \<or> has_prefix (lp_PkgPath p) ?m}"
    "\<forall>p. map_of (snd (scan_packages ?m pkgs [] [])) p =
      (case find (\<lambda>pkg. lp_PkgPath pkg = p \<and> (?m = [] \<or> has_prefix (lp_PkgPath pkg) ?m)) pkgs of
         Some pkg \<Rightarrow> Some (intraModuleDeps pkg ?m) | None \<Rightarrow> map_of [] p)"
    using scan_packages_spec[OF assms(3), of ?m "[]" "[]"] by simp_all
  have ec: "ec = []" using s(1) assms(2) by (simp add: g)
  have keys: "fst ` set g = lp_PkgPath ` {pkg \<in> set pkgs. inside pkg}" using s(2) by (simp add: g assms(4))
  have deps: "map_of g (lp_PkgPath pkg) = Some (intraModuleDeps pkg ?m)" if "pkg \<in> set pkgs" "inside pkg" for pkg
  proof -
    have "find (\<lambda>q. lp_PkgPath q = lp_PkgPath pkg \<and> (?m = [] \<or> has_prefix (lp_PkgPath q) ?m)) pkgs \<noteq> None"
      using that by (auto simp: find_None_iff assms(4))
    then obtain q where q: "find (\<lambda>q. lp_PkgPath q = lp_PkgPath pkg \<and> (?m = [] \<or> has_prefix (lp_PkgPath q) ?m)) pkgs = Some q"
      by auto
    then have "q = pkg" using find_SomeD[OF q] that assms(3) by (auto simp: distinct_map inj_on_def)
    then show ?thesis using s(3) q by (simp add: g)
  qed
  have "sorted (intraModuleDeps pkg ?m) \<and> distinct (intraModuleDeps pkg ?m) \<and>
      set (intraModuleDeps pkg ?m) = pkgPath ` set (lp_Imports pkg)" if "inside pkg" for pkg
    using that by (auto simp: intraModuleDeps_def assms(4) unique_def)
  with deps keys show ?thesis
    by (auto simp: Scan_def assms(1) g ec Packages_def)
qed

definition demo_package :: loaded_package where
  "demo_package = \<lparr>lp_PkgPath = ''m/a'', lp_Errors = [], lp_Module = Some ''m'',
     lp_Imports = [\<lparr>im_Types = Some ''m/b'', im_PkgPath = ''m/b''\<rparr>, \<lparr>im_Types = Some ''fmt'', im_PkgPath = ''fmt''\<rparr>]\<rparr>"

definition demo_packages :: "loaded_package list" where
  "demo_packages =
     [demo_package, \<lparr>lp_PkgPath = ''m/b'', lp_Errors = [], lp_Module = Some ''m'', lp_Imports = []\<rparr>]"

definition demo_load :: "string \<Rightarrow> errors + loaded_package list" where
  "demo_load dir = Inr demo_packages"

theorem depgraph_lists_all_imports_witness:
  "\<exists>g deps. Scan demo_load [] = Inr g \<and> map_of g ''m/a'' = Some deps \<and> set deps = {''m/b'', ''fmt''}"
proof -
  let ?pkgs = demo_packages and ?pkg = demo_package
  have p: "demo_load [] = Inr ?pkgs" "\<forall>pkg \<in> set ?pkgs. lp_Errors pkg = []" "distinct (map lp_PkgPath ?pkgs)"
    and m: "firstModulePath ?pkgs = ''m''"
    by (simp_all add: demo_load_def demo_packages_def demo_package_def)
  have pkg: "?pkg \<in> set ?pkgs" "lp_PkgPath ?pkg = ''m/a''" "pkgPath ` set (lp_Imports ?pkg) = {''m/b'', ''fmt''}"
    by (simp_all add: demo_packages_def demo_package_def pkgPath_def)
  have inside: "firstModulePath ?pkgs = [] \<or> has_prefix (lp_PkgPath ?pkg) (firstModulePath ?pkgs)"
    unfolding m pkg(2) by (simp add: has_prefix_def)
  obtain g where g: "Scan demo_load [] = Inr g" and all: "\<forall>pkg \<in> set ?pkgs.
      firstModulePath ?pkgs = [] \<or> has_prefix (lp_PkgPath pkg) (firstModulePath ?pkgs) \<longrightarrow>
      (\<exists>deps. map_of g (lp_PkgPath pkg) = Some deps \<and> sorted deps \<and> distinct deps \<and>
         set deps = pkgPath ` set (lp_Imports pkg))"
    using depgraph_lists_all_imports[where load = demo_load and dir = "[]", OF p, OF refl] by blast
  from all[rule_format, OF pkg(1) inside] obtain deps
    where "map_of g (lp_PkgPath ?pkg) = Some deps" "set deps = pkgPath ` set (lp_Imports ?pkg)" by blast
  with g show ?thesis unfolding pkg(2,3) by blast
qed

end
