(* ===== verification/Cmdr.thy ===== *)
theory Cmdr
  imports Gadget Tools "HOL-Library.Word"
begin

text \<open>
  How the command line reaches the commands: the flags and arguments of \<open>operations/helpers.go\<close>,
  \<open>cmdr.go\<close>, \<open>util.go\<close> and \<open>gadget.go\<close>. What the flag library answers for a flag is an argument;
  numbers are read by the standard library's rules for a base that the text chooses.
\<close>

section \<open>Numbers in any base\<close>

text \<open>\<open>strconv.ParseUint(s, 0, 64)\<close> and \<open>strconv.ParseInt(s, 0, 64)\<close>.\<close>

definition lower_ascii :: "char \<Rightarrow> char" where
  "lower_ascii c = (let n = (of_char c :: nat) in if 65 \<le> n \<and> n \<le> 90 then char_of (n + 32) else c)"

definition digit_in_any :: "char \<Rightarrow> nat option" where
  "digit_in_any c =
     (let n = (of_char (lower_ascii c) :: nat)
      in if is_digit c then Some (digit_val c) else if 97 \<le> n \<and> n \<le> 122 then Some (n - 87) else None)"

definition base_split :: "string \<Rightarrow> nat \<times> string" where
  "base_split s =
     (if hd s = CHR ''0''
      then if 3 \<le> length s \<and> lower_ascii (s ! 1) = CHR ''b'' then (2, drop 2 s)
           else if 3 \<le> length s \<and> lower_ascii (s ! 1) = CHR ''o'' then (8, drop 2 s)
           else if 3 \<le> length s \<and> lower_ascii (s ! 1) = CHR ''x'' then (16, drop 2 s)
           else (8, tl s)
      else (10, s))"

datatype parse_error = Syntax | Range

fun parse_run :: "nat \<Rightarrow> nat \<Rightarrow> string \<Rightarrow> parse_error + nat" where
  "parse_run base n [] = Inr n"
| "parse_run base n (c # cs) =
     (if c = CHR ''_'' then parse_run base n cs
      else
        (case digit_in_any c of
           None \<Rightarrow> Inl Syntax
         | Some d \<Rightarrow>
             if base \<le> d then Inl Syntax
             else if 2 ^ 64 \<le> n * base + d then Inl Range
             else parse_run base (n * base + d) cs))"

text \<open>An underscore stands between digits, or between the prefix of a base and a digit.\<close>

datatype saw = Saw_Start | Saw_Digit | Saw_Underscore | Saw_Other

fun underscore_run :: "bool \<Rightarrow> saw \<Rightarrow> string \<Rightarrow> bool" where
  "underscore_run hex saw [] \<longleftrightarrow> saw \<noteq> Saw_Underscore"
| "underscore_run hex saw (c # cs) \<longleftrightarrow>
     (let n = (of_char (lower_ascii c) :: nat)
      in if is_digit c \<or> hex \<and> 97 \<le> n \<and> n \<le> 102 then underscore_run hex Saw_Digit cs
         else if c = CHR ''_'' then saw = Saw_Digit \<and> underscore_run hex Saw_Underscore cs
         else saw \<noteq> Saw_Underscore \<and> underscore_run hex Saw_Other cs)"

definition underscoreOK :: "string \<Rightarrow> bool" where
  "underscoreOK s =
     (let s = (if s \<noteq> [] \<and> (hd s = CHR ''-'' \<or> hd s = CHR ''+'') then tl s else s);
          p = (if 2 \<le> length s then lower_ascii (s ! 1) else CHR '' '')
      in if 2 \<le> length s \<and> s ! 0 = CHR ''0'' \<and> (p = CHR ''b'' \<or> p = CHR ''o'' \<or> p = CHR ''x'')
         then underscore_run (p = CHR ''x'') Saw_Digit (drop 2 s)
         else underscore_run False Saw_Start s)"

definition ParseUint0 :: "string \<Rightarrow> parse_error + nat" where
  "ParseUint0 s =
     (if s = [] then Inl Syntax
      else
        (case base_split s of (base, r) \<Rightarrow>
           (case parse_run base 0 r of
              Inl e \<Rightarrow> Inl e
            | Inr n \<Rightarrow> if CHR ''_'' \<in> set r \<and> \<not> underscoreOK s then Inl Syntax else Inr n)))"

definition ParseInt0 :: "string \<Rightarrow> parse_error + int" where
  "ParseInt0 s =
     (case s of
        [] \<Rightarrow> Inl Syntax
      | c # r \<Rightarrow>
          let neg = (c = CHR ''-''); ds = (if c = CHR ''-'' \<or> c = CHR ''+'' then r else s)
          in case ParseUint0 ds of
               Inl e \<Rightarrow> Inl e
             | Inr un \<Rightarrow>
                 if \<not> neg \<and> 2 ^ 63 \<le> un \<or> neg \<and> 2 ^ 63 < un then Inl Range
                 else Inr (if neg then - int un else int un))"

section \<open>helpers.go\<close>

text \<open>The values that a flag can have. The other types (booleans, durations, times) are one case,
  for which the arguments are not looked at.\<close>

datatype ('f, 'o) flag_value =
    Flag_Int int | Flag_Int64 int | Flag_Uint nat | Flag_Uint64 nat | Flag_Float 'f
  | Flag_String string | Flag_Strings "string list" | Flag_Ints "int list" | Flag_Int64s "int list"
  | Flag_Other 'o

definition first_arg :: "string list \<Rightarrow> string" where
  "first_arg args = (case args of [] \<Rightarrow> [] | a # _ \<Rightarrow> a)"

definition type_assertion :: go_error where
  "type_assertion = Errf ''interface conversion'' []"

text \<open>For lists of numbers the code asserts the number it has parsed to be a list, which panics at
  the first argument that is a number.\<close>

definition embeddedFlag ::
    "(string \<Rightarrow> 'e + 'f) \<Rightarrow> ('f, 'o) flag_value \<Rightarrow> bool \<Rightarrow> string list \<Rightarrow> ('f, 'o) flag_value outcome" where
  "embeddedFlag parse_fl arg is_set args =
     (if is_set then Return arg
      else
        (case arg of
           Flag_Int _ \<Rightarrow> Return (case ParseInt0 (first_arg args) of Inr v \<Rightarrow> Flag_Int v | Inl _ \<Rightarrow> arg)
         | Flag_Int64 _ \<Rightarrow> Return (case ParseInt0 (first_arg args) of Inr v \<Rightarrow> Flag_Int64 v | Inl _ \<Rightarrow> arg)
         | Flag_Uint _ \<Rightarrow> Return (case ParseUint0 (first_arg args) of Inr v \<Rightarrow> Flag_Uint v | Inl _ \<Rightarrow> arg)
         | Flag_Uint64 _ \<Rightarrow> Return (case ParseUint0 (first_arg args) of Inr v \<Rightarrow> Flag_Uint64 v | Inl _ \<Rightarrow> arg)
         | Flag_Float _ \<Rightarrow> Return (case parse_fl (first_arg args) of Inr v \<Rightarrow> Flag_Float v | Inl _ \<Rightarrow> arg)
         | Flag_String _ \<Rightarrow> Return (Flag_String (first_arg args))
         | Flag_Strings vs \<Rightarrow> Return (Flag_Strings (vs @ args))
         | Flag_Ints _ \<Rightarrow>
             (if \<exists>it \<in> set args. (case ParseInt0 it of Inr v \<Rightarrow> True | Inl _ \<Rightarrow> False)
              then Panic type_assertion else Return arg)
         | Flag_Int64s _ \<Rightarrow>
             (if \<exists>it \<in> set args. (case ParseInt0 it of Inr v \<Rightarrow> True | Inl _ \<Rightarrow> False)
              then Panic type_assertion else Return arg)
         | Flag_Other _ \<Rightarrow> Return arg))"

text \<open>What the commands use to tell whether they should wait for a key: the parent process, when it
  can be found, or else the terminal.\<close>

record OperationRuntimeInfo =
  ShouldBlock :: bool
  TTY :: bool
  ParentPID :: "32 word"
  ParentName :: string

definition GetOperationRuntime ::
    "int \<Rightarrow> string \<Rightarrow> bool \<Rightarrow> bool \<Rightarrow> (32 word \<Rightarrow> go_error + (string \<times> go_error option)) \<Rightarrow> OperationRuntimeInfo" where
  "GetOperationRuntime getppid cmds_blocking is_terminal is_cygwin process =
     (let opr = \<lparr>ShouldBlock = cmds_blocking \<noteq> [], TTY = is_terminal \<or> is_cygwin,
                 ParentPID = word_of_int getppid, ParentName = []\<rparr>
      in case process (ParentPID opr) of
           Inl err \<Rightarrow> (if \<not> ShouldBlock opr then opr\<lparr>ShouldBlock := TTY opr\<rparr> else opr)
         | Inr (name, _) \<Rightarrow>
             let opr = opr\<lparr>ParentName := name\<rparr>
             in if \<not> ShouldBlock opr
                then if name \<in> set [''zsh'', ''bash'', ''fish'', ''sh'', ''nu'']
                     then opr\<lparr>ShouldBlock := False \<and> \<not> TTY opr\<rparr>
                     else if name = ''emacs'' then opr\<lparr>ShouldBlock := False\<rparr>
                     else if name = ''ssh'' then opr\<lparr>ShouldBlock := True\<rparr>
                     else if name \<in> set [''alacritty'', ''urxvt'', ''xterm'', ''Terminal.app'']
                     then opr\<lparr>ShouldBlock := True\<rparr>
                     else opr
                else opr)"

section \<open>cmdr.go\<close>

definition StringSpecBuilder ::
    "string \<Rightarrow> string option \<Rightarrow> string \<Rightarrow> string list \<Rightarrow> go_error + string" where
  "StringSpecBuilder flagName defaultValue flag args =
     (if flag \<noteq> [] then Inr flag
      else if first_arg args \<noteq> [] then Inr (first_arg args)
      else case defaultValue of
             None \<Rightarrow> Inl (Errf ''%q is a required flag, and was missing'' [S flagName])
           | Some d \<Rightarrow> Inr d)"

definition conf_flag_validate :: "(string \<Rightarrow> stat_result) \<Rightarrow> string \<Rightarrow> errors" where
  "conf_flag_validate stat inp =
     (if inp = [] \<or> FileExists stat inp then [] else [Errf ''config file %q does not exist'' [S inp]])"

definition level_flag_validate :: "(string \<Rightarrow> 'p option) \<Rightarrow> ('p \<Rightarrow> 'w \<Rightarrow> 'w) \<Rightarrow> string \<Rightarrow> 'w \<Rightarrow> errors \<times> 'w" where
  "level_flag_validate level_from set_priority val w =
     (case level_from val of
        None \<Rightarrow> ([Errf ''%q is not a valid logging level'' [S val]], w)
      | Some p \<Rightarrow> ([], set_priority p w))"

section \<open>util.go\<close>

definition resolve_dupe_options :: "string \<Rightarrow> string \<Rightarrow> bool \<Rightarrow> string list \<Rightarrow> errors \<times> Tools.Options" where
  "resolve_dupe_options target mirror delete_matching args =
     (let opts = \<lparr>o_Target = target, o_Mirror = mirror, o_Mode = DiffMissing, o_Header = [],
            o_Operation = (if delete_matching then OperationDelete else OperationDisplay)\<rparr>
      in if target \<noteq> [] \<and> mirror \<noteq> [] then ([], opts)
         else if target \<noteq> [] \<and> mirror = [] \<and> 1 \<le> length args then ([], opts\<lparr>o_Mirror := args ! 0\<rparr>)
         else if target = [] \<and> mirror = [] \<and> 2 \<le> length args
         then ([], opts\<lparr>o_Target := args ! 0, o_Mirror := args ! 1\<rparr>)
         else if target = [] \<and> mirror \<noteq> [] \<and> 1 \<le> length args then ([], opts\<lparr>o_Target := args ! 0\<rparr>)
         else ([Errf ''resolving dupe options: [target=%q, mirror=%q, num_args=%d]''
                 [S target, S mirror, I (int (length args))]], opts))"

text \<open>The paths found are printed, and removed when that was asked for; errors of the removal are
  only logged.\<close>

fun dupe_report :: "(string \<Rightarrow> 'w \<Rightarrow> errors \<times> 'w) \<Rightarrow> OperationType \<Rightarrow> string list \<Rightarrow> 'w \<Rightarrow> 'w" where
  "dupe_report os_remove op [] w = w"
| "dupe_report os_remove op (p # ps) w =
     dupe_report os_remove op ps (if op = OperationDelete then snd (os_remove p w) else w)"

definition diffTrees ::
    "(string \<Rightarrow> walk_entry list) \<Rightarrow> (string \<Rightarrow> 'w \<Rightarrow> errors \<times> 'w) \<Rightarrow> Tools.Options \<Rightarrow> 'w \<Rightarrow> (errors \<times> 'w) outcome" where
  "diffTrees tree os_remove opts w =
     (case dupe_Find tree opts of
        Panic p \<Rightarrow> Panic p
      | Return (Inl err) \<Rightarrow> Return (err, w)
      | Return (Inr paths) \<Rightarrow> Return ([], dupe_report os_remove (o_Operation opts) paths w))"

section \<open>gadget.go\<close>

text \<open>A module path that does not exist is only warned of.\<close>

definition module_path_validate :: "string \<Rightarrow> string \<Rightarrow> errors" where
  "module_path_validate getwd path =
     (let path = (if path = ''./'' then getwd else path)
      in if has_suffix path ''...''
         then [Errf ''module path %q should not have ... suffix'' [S path]] else [])"

record gadget_flags =
  gf_timeout :: int
  gf_recursive :: bool
  gf_path :: string
  gf_module_path :: string
  gf_build :: bool
  gf_skip_lint :: bool
  gf_coverage :: bool
  gf_workers :: int

definition gadget_options ::
    "(go_error option \<Rightarrow> errors) \<Rightarrow> (string \<Rightarrow> go_error + string) \<Rightarrow> gadget_flags \<Rightarrow> string list \<Rightarrow>
     errors + Gadget.Options" where
  "gadget_options parse_panic to_abs flags args =
     (case Options_Validate parse_panic to_abs
             \<lparr>Notify = [], RootPath = gf_module_path flags, PackagePath = gf_path flags,
              Timeout = gf_timeout flags, Recursive = gf_recursive flags, CompileOnly = gf_build flags,
              UseCache = True, ReportCoverage = gf_coverage flags, SkipLint = gf_skip_lint flags,
              GoTestArgs = args, Workers = gf_workers flags\<rparr> of
        (err, opts) \<Rightarrow> if err \<noteq> [] then Inl err else Inr opts)"

section \<open>What a number can look like\<close>

lemma is_digit_not [simp]:
  "is_digit c \<Longrightarrow> c \<noteq> CHR ''_''" "is_digit c \<Longrightarrow> c \<noteq> CHR ''-''" "is_digit c \<Longrightarrow> c \<noteq> CHR ''+''"
  by (auto simp: is_digit_def)

lemma digits_val_Cons_acc:
  "foldl (\<lambda>n c. 10 * n + digit_val c) a s = a * 10 ^ length s + digits_val s"
proof (induction s arbitrary: a)
  case (Cons c s)
  show ?case
    using Cons[of "10 * a + digit_val c"] Cons[of "digit_val c"] by (simp add: digits_val_def algebra_simps)
qed (simp add: digits_val_def)

lemma parse_run_digits:
  assumes "list_all is_digit s" "n < 2 ^ 64"
  shows "parse_run 10 n s = (let v = n * 10 ^ length s + digits_val s in if v < 2 ^ 64 then Inr v else Inl Range)"
  using assms
proof (induction s arbitrary: n)
  case (Cons c s)
  define m where "m = n * 10 + digit_val c"
  have v: "digits_val (c # s) = digit_val c * 10 ^ length s + digits_val s"
    using digits_val_Cons_acc[of "digit_val c" s] by (simp add: digits_val_def)
  have e: "n * 10 ^ length (c # s) + digits_val (c # s) = m * 10 ^ length s + digits_val s"
    by (simp add: v m_def algebra_simps)
  have d: "is_digit c" "digit_val c < 10"
    using Cons.prems(1) by (auto simp: is_digit_def digit_val_def)
  have step: "parse_run 10 n (c # s) = (if 2 ^ 64 \<le> m then Inl Range else parse_run 10 m s)"
    using d by (simp add: digit_in_any_def Let_def m_def)
  show ?case
  proof (cases "m < 2 ^ 64")
    case True
    then show ?thesis using Cons.IH[of m] Cons.prems(1) unfolding step e by simp
  next
    case False
    have "m * 1 \<le> m * 10 ^ length s" by (rule mult_le_mono2) simp
    then have "\<not> m * 10 ^ length s + digits_val s < 2 ^ 64" using False by linarith
    then show ?thesis using False unfolding step e by (simp add: Let_def)
  qed
qed (simp add: digits_val_def)

lemma hd_show_nat: "0 < n \<Longrightarrow> hd (show_nat n) \<noteq> CHR ''0''"
proof (induction n rule: show_nat.induct)
  case (1 n)
  show ?case
  proof (cases "n < 10")
    case True
    have "digit_char n \<noteq> CHR ''0''"
    proof
      assume "digit_char n = CHR ''0''"
      then have "(of_char (digit_char n) :: nat) = of_char (CHR ''0'')" by simp
      then show False using True 1 by simp
    qed
    then show ?thesis using True by (subst show_nat.simps) simp
  next
    case False
    have "hd (show_nat n) = hd (show_nat (n div 10))"
      using False by (subst show_nat.simps) simp
    then show ?thesis using 1 False by simp
  qed
qed

lemma ParseUint0_show: "ParseUint0 (show_nat n) = (if n < 2 ^ 64 then Inr n else Inl Range)"
proof -
  have u: "CHR ''_'' \<notin> set (show_nat n)"
  proof
    assume "CHR ''_'' \<in> set (show_nat n)"
    then have "is_digit (CHR ''_'')" using show_nat_digits[of n] by (auto simp only: list_all_iff)
    then show False by (simp add: is_digit_def)
  qed
  show ?thesis
  proof (cases "n = 0")
    case True
    moreover have "show_nat 0 = ''0''" by code_simp
    moreover have "ParseUint0 ''0'' = Inr 0" by code_simp
    ultimately show ?thesis by simp
  next
    case False
    then have "hd (show_nat n) \<noteq> CHR ''0''" using hd_show_nat by simp
    then have "base_split (show_nat n) = (10, show_nat n)" by (simp add: base_split_def)
    moreover have "parse_run 10 0 (show_nat n) = (if n < 2 ^ 64 then Inr n else Inl Range)"
      using parse_run_digits[of "show_nat n" 0] by (simp add: Let_def)
    ultimately show ?thesis using u by (simp add: ParseUint0_def)
  qed
qed

lemma ParseInt0_show:
  "ParseInt0 (show_int i) = (if - (2 ^ 63) \<le> i \<and> i < 2 ^ 63 then Inr i else Inl Range)"
proof (cases "i < 0")
  case True
  then have n: "nat (- i) \<le> 2 ^ 63 \<longleftrightarrow> - (2 ^ 63) \<le> i" by (auto simp: nat_le_iff)
  have "ParseInt0 (show_int i) = (if nat (- i) \<le> 2 ^ 63 then Inr i else Inl Range)"
    using True by (auto simp: show_int_def ParseInt0_def Let_def ParseUint0_show)
  then show ?thesis using True unfolding n by simp
next
  case False
  then have n: "nat i < 2 ^ 63 \<longleftrightarrow> i < 2 ^ 63" by (auto simp: nat_less_iff)
  obtain c r where s: "show_nat (nat i) = c # r" by (cases "show_nat (nat i)") auto
  then have "is_digit c" using show_nat_digits[of "nat i"] by simp
  then have c: "c \<noteq> CHR ''-''" "c \<noteq> CHR ''+''" by auto
  have "ParseInt0 (c # r) = (if nat i < 2 ^ 63 then Inr i else Inl Range)"
    using c False ParseUint0_show[of "nat i", unfolded s] by (auto simp: ParseInt0_def Let_def)
  then show ?thesis using False unfolding n by (simp add: show_int_def s)
qed

lemma ParseUint0_show_int:
  "(case ParseUint0 (show_int i) of Inr v \<Rightarrow> f v | Inl e \<Rightarrow> z) =
     (if 0 \<le> i \<and> i < 2 ^ 64 then f (nat i) else z)"
proof (cases "i < 0")
  case True
  have "lower_ascii (CHR ''-'') = CHR ''-''" by (simp add: lower_ascii_def)
  then have "digit_in_any (CHR ''-'') = None" by (simp add: digit_in_any_def is_digit_def)
  then have "ParseUint0 (CHR ''-'' # r) = Inl Syntax" for r
    by (simp add: ParseUint0_def base_split_def)
  then show ?thesis using True by (simp add: show_int_def)
next
  case False
  then have "nat i < 2 ^ 64 \<longleftrightarrow> i < 2 ^ 64" by (auto simp: nat_less_iff)
  with False show ?thesis by (simp add: show_int_def ParseUint0_show)
qed

text \<open>C40: an integer on the command line. A flag that is given keeps its value. When a flag of one
  integer is not given, an integer printed in decimal as the first argument is read back as the
  same number if it fits the type of the flag (signed or unsigned, of 64 bits), and
  otherwise, a negative number for an unsigned flag included, the flag stays at its default. Yet a
  flag that takes a list of integers panics whenever a number that fits in 64 bits is anywhere
  among the arguments, whatever the others are, and it ignores arguments that are numbers which do not fit.\<close>

theorem argument_numbers_read_back:
  fixes parse_fl :: "string \<Rightarrow> 'e + 'f" and given :: "('f, 'o) flag_value"
  shows "embeddedFlag parse_fl given True argv = Return given \<and>
    embeddedFlag parse_fl (Flag_Int d :: ('f, 'o) flag_value) False (show_int i # args) =
      Return (Flag_Int (if - (2 ^ 63) \<le> i \<and> i < 2 ^ 63 then i else d)) \<and>
    embeddedFlag parse_fl (Flag_Int64 d :: ('f, 'o) flag_value) False (show_int i # args) =
      Return (Flag_Int64 (if - (2 ^ 63) \<le> i \<and> i < 2 ^ 63 then i else d)) \<and>
    embeddedFlag parse_fl (Flag_Uint u :: ('f, 'o) flag_value) False (show_int i # args) =
      Return (Flag_Uint (if 0 \<le> i \<and> i < 2 ^ 64 then nat i else u)) \<and>
    embeddedFlag parse_fl (Flag_Uint64 u :: ('f, 'o) flag_value) False (show_int i # args) =
      Return (Flag_Uint64 (if 0 \<le> i \<and> i < 2 ^ 64 then nat i else u)) \<and>
    (- (2 ^ 63) \<le> i \<and> i < 2 ^ 63 \<longrightarrow>
      embeddedFlag parse_fl (Flag_Ints ds :: ('f, 'o) flag_value) False (before @ show_int i # args) =
        Panic type_assertion \<and>
      embeddedFlag parse_fl (Flag_Int64s ds :: ('f, 'o) flag_value) False (before @ show_int i # args) =
        Panic type_assertion) \<and>
    ((\<forall>j \<in> set js. j < - (2 ^ 63) \<or> 2 ^ 63 \<le> j) \<longrightarrow>
      embeddedFlag parse_fl (Flag_Ints ds :: ('f, 'o) flag_value) False (map show_int js) = Return (Flag_Ints ds) \<and>
      embeddedFlag parse_fl (Flag_Int64s ds :: ('f, 'o) flag_value) False (map show_int js) =
        Return (Flag_Int64s ds))"
proof -
  have read: "\<not> (\<exists>it \<in> set (map show_int js). (case ParseInt0 it of Inr v \<Rightarrow> True | Inl _ \<Rightarrow> False))"
    if "\<forall>j \<in> set js. j < - (2 ^ 63) \<or> 2 ^ 63 \<le> j"
    using that by (auto simp: ParseInt0_show)
  show ?thesis
    using read by (simp add: embeddedFlag_def first_arg_def ParseInt0_show ParseUint0_show_int)
qed

theorem argument_numbers_read_back_witness:
  "embeddedFlag (\<lambda>s. Inl Syntax :: parse_error + int) (Flag_Ints [] :: (int, unit) flag_value) False [''x'', ''7''] =
     Panic type_assertion \<and>
   embeddedFlag (\<lambda>s. Inl Syntax :: parse_error + int) (Flag_Ints [] :: (int, unit) flag_value) False
     (map show_int [2 ^ 63]) = Return (Flag_Ints [])"
proof -
  have seven: "show_int 7 = ''7''" by code_simp
  show ?thesis
    using argument_numbers_read_back[where i = 7 and before = "[''x'']" and args = "[]" and js = "[2 ^ 63]"
        and ds = "[]" and parse_fl = "\<lambda>s. Inl Syntax :: parse_error + int" and 'o = unit]
    unfolding seven by simp
qed

end
