(* ===== verification/Postal.thy ===== *)
theory Postal
  imports Go_Prelude "HOL-Library.Word"
begin

text \<open>
  \<open>x/postal\<close>: jobs in envelopes. A schema names the type and the serialization of a job, a lock
  says who works on it, a registry holds the codecs and the factories, and an envelope is
  written and read through them. The serialization libraries are parameters of the codecs; they
  call the marshaling methods that they find on a value, so those are handed to them.
  Times are nanoseconds since Go's zero time.
\<close>

section \<open>meta.go\<close>

record Schema =
  sc_Version :: int
  sc_Type :: string
  sc_Format :: string

definition SerializationCodecStdlibJSON :: string where "SerializationCodecStdlibJSON = ''stdlib-json''"
definition SerializationCodecBirchBSON :: string where "SerializationCodecBirchBSON = ''birch-bson''"
definition SerializationCodecDriverBSON :: string where "SerializationCodecDriverBSON = ''driver-bson''"
definition SerializationCodecYAML :: string where "SerializationCodecYAML = ''yaml''"

definition Schema_Validate :: "Schema \<Rightarrow> errors" where
  "Schema_Validate s =
     when_err (sc_Version s < 0) (Errf ''schema version must not be negative'' []) @
     when_err (sc_Type s < []) (Errf ''message type must be specified'' [])"

definition LockStatusCreated :: string where "LockStatusCreated = ''created''"
definition LockStatusInProgress :: string where "LockStatusInProgress = ''in-progress''"
definition LockStatusAvailable :: string where "LockStatusAvailable = ''available''"
definition LockStatusComplete :: string where "LockStatusComplete = ''completed''"
definition LockStatusExpired :: string where "LockStatusExpired = ''expired''"
definition LockStatusErrorRetryable :: string where "LockStatusErrorRetryable = ''error-retryable''"
definition LockStatusErrorFatal :: string where "LockStatusErrorFatal = ''error-fatal''"

lemmas lock_statuses = LockStatusCreated_def LockStatusInProgress_def LockStatusAvailable_def
  LockStatusComplete_def LockStatusExpired_def LockStatusErrorRetryable_def LockStatusErrorFatal_def

definition LockStatus_Validate :: "string \<Rightarrow> errors" where
  "LockStatus_Validate l =
     (if l = [] then [Errf ''lock status must be defined'' []]
      else if l \<in> {LockStatusCreated, LockStatusInProgress, LockStatusAvailable} then []
      else if l \<in> {LockStatusComplete, LockStatusExpired} then []
      else if l \<in> {LockStatusErrorFatal, LockStatusErrorRetryable} then []
      else [Errf ''lock status %q is invalid'' [S l]])"

definition ValidateStateTransion :: "string \<Rightarrow> string \<Rightarrow> errors" where
  "ValidateStateTransion l to =
     (let err = LockStatus_Validate to
      in if l = [] then []
         else if l = [] \<and> to = [] then []
         else if err \<noteq> [] then err
         else if l = to then []
         else if l = LockStatusComplete then [Errf ''complete locks should not be further modified'' []]
         else if l = LockStatusErrorFatal then [Errf ''fatal locks can never be retried'' []]
         else if l = LockStatusExpired then [Errf ''expired locks cannot revive'' []]
         else if l = LockStatusInProgress \<and> to = LockStatusCreated
           then [Errf ''cannot transition to created'' []]
         else [])"

definition LockStatus_String :: "(errors \<Rightarrow> string) \<Rightarrow> string \<Rightarrow> string" where
  "LockStatus_String err_Error l =
     (let err = LockStatus_Validate l
      in if l = [] then LockStatusCreated
         else if err \<noteq> [] then ''INVALID<'' @ err_Error err @ ''>''
         else l)"

record LockInfo =
  lk_Status :: string
  lk_LogicalClock :: "64 word"
  lk_LastModified :: int
  lk_Owner :: string

definition zero_LockInfo :: LockInfo where
  "zero_LockInfo = \<lparr>lk_Status = [], lk_LogicalClock = 0, lk_LastModified = 0, lk_Owner = []\<rparr>"

definition millisecond :: int where "millisecond = 1000000"

text \<open>The clock is read twice: for the time since the last update and for the new time. Three
  invariants are checked, and a violated one panics; the third compares the new status with
  itself.\<close>

definition Update :: "int \<Rightarrow> int \<Rightarrow> LockInfo \<Rightarrow> string \<Rightarrow> LockInfo outcome" where
  "Update now now' l status =
     (if lk_LogicalClock l + 1 = 0 then Panic (Errf ''cannot overflow the logical clock'' [])
      else if \<not> (lk_LastModified l = 0 \<or> millisecond \<le> now - lk_LastModified l)
        then Panic (Errf ''lock time resolution requires at least 1ms between updates'' [])
      else if ValidateStateTransion status status \<noteq> []
        then Panic (Wrapf (ValidateStateTransion status status) ''cannot apply impossible state transition '' [])
      else Return (l\<lparr>lk_LogicalClock := lk_LogicalClock l + 1,
                     lk_LastModified := now' - now' mod millisecond, lk_Status := status\<rparr>))"

section \<open>The states of a lock\<close>

definition lock_statuses_all :: "string list" where
  "lock_statuses_all = [LockStatusCreated, LockStatusInProgress, LockStatusAvailable, LockStatusComplete,
     LockStatusExpired, LockStatusErrorFatal, LockStatusErrorRetryable]"

lemma LockStatus_Validate_iff [simp]: "LockStatus_Validate l = [] \<longleftrightarrow> l \<in> set lock_statuses_all"
  by (auto simp: LockStatus_Validate_def lock_statuses_all_def lock_statuses)

lemma status_not_Nil: "l \<in> set lock_statuses_all \<Longrightarrow> l \<noteq> []"
  by (auto simp: lock_statuses_all_def lock_statuses)

lemma transition_to_itself: "ValidateStateTransion s s = [] \<longleftrightarrow> s = [] \<or> s \<in> set lock_statuses_all"
  by (auto simp: ValidateStateTransion_def Let_def)

lemma transition_iff:
  assumes "l \<noteq> []"
  shows "ValidateStateTransion l to = [] \<longleftrightarrow> to \<in> set lock_statuses_all \<and>
    (l = to \<or> l \<notin> {LockStatusComplete, LockStatusErrorFatal, LockStatusExpired} \<and>
      \<not> (l = LockStatusInProgress \<and> to = LockStatusCreated))"
  using assms by (simp add: ValidateStateTransion_def Let_def)

lemma Update_Return:
  "Update now now' l s = Return l' \<longleftrightarrow>
     lk_LogicalClock l + 1 \<noteq> 0 \<and> (lk_LastModified l = 0 \<or> millisecond \<le> now - lk_LastModified l) \<and>
     (s = [] \<or> s \<in> set lock_statuses_all) \<and>
     l' = l\<lparr>lk_LogicalClock := lk_LogicalClock l + 1,
            lk_LastModified := now' - now' mod millisecond, lk_Status := s\<rparr>"
  by (auto simp: Update_def transition_to_itself)

text \<open>Which updates of a lock pass. The transition function forbids leaving the final states
  and going back from work in progress to created; but an update asks it about the new status
  and itself, so every valid status (or none at all) is accepted whatever the lock's status is,
  as long as the clock does not overflow and a millisecond has passed.\<close>

theorem updates_ignore_transitions:
  "((\<exists>l'. Update now now' l s = Return l') \<longleftrightarrow>
      lk_LogicalClock l \<noteq> - 1 \<and> (lk_LastModified l = 0 \<or> millisecond \<le> now - lk_LastModified l) \<and>
      (s = [] \<or> LockStatus_Validate s = [])) \<and>
   (\<forall>to. ValidateStateTransion LockStatusComplete to = [] \<longleftrightarrow> to = LockStatusComplete) \<and>
   (\<forall>to. ValidateStateTransion LockStatusErrorFatal to = [] \<longleftrightarrow> to = LockStatusErrorFatal) \<and>
   (\<forall>to. ValidateStateTransion LockStatusExpired to = [] \<longleftrightarrow> to = LockStatusExpired) \<and>
   ValidateStateTransion LockStatusInProgress LockStatusCreated \<noteq> []"
proof -
  have "lk_LogicalClock l + 1 = 0 \<longleftrightarrow> lk_LogicalClock l = - 1"
    by (metis add.commute add_eq_0_iff)
  then have "(\<exists>l'. Update now now' l s = Return l') \<longleftrightarrow>
      lk_LogicalClock l \<noteq> - 1 \<and> (lk_LastModified l = 0 \<or> millisecond \<le> now - lk_LastModified l) \<and>
      (s = [] \<or> LockStatus_Validate s = [])"
    by (simp add: Update_Return)
  moreover have "ValidateStateTransion l to = [] \<longleftrightarrow> to = l"
    if "l \<in> {LockStatusComplete, LockStatusErrorFatal, LockStatusExpired}" for l to
    using that by (subst transition_iff) (auto simp: lock_statuses_all_def lock_statuses)
  moreover have "ValidateStateTransion LockStatusInProgress LockStatusCreated \<noteq> []"
    by (subst transition_iff) (simp_all add: lock_statuses)
  ultimately show ?thesis by simp
qed

text \<open>The steps of a lock: an update that passes, at a time after the first millisecond.\<close>

inductive lock_step :: "LockInfo \<Rightarrow> LockInfo \<Rightarrow> bool" where
  "Update now now' l s = Return l' \<Longrightarrow> millisecond \<le> now \<Longrightarrow> now \<le> now' \<Longrightarrow> lock_step l l'"

inductive_cases lock_stepE: "lock_step l l'"

lemma lock_step_facts:
  assumes "lock_step l l'" and "lk_LastModified l mod millisecond = 0" and "0 \<le> lk_LastModified l"
  shows "unat (lk_LogicalClock l') = unat (lk_LogicalClock l) + 1"
    and "lk_LastModified l' mod millisecond = 0" and "lk_LastModified l + millisecond \<le> lk_LastModified l'"
    and "lk_Owner l' = lk_Owner l"
proof -
  obtain now now' s where u: "Update now now' l s = Return l'" and t: "millisecond \<le> now" "now \<le> now'"
    using assms(1) by (auto elim: lock_stepE)
  have ov: "lk_LogicalClock l + 1 \<noteq> 0" and
    el: "lk_LastModified l = 0 \<or> millisecond \<le> now - lk_LastModified l" and
    l': "lk_LogicalClock l' = lk_LogicalClock l + 1" "lk_LastModified l' = now' - now' mod millisecond"
      "lk_Owner l' = lk_Owner l"
    using u by (auto simp: Update_Return)
  show "unat (lk_LogicalClock l') = unat (lk_LogicalClock l) + 1"
    using ov unfolding l'(1) by (metis Suc_eq_plus1 add.commute unatSuc)
  show "lk_LastModified l' mod millisecond = 0" by (simp add: l'(2) minus_mod_eq_mult_div)
  show "lk_Owner l' = lk_Owner l" by (fact l'(3))
  have "lk_LastModified l + millisecond \<le> now'" using el t by auto
  moreover have "(lk_LastModified l + millisecond) mod millisecond = 0" using assms(2) by simp
  then obtain k where k: "lk_LastModified l + millisecond = millisecond * k" by (metis mod_0_imp_dvd dvdE)
  ultimately have "k \<le> now' div millisecond"
    by (metis div_mult_self1_is_m zdiv_mono1 millisecond_def zero_less_numeral nonzero_mult_div_cancel_left order_less_irrefl)
  then show "lk_LastModified l + millisecond \<le> lk_LastModified l'"
    unfolding k l'(2) minus_mod_eq_mult_div by (simp add: millisecond_def)
qed

text \<open>C35: the clock of a lock. Along any sequence of updates the logical clock counts them without
  ever wrapping around its 64 bits, so that there are fewer than 2 to the 64 of them; the time of
  the last update moves on by at least a millisecond each time and stays on whole milliseconds;
  the owner never changes.\<close>

theorem lock_clock_counts_updates:
  assumes "(lock_step ^^ n) l l'" and "lk_LastModified l mod millisecond = 0" and "0 \<le> lk_LastModified l"
  shows "unat (lk_LogicalClock l') = unat (lk_LogicalClock l) + n \<and>
    unat (lk_LogicalClock l) + n < 2 ^ 64 \<and>
    lk_LastModified l + int n * millisecond \<le> lk_LastModified l' \<and>
    lk_LastModified l' mod millisecond = 0 \<and> lk_Owner l' = lk_Owner l"
proof -
  have "unat (lk_LogicalClock l') = unat (lk_LogicalClock l) + n \<and>
    lk_LastModified l + int n * millisecond \<le> lk_LastModified l' \<and>
    lk_LastModified l' mod millisecond = 0 \<and> lk_Owner l' = lk_Owner l"
    using assms
  proof (induction n arbitrary: l')
    case (Suc n)
    then obtain m where m: "(lock_step ^^ n) l m" "lock_step m l'" by auto
    with Suc have ih: "unat (lk_LogicalClock m) = unat (lk_LogicalClock l) + n"
      "lk_LastModified l + int n * millisecond \<le> lk_LastModified m"
      "lk_LastModified m mod millisecond = 0" "lk_Owner m = lk_Owner l" by auto
    then have "0 \<le> lk_LastModified m"
      using Suc.prems(3) by (smt (verit) millisecond_def mult_nonneg_nonneg of_nat_0_le_iff)
    from lock_step_facts[OF m(2) ih(3) this] ih show ?case by (simp add: algebra_simps)
  qed simp
  moreover have "unat (lk_LogicalClock l') < 2 ^ 64" using unsigned_less[of "lk_LogicalClock l'"] by (simp add: unsigned_less)
  ultimately show ?thesis by simp
qed

theorem lock_clock_counts_updates_witness:
  "\<exists>l'. (lock_step ^^ 2) zero_LockInfo l' \<and> lk_LogicalClock l' = 2 \<and> lk_LastModified l' = 3 * millisecond"
proof -
  let ?a = "\<lparr>lk_Status = LockStatusCreated, lk_LogicalClock = 1, lk_LastModified = millisecond, lk_Owner = []\<rparr>"
  let ?b = "\<lparr>lk_Status = LockStatusComplete, lk_LogicalClock = 2, lk_LastModified = 3 * millisecond, lk_Owner = []\<rparr>"
  have "Update 1500000 1600000 zero_LockInfo LockStatusCreated = Return ?a"
    "Update 3200000 3200000 ?a LockStatusComplete = Return ?b"
    by (simp_all add: Update_Return zero_LockInfo_def millisecond_def lock_statuses_all_def)
  then have "lock_step zero_LockInfo ?a" "lock_step ?a ?b"
    by (auto intro: lock_step.intros simp: millisecond_def)
  then have s: "(lock_step ^^ 2) zero_LockInfo ?b" by (auto simp: numeral_2_eq_2)
  have "lk_LastModified zero_LockInfo mod millisecond = 0" "0 \<le> lk_LastModified zero_LockInfo"
    by (simp_all add: zero_LockInfo_def)
  from lock_clock_counts_updates[OF s this] s show ?thesis by auto
qed

end
