(* ===== verification/Postal_Envelope.thy ===== *)
theory Postal_Envelope
  imports Postal
begin

text \<open>
  \<open>x/postal/codecs.go\<close> and \<open>x/postal/postal.go\<close>: codecs, the registry, and the life of an envelope.
  Writing an envelope hands it to the codec's library, which may call the envelope's own
  marshaling methods again; fuel counts these calls, and a result of \<open>None\<close> says that they are
  not over when it is used up. There is one registry, an argument; an envelope knows whether it
  was given it.
\<close>

section \<open>Envelopes\<close>

text \<open>\<open>adt.Once\<close>: nothing set, a function set and not called (what it will answer), or called.\<close>

datatype lazy = Unset | Pending "errors + string" | Fired errors

record 'j Envelope =
  ev_Schema :: Schema
  ev_Payload :: "string option"
  ev_Lock :: LockInfo
  ev_cache :: "'j option"
  ev_registry :: bool
  ev_lazy :: lazy

type_synonym 'j marshaler = "'j Envelope \<Rightarrow> ((errors + string) \<times> 'j Envelope) outcome option"
type_synonym 'j unmarshaler = "string \<Rightarrow> 'j Envelope \<Rightarrow> (errors \<times> 'j Envelope) outcome option"

text \<open>The methods of an envelope that a library can find on it.\<close>

record 'j methods =
  m_MarshalText :: "'j marshaler"
  m_MarshalBinary :: "'j marshaler"
  m_MarshalBSON :: "'j marshaler"
  m_UnmarshalText :: "'j unmarshaler"
  m_UnmarshalBinary :: "'j unmarshaler"
  m_UnmarshalBSON :: "'j unmarshaler"

section \<open>codecs.go\<close>

definition RepresentationText :: bool where "RepresentationText = False"
definition RepresentationBinary :: bool where "RepresentationBinary = True"

text \<open>A serialization library: on a job, and on an envelope with its methods.\<close>

record 'j lib =
  lib_Marshal :: "'j option \<Rightarrow> errors + string"
  lib_Unmarshal :: "string \<Rightarrow> 'j \<Rightarrow> errors \<times> 'j"
  lib_Marshal_envelope :: "'j methods \<Rightarrow> 'j marshaler"
  lib_Unmarshal_envelope :: "'j methods \<Rightarrow> 'j unmarshaler"

record 'j SerializationCodec =
  cd_Format :: string
  cd_Lib :: "'j lib"
  cd_Representation :: bool

definition MakeCodecJSON :: "'j lib \<Rightarrow> 'j SerializationCodec" where
  "MakeCodecJSON json = \<lparr>cd_Format = SerializationCodecStdlibJSON, cd_Lib = json,
     cd_Representation = RepresentationText\<rparr>"

definition MakeCodecYAML :: "'j lib \<Rightarrow> 'j SerializationCodec" where
  "MakeCodecYAML yaml = \<lparr>cd_Format = SerializationCodecYAML, cd_Lib = yaml,
     cd_Representation = RepresentationText\<rparr>"

definition MakeCodecDriverBSON :: "'j lib \<Rightarrow> 'j SerializationCodec" where
  "MakeCodecDriverBSON bson = \<lparr>cd_Format = SerializationCodecDriverBSON, cd_Lib = bson,
     cd_Representation = RepresentationBinary\<rparr>"

definition MakeCodecBirchBSON :: "'j lib \<Rightarrow> 'j SerializationCodec" where
  "MakeCodecBirchBSON birch = \<lparr>cd_Format = SerializationCodecDriverBSON, cd_Lib = birch,
     cd_Representation = RepresentationBinary\<rparr>"

type_synonym 'j CodecStore = "(string \<times> 'j SerializationCodec) list"

definition CodecStore_Add :: "'j SerializationCodec \<Rightarrow> 'j CodecStore \<Rightarrow> 'j CodecStore" where
  "CodecStore_Add codec r = upd (cd_Format codec) codec r"

definition DefaultCodecStore :: "'j lib \<Rightarrow> 'j lib \<Rightarrow> 'j lib \<Rightarrow> 'j lib \<Rightarrow> 'j CodecStore" where
  "DefaultCodecStore json bson birch yaml =
     (let r = [];
          r = CodecStore_Add (MakeCodecJSON json) r;
          r = CodecStore_Add (MakeCodecDriverBSON bson) r;
          r = CodecStore_Add (MakeCodecBirchBSON birch) r;
          r = CodecStore_Add (MakeCodecYAML yaml) r
      in r)"

section \<open>postal.go\<close>

text \<open>A factory makes an empty job.\<close>

record 'j Registry =
  rg_Codecs :: "'j CodecStore"
  rg_Factories :: "(Schema \<times> 'j) list"

definition Register :: "'j Registry \<Rightarrow> Schema \<Rightarrow> 'j \<Rightarrow> 'j Registry" where
  "Register r s fn = r\<lparr>rg_Factories := upd s fn (rg_Factories r)\<rparr>"

definition unregistered :: "Schema \<Rightarrow> errors" where
  "unregistered s = [Errf ''unregistered serialization %s'' [S (sc_Format s)]]"

definition MakeEnvelope ::
    "int \<Rightarrow> int \<Rightarrow> 'j Registry \<Rightarrow> Schema \<Rightarrow> 'j \<Rightarrow> (errors + 'j Envelope) outcome" where
  "MakeEnvelope now now' r s msg =
     (if Schema_Validate s \<noteq> [] then Return (Inl (Schema_Validate s))
      else case map_of (rg_Codecs r) (sc_Format s) of
             None \<Rightarrow> Return (Inl (unregistered s))
           | Some codec \<Rightarrow>
               (case Update now now' zero_LockInfo LockStatusCreated of
                  Panic p \<Rightarrow> Panic p
                | Return lock \<Rightarrow> Return (Inr
                    \<lparr>ev_Schema = s, ev_Payload = None, ev_Lock = lock, ev_cache = Some msg, ev_registry = True,
                     ev_lazy = Pending (lib_Marshal (cd_Lib codec) (Some msg))\<rparr>)))"

text \<open>\<open>e.lazy.Resolve()\<close> with the payload that a successful call stores, and \<open>e.lazy.Do\<close> with a
  function that does nothing.\<close>

definition lazy_Resolve :: "'j Envelope \<Rightarrow> errors \<times> 'j Envelope" where
  "lazy_Resolve e =
     (case ev_lazy e of
        Unset \<Rightarrow> ([], e\<lparr>ev_lazy := Fired []\<rparr>)
      | Pending (Inl err) \<Rightarrow> (err, e\<lparr>ev_lazy := Fired err\<rparr>)
      | Pending (Inr mbin) \<Rightarrow> ([], e\<lparr>ev_Payload := Some mbin, ev_lazy := Fired []\<rparr>)
      | Fired err \<Rightarrow> (err, e))"

definition lazy_override :: "'j Envelope \<Rightarrow> 'j Envelope" where
  "lazy_override e = (case ev_lazy e of Fired err \<Rightarrow> e | _ \<Rightarrow> e\<lparr>ev_lazy := Fired []\<rparr>)"

definition misconfigured :: errors where
  "misconfigured = [Errf ''incorrect configuration'' []]"

definition bson_guard :: "'j marshaler \<Rightarrow> 'j marshaler" where
  "bson_guard f e = (if str_contains (sc_Format (ev_Schema e)) ''bson''
     then Some (Return (Inl misconfigured, e)) else f e)"

definition bson_unguard :: "'j unmarshaler \<Rightarrow> 'j unmarshaler" where
  "bson_unguard f b e = (if str_contains (sc_Format (ev_Schema e)) ''bson''
     then Some (Return (misconfigured, e)) else f b e)"

fun marshal :: "nat \<Rightarrow> 'j Registry \<Rightarrow> bool \<Rightarrow> 'j marshaler"
  and unmarshal :: "nat \<Rightarrow> 'j Registry \<Rightarrow> bool \<Rightarrow> 'j unmarshaler" where
  "marshal 0 r repr e = None"
| "marshal (Suc n) r repr e =
     (let self = \<lparr>m_MarshalText = marshal n r RepresentationText, m_MarshalBinary = marshal n r RepresentationBinary,
            m_MarshalBSON = bson_guard (marshal n r RepresentationBinary),
            m_UnmarshalText = unmarshal n r RepresentationText,
            m_UnmarshalBinary = unmarshal n r RepresentationBinary,
            m_UnmarshalBSON = bson_unguard (unmarshal n r RepresentationBinary)\<rparr>
      in if \<not> ev_registry e then Some (Panic nil_deref)
         else case map_of (rg_Codecs r) (sc_Format (ev_Schema e)) of
             None \<Rightarrow> Some (Return (Inl (unregistered (ev_Schema e)), e))
           | Some codec \<Rightarrow>
               if cd_Representation codec \<noteq> repr
               then Some (Return (Inl [Errf ''invalid encoding attempt'' []], e))
               else (case lib_Marshal (cd_Lib codec) (ev_cache e) of
                       Inl err \<Rightarrow> Some (Return (Inl err, e))
                     | Inr data \<Rightarrow> lib_Marshal_envelope (cd_Lib codec) self (e\<lparr>ev_Payload := Some data\<rparr>)))"
| "unmarshal 0 r repr inp e = None"
| "unmarshal (Suc n) r repr inp e =
     (let self = \<lparr>m_MarshalText = marshal n r RepresentationText, m_MarshalBinary = marshal n r RepresentationBinary,
            m_MarshalBSON = bson_guard (marshal n r RepresentationBinary),
            m_UnmarshalText = unmarshal n r RepresentationText,
            m_UnmarshalBinary = unmarshal n r RepresentationBinary,
            m_UnmarshalBSON = bson_unguard (unmarshal n r RepresentationBinary)\<rparr>;
          e = lazy_override e
      in if \<not> ev_registry e then Some (Panic nil_deref)
         else case map_of (rg_Codecs r) (sc_Format (ev_Schema e)) of
             None \<Rightarrow> Some (Return (unregistered (ev_Schema e), e))
           | Some codec \<Rightarrow>
               if cd_Representation codec \<noteq> repr
               then Some (Return ([Errf ''invalid decoding attempt'' []], e))
               else case map_of (rg_Factories r) (ev_Schema e) of
                      None \<Rightarrow> Some (Return (unregistered (ev_Schema e), e))
                    | Some factory \<Rightarrow>
                        (case lib_Unmarshal_envelope (cd_Lib codec) self inp e of
                           None \<Rightarrow> None
                         | Some (Panic p) \<Rightarrow> Some (Panic p)
                         | Some (Return (err, e)) \<Rightarrow>
                             if err \<noteq> [] then Some (Return (err, e))
                             else
                               (case lib_Unmarshal (cd_Lib codec) (deref_z [] (ev_Payload e)) factory of (err, out) \<Rightarrow>
                                  if err \<noteq> [] then Some (Return (err, e))
                                  else Some (Return ([], e\<lparr>ev_cache := Some out\<rparr>)))))"

definition MarshalText :: "nat \<Rightarrow> 'j Registry \<Rightarrow> 'j marshaler" where
  "MarshalText n r = marshal n r RepresentationText"

definition MarshalBinary :: "nat \<Rightarrow> 'j Registry \<Rightarrow> 'j marshaler" where
  "MarshalBinary n r = marshal n r RepresentationBinary"

definition MarshalBSON :: "nat \<Rightarrow> 'j Registry \<Rightarrow> 'j marshaler" where
  "MarshalBSON n r = bson_guard (MarshalBinary n r)"

definition UnmarshalText :: "nat \<Rightarrow> 'j Registry \<Rightarrow> 'j unmarshaler" where
  "UnmarshalText n r = unmarshal n r RepresentationText"

definition UnmarshalBinary :: "nat \<Rightarrow> 'j Registry \<Rightarrow> 'j unmarshaler" where
  "UnmarshalBinary n r = unmarshal n r RepresentationBinary"

definition UnmarshalBSON :: "nat \<Rightarrow> 'j Registry \<Rightarrow> 'j unmarshaler" where
  "UnmarshalBSON n r = bson_unguard (UnmarshalBinary n r)"

definition Resolve :: "'j Registry \<Rightarrow> 'j Envelope \<Rightarrow> (errors + 'j) \<times> 'j Envelope" where
  "Resolve r e =
     (case lazy_Resolve (e\<lparr>ev_registry := True\<rparr>) of (err, e) \<Rightarrow>
        if err \<noteq> [] then (Inl err, e)
        else case ev_cache e of
          Some job \<Rightarrow> (Inr job, e)
        | None \<Rightarrow>
            (case ev_Payload e of
               None \<Rightarrow> (Inl [Errf ''missing job definition'' []], e)
             | Some payload \<Rightarrow>
                 (case map_of (rg_Factories r) (ev_Schema e) of
                    None \<Rightarrow> (Inl [Errf ''unregistered type %s'' [S (sc_Type (ev_Schema e))]], e)
                  | Some out \<Rightarrow>
                      (case map_of (rg_Codecs r) (sc_Format (ev_Schema e)) of
                         None \<Rightarrow> (Inl (unregistered (ev_Schema e)), e)
                       | Some codec \<Rightarrow>
                           (case lib_Unmarshal (cd_Lib codec) payload out of (err, out) \<Rightarrow>
                              if err \<noteq> [] then (Inl err, e)
                              else (Inr out, e\<lparr>ev_cache := Some out\<rparr>))))))"

text \<open>\<open>e.cache.Resolve()\<close>: the worker of the job, a method of a nil interface when there is none.\<close>

definition Worker :: "('j \<Rightarrow> 'w) \<Rightarrow> 'j Envelope \<Rightarrow> 'w outcome" where
  "Worker resolve e = (case ev_cache e of None \<Rightarrow> Panic nil_deref | Some job \<Rightarrow> Return (resolve job))"

section \<open>The default codecs\<close>

text \<open>The two BSON codecs have the same format, so the second replaces the first and the format of
  the second has no codec.\<close>

lemma DefaultCodecStore_lookup:
  "map_of (DefaultCodecStore json bson birch yaml) f =
     (if f = SerializationCodecStdlibJSON then Some (MakeCodecJSON json)
      else if f = SerializationCodecDriverBSON then Some (MakeCodecBirchBSON birch)
      else if f = SerializationCodecYAML then Some (MakeCodecYAML yaml) else None)"
  by (simp add: DefaultCodecStore_def CodecStore_Add_def MakeCodecJSON_def MakeCodecDriverBSON_def
      MakeCodecBirchBSON_def MakeCodecYAML_def SerializationCodecStdlibJSON_def
      SerializationCodecDriverBSON_def SerializationCodecYAML_def)

lemma birch_format_unregistered:
  "map_of (DefaultCodecStore json bson birch yaml) SerializationCodecBirchBSON = None"
  by (simp add: DefaultCodecStore_lookup SerializationCodecStdlibJSON_def
      SerializationCodecDriverBSON_def SerializationCodecYAML_def SerializationCodecBirchBSON_def)

section \<open>Making and resolving an envelope\<close>

lemma Schema_Validate_iff [simp]: "Schema_Validate s = [] \<longleftrightarrow> 0 \<le> sc_Version s"
  by (auto simp: Schema_Validate_def)

lemma first_update:
  "Update now now' zero_LockInfo LockStatusCreated = Return
     (zero_LockInfo\<lparr>lk_LogicalClock := 1, lk_LastModified := now' - now' mod millisecond,
      lk_Status := LockStatusCreated\<rparr>)"
  by (simp add: Update_Return zero_LockInfo_def lock_statuses_all_def)

lemma MakeEnvelope_Inr:
  "MakeEnvelope now now' r s msg = Return (Inr e) \<longleftrightarrow>
     0 \<le> sc_Version s \<and>
     (\<exists>codec. map_of (rg_Codecs r) (sc_Format s) = Some codec \<and>
        e = \<lparr>ev_Schema = s, ev_Payload = None,
             ev_Lock = zero_LockInfo\<lparr>lk_LogicalClock := 1, lk_LastModified := now' - now' mod millisecond,
               lk_Status := LockStatusCreated\<rparr>,
             ev_cache = Some msg, ev_registry = True,
             ev_lazy = Pending (lib_Marshal (cd_Lib codec) (Some msg))\<rparr>)"
  by (auto simp: MakeEnvelope_def first_update split: option.splits)

text \<open>C34: an envelope carries its job. Resolving the envelope made for a job answers the job when the
  codec of its format can write it, stores the written form as the payload and leaves the schema and
  the lock of the creation as they are; resolving it again changes nothing. When the codec cannot
  write the job its error is the answer. An envelope that has only the schema and that payload, with
  nothing cached and nothing pending, resolves to an equal job and keeps it from then on, provided
  that the registry has a factory for the schema and that the codec reads what it wrote for this
  job back into a job of the factory without an error and equal to the written one.\<close>

theorem envelope_carries_job:
  assumes "MakeEnvelope now now' r s msg = Return (Inr e)"
    and "map_of (rg_Codecs r) (sc_Format s) = Some codec"
    and "Resolve r e = (res, e1)"
  shows "case lib_Marshal (cd_Lib codec) (Some msg) of
      Inl err \<Rightarrow> err \<noteq> [] \<longrightarrow> res = Inl err \<and> ev_Payload e1 = None
    | Inr data \<Rightarrow>
        res = Inr msg \<and> ev_Payload e1 = Some data \<and> ev_Schema e1 = s \<and> ev_Lock e1 = ev_Lock e \<and>
        lk_LogicalClock (ev_Lock e1) = 1 \<and> lk_Status (ev_Lock e1) = LockStatusCreated \<and>
        Resolve r e1 = (Inr msg, e1) \<and>
        (\<forall>e2 fresh. ev_Schema e2 = s \<and> ev_Payload e2 = Some data \<and> ev_cache e2 = None \<and> ev_lazy e2 = Unset \<and>
           map_of (rg_Factories r) s = Some fresh \<and> lib_Unmarshal (cd_Lib codec) data fresh = ([], msg) \<longrightarrow>
             fst (Resolve r e2) = Inr msg \<and> Resolve r (snd (Resolve r e2)) = Resolve r e2)"
  using assms by (auto simp: MakeEnvelope_Inr Resolve_def lazy_Resolve_def split: sum.splits)

text \<open>A library that writes a job, a number here, as a string of that length.\<close>

definition unary_lib :: "nat lib" where
  "unary_lib =
     \<lparr>lib_Marshal = (\<lambda>job. case job of None \<Rightarrow> Inr ''-'' | Some n \<Rightarrow> Inr (replicate n (CHR ''x''))),
      lib_Unmarshal = (\<lambda>b z. ([], length b)),
      lib_Marshal_envelope = (\<lambda>self e. case m_MarshalText self e of
         Some (Return (Inr text, e')) \<Rightarrow> Some (Return (Inr (''q'' @ text @ ''q''), e'))
       | r \<Rightarrow> r),
      lib_Unmarshal_envelope = (\<lambda>self b e. m_UnmarshalText self b e)\<rparr>"

definition example_schema :: Schema where
  "example_schema = \<lparr>sc_Version = 1, sc_Type = [], sc_Format = SerializationCodecYAML\<rparr>"

definition example_registry :: "nat Registry" where
  "example_registry = Register
     \<lparr>rg_Codecs = DefaultCodecStore unary_lib unary_lib unary_lib unary_lib, rg_Factories = []\<rparr> example_schema 0"

lemma example_codec:
  "map_of (rg_Codecs example_registry) (sc_Format example_schema) = Some (MakeCodecYAML unary_lib)"
  by (simp add: example_registry_def Register_def example_schema_def DefaultCodecStore_lookup
      SerializationCodecStdlibJSON_def SerializationCodecDriverBSON_def SerializationCodecYAML_def)

theorem envelope_carries_job_witness:
  "\<exists>e e1. MakeEnvelope 0 5 example_registry example_schema 3 = Return (Inr e) \<and>
     Resolve example_registry e = (Inr 3, e1) \<and>
     fst (Resolve example_registry (e1\<lparr>ev_cache := None, ev_lazy := Unset\<rparr>)) = Inr 3"
proof -
  obtain e where e: "MakeEnvelope 0 5 example_registry example_schema 3 = Return (Inr e)"
    using example_codec by (simp add: MakeEnvelope_Inr) (simp add: example_schema_def)
  obtain res e1 where r: "Resolve example_registry e = (res, e1)" by fastforce
  have "lib_Marshal (cd_Lib (MakeCodecYAML unary_lib)) (Some 3) = Inr ''xxx''"
    "lib_Unmarshal (cd_Lib (MakeCodecYAML unary_lib)) ''xxx'' 0 = ([], 3)"
    by (simp_all add: MakeCodecYAML_def unary_lib_def numeral_3_eq_3)
  moreover have "map_of (rg_Factories example_registry) example_schema = Some 0"
    by (simp add: example_registry_def Register_def)
  ultimately show ?thesis using envelope_carries_job[OF e example_codec r] e r by simp
qed

section \<open>Writing an envelope\<close>

text \<open>A library that writes a value only through a marshaling method of the value, as the JSON, YAML
  and BSON libraries are documented to do for a value that has one; and one that waits for the
  value's \<open>MarshalText\<close>.\<close>

definition asks_value :: "'j lib \<Rightarrow> bool" where
  "asks_value lib \<longleftrightarrow>
     (\<forall>self e b e'. lib_Marshal_envelope lib self e = Some (Return (Inr b, e')) \<longrightarrow>
        (\<exists>f \<in> {m_MarshalText self, m_MarshalBinary self, m_MarshalBSON self}.
           \<exists>b e'. f e = Some (Return (Inr b, e'))))"

definition waits_for_text :: "'j lib \<Rightarrow> bool" where
  "waits_for_text lib \<longleftrightarrow>
     (\<forall>self e. m_MarshalText self e = None \<longrightarrow> lib_Marshal_envelope lib self e = None)"

lemma bson_guard_Inr: "bson_guard f e = Some (Return (Inr b, e')) \<Longrightarrow> f e = Some (Return (Inr b, e'))"
  by (simp add: bson_guard_def split: if_splits)

lemma marshal_never:
  assumes "\<forall>codec \<in> snd ` set (rg_Codecs r). asks_value (cd_Lib codec)"
  shows "marshal n r repr e \<noteq> Some (Return (Inr b, e'))"
proof (induction n arbitrary: repr e b e')
  case (Suc n)
  show ?case
  proof
    assume m: "marshal (Suc n) r repr e = Some (Return (Inr b, e'))"
    then obtain codec data self where c: "map_of (rg_Codecs r) (sc_Format (ev_Schema e)) = Some codec"
      and w: "lib_Marshal_envelope (cd_Lib codec) self (e\<lparr>ev_Payload := Some data\<rparr>) = Some (Return (Inr b, e'))"
      and self: "m_MarshalText self = marshal n r RepresentationText"
        "m_MarshalBinary self = marshal n r RepresentationBinary"
        "m_MarshalBSON self = bson_guard (marshal n r RepresentationBinary)"
      by (fastforce simp: Let_def split: option.splits sum.splits if_splits)
    have "asks_value (cd_Lib codec)" using assms map_of_SomeD[OF c] by force
    then show False
      using w Suc.IH bson_guard_Inr unfolding asks_value_def self[symmetric] by (metis (no_types, lifting) insertE empty_iff self)
  qed
qed simp

text \<open>Writing an envelope never succeeds. With libraries that use the marshaling methods of the
  values they write, the methods of an envelope call each other through the library until the
  guard on BSON formats refuses, so no call ever answers the written form; a codec of a text
  format does not answer at all, however long it runs.\<close>

theorem envelopes_cannot_be_written:
  assumes "\<forall>codec \<in> snd ` set (rg_Codecs r). asks_value (cd_Lib codec)"
  shows "MarshalText n r e \<noteq> Some (Return (Inr b, e')) \<and> MarshalBinary n r e \<noteq> Some (Return (Inr b, e')) \<and>
    MarshalBSON n r e \<noteq> Some (Return (Inr b, e')) \<and>
    (ev_registry e \<and> map_of (rg_Codecs r) (sc_Format (ev_Schema e)) = Some codec \<and>
       cd_Representation codec = RepresentationText \<and> waits_for_text (cd_Lib codec) \<and>
       lib_Marshal (cd_Lib codec) (ev_cache e) = Inr data \<longrightarrow> MarshalText n r e = None)"
proof -
  have "marshal n r RepresentationText e = None"
    if "ev_registry e" "map_of (rg_Codecs r) (sc_Format (ev_Schema e)) = Some codec"
      "cd_Representation codec = RepresentationText" "waits_for_text (cd_Lib codec)"
      "lib_Marshal (cd_Lib codec) (ev_cache e) = Inr data"
    using that
  proof (induction n arbitrary: e)
    case (Suc n)
    from Suc.IH[of "e\<lparr>ev_Payload := Some data\<rparr>"] Suc.prems show ?case
      by (simp add: Let_def waits_for_text_def)
  qed simp
  with marshal_never[OF assms] show ?thesis
    by (auto simp: MarshalText_def MarshalBinary_def MarshalBSON_def dest: bson_guard_Inr)
qed

lemma unary_asks: "asks_value unary_lib" "waits_for_text unary_lib"
  by (auto simp: asks_value_def waits_for_text_def unary_lib_def split: option.splits outcome.splits sum.splits)

theorem envelopes_cannot_be_written_witness:
  "\<exists>e. MakeEnvelope 0 5 example_registry example_schema 3 = Return (Inr e) \<and>
     MarshalText 100 example_registry e = None"
proof -
  obtain e where e: "MakeEnvelope 0 5 example_registry example_schema 3 = Return (Inr e)"
    using example_codec by (simp add: MakeEnvelope_Inr) (simp add: example_schema_def)
  have all: "\<forall>codec \<in> snd ` set (rg_Codecs example_registry). asks_value (cd_Lib codec)"
    by (simp add: example_registry_def Register_def DefaultCodecStore_def CodecStore_Add_def unary_asks
        MakeCodecJSON_def MakeCodecDriverBSON_def MakeCodecBirchBSON_def MakeCodecYAML_def
        SerializationCodecStdlibJSON_def SerializationCodecDriverBSON_def SerializationCodecYAML_def)
  have "ev_registry e \<and> map_of (rg_Codecs example_registry) (sc_Format (ev_Schema e)) = Some (MakeCodecYAML unary_lib) \<and>
      cd_Representation (MakeCodecYAML unary_lib) = RepresentationText \<and>
      waits_for_text (cd_Lib (MakeCodecYAML unary_lib)) \<and>
      lib_Marshal (cd_Lib (MakeCodecYAML unary_lib)) (ev_cache e) = Inr ''xxx''"
  proof (intro conjI)
    show "waits_for_text (cd_Lib (MakeCodecYAML unary_lib))" by (simp add: MakeCodecYAML_def unary_asks)
    show "lib_Marshal (cd_Lib (MakeCodecYAML unary_lib)) (ev_cache e) = Inr ''xxx''"
      using e by (auto simp: MakeEnvelope_Inr MakeCodecYAML_def unary_lib_def numeral_3_eq_3)
  qed (use e example_codec in \<open>auto simp: MakeEnvelope_Inr MakeCodecYAML_def\<close>)
  with envelopes_cannot_be_written[OF all, of 100 e] e show ?thesis by blast
qed

end
