(* ===== verification/Dblock.thy ===== *)
theory Dblock
  imports Go_Prelude "HOL-Library.Word"
begin

text \<open>
  The distributed lock of \<open>x/dblock/lock.go\<close>, over a collection of a database whose driver is a
  record of parameters. Times and durations are nanoseconds. The loop that acquires the lock has
  no bound in the code and takes a number of rounds here; the goroutine that refreshes the lock is
  the step it makes at each tick.
\<close>

record Configuration =
  URI :: string
  Database :: string
  Collection :: string
  InstanceID :: string
  Prefix :: string
  TTL :: int

record LockRecord =
  lr_Name :: string
  lr_Active :: bool
  lr_ModTime :: int
  lr_ModCount :: "64 word"
  lr_Owner :: string

datatype bson =
    B_String string | B_Bool bool | B_Int "64 word" | B_Time int
  | B_Doc "(string \<times> bson) list" | B_Array "bson list"

text \<open>What a query for one document answers: an error, or a document, which decodes into a record
  and perhaps an error.\<close>

datatype single_result = Result_Error go_error | Document LockRecord "go_error option"

record 'w driver =
  find_one :: "bson \<Rightarrow> 'w \<Rightarrow> single_result \<times> 'w"
  find_one_and_update :: "bson \<Rightarrow> LockRecord \<Rightarrow> 'w \<Rightarrow> single_result \<times> 'w"
  update_one :: "bson \<Rightarrow> bson \<Rightarrow> 'w \<Rightarrow> (go_error + int) \<times> 'w"
  count_documents :: "bson \<Rightarrow> 'w \<Rightarrow> (go_error + int) \<times> 'w"
  clock :: "'w \<Rightarrow> int"
  expired_context :: "go_error \<Rightarrow> bool"

record mdbLockService =
  sv_conf :: "Configuration option"
  sv_client :: bool

definition NewLockService :: "Configuration option \<Rightarrow> mdbLockService" where
  "NewLockService _ = \<lparr>sv_conf = None, sv_client = False\<rparr>"

text \<open>A lock holds a pointer to its service; its context is nil or not, and its waiter, which is
  shared, is the one of the first holder.\<close>

record mdbLockImpl =
  lk_ctx :: bool
  lk_srv :: mdbLockService
  lk_record :: LockRecord
  lk_waiter :: "nat option"

definition GetLock :: "mdbLockService \<Rightarrow> string \<Rightarrow> mdbLockImpl" where
  "GetLock ls name =
     \<lparr>lk_ctx = False, lk_srv = ls,
      lk_record = \<lparr>lr_Name = name, lr_Active = False, lr_ModTime = 0, lr_ModCount = 0, lr_Owner = []\<rparr>,
      lk_waiter = None\<rparr>"

text \<open>The collection needs the configuration, and the client, which the driver looks into.\<close>

definition collection :: "mdbLockService \<Rightarrow> Configuration outcome" where
  "collection ls =
     (case sv_conf ls of
        None \<Rightarrow> Panic nil_deref
      | Some conf \<Rightarrow> if sv_client ls then Return conf else Panic nil_deref)"

definition CheckLock :: "'w driver \<Rightarrow> mdbLockService \<Rightarrow> string \<Rightarrow> 'w \<Rightarrow> ((bool \<times> go_error option) \<times> 'w) outcome" where
  "CheckLock db ls name w =
     (case collection ls of
        Panic p \<Rightarrow> Panic p
      | Return conf \<Rightarrow>
          (case count_documents db (B_Doc [(''_id'', B_String name)]) w of
             (Inl err, w) \<Rightarrow> Return ((False, Some err), w)
           | (Inr num, w) \<Rightarrow> Return ((num = 1, None), w)))"

section \<open>Looking at the lock\<close>

definition round_ms :: "int \<Rightarrow> int" where
  "round_ms t = (let r = t mod 1000000 in if r + r < 1000000 then t - r else t + (1000000 - r))"

definition getNextQuery :: "Configuration \<Rightarrow> LockRecord \<Rightarrow> int \<Rightarrow> bson" where
  "getNextQuery conf rec now = B_Doc
     [(''_id'', B_String (lr_Name rec)),
      (''$or'', B_Array
        [B_Doc [(''in_use'', B_Bool False)],
         B_Doc [(''in_use'', B_Bool True), (''mod_time'', B_Doc [(''$lte'', B_Time (now - TTL conf))])]]),
      (''mod_count'', B_Doc [(''$gte'', B_Int (lr_ModCount rec))])]"

definition updateLockView ::
    "'w driver \<Rightarrow> mdbLockImpl \<Rightarrow> 'w \<Rightarrow> (go_error option \<times> mdbLockImpl \<times> 'w) outcome" where
  "updateLockView db l w =
     (case collection (lk_srv l) of
        Panic p \<Rightarrow> Panic p
      | Return conf \<Rightarrow>
          let now = round_ms (clock db w)
          in case find_one db (getNextQuery conf (lk_record l) now) w of
               (Result_Error err, w) \<Rightarrow> Return (Some err, l, w)
             | (Document rec (Some err), w) \<Rightarrow> Return (Some err, l\<lparr>lk_record := rec\<rparr>, w)
             | (Document rec None, w) \<Rightarrow>
                 Return (None, l\<lparr>lk_record := rec\<lparr>lr_ModCount := lr_ModCount rec + 1, lr_ModTime := now\<rparr>\<rparr>, w))"

section \<open>Acquiring the lock\<close>

text \<open>\<open>res.Decode\<close> of a nil result is a nil dereference, and of an error that error; the callers panic
  with the errors it returns.\<close>

definition must_decode :: "single_result option \<Rightarrow> LockRecord outcome" where
  "must_decode res =
     (case res of
        None \<Rightarrow> Panic nil_deref
      | Some (Result_Error err) \<Rightarrow> Panic err
      | Some (Document rec (Some err)) \<Rightarrow> Panic err
      | Some (Document rec None) \<Rightarrow> Return rec)"

text \<open>When the last look has failed: write the lock as taken by this instance.\<close>

definition try_take ::
    "'w driver \<Rightarrow> Configuration \<Rightarrow> go_error option \<Rightarrow> single_result option \<Rightarrow> mdbLockImpl \<Rightarrow> 'w \<Rightarrow>
     (go_error option \<times> single_result option \<times> mdbLockImpl \<times> 'w) outcome" where
  "try_take db conf err res l w =
     (if err = None then Return (err, res, l, w)
      else
        let rec = (lk_record l)\<lparr>lr_Active := True, lr_Owner := InstanceID conf\<rparr>;
            l = l\<lparr>lk_record := rec\<rparr>
        in case find_one_and_update db (getNextQuery conf rec (lr_ModTime rec)) rec w of
             (Result_Error e, w) \<Rightarrow> Return (Some e, Some (Result_Error e), l, w)
           | (Document d e, w) \<Rightarrow>
               (case must_decode (Some (Document d e)) of
                  Panic p \<Rightarrow> Panic p
                | Return rec \<Rightarrow> Return (None, Some (Document d e), l\<lparr>lk_record := rec\<rparr>, w)))"

text \<open>The error with which the loop ends is part of the result: the code goes on without looking at
  it.\<close>

fun lock_loop ::
    "nat \<Rightarrow> 'w driver \<Rightarrow> Configuration \<Rightarrow> go_error option \<Rightarrow> single_result option \<Rightarrow> mdbLockImpl \<Rightarrow> 'w \<Rightarrow>
     (go_error option \<times> mdbLockImpl \<times> 'w) outcome option" where
  "lock_loop 0 db conf err res l w = None"
| "lock_loop (Suc rounds) db conf err res l w =
     (if (case err of Some e \<Rightarrow> expired_context db e | None \<Rightarrow> False) then Some (Return (err, l, w))
      else
        (case try_take db conf err res l w of
           Panic p \<Rightarrow> Some (Panic p)
         | Return (Some e, res, l, w) \<Rightarrow>
             (case updateLockView db l w of
                Panic p \<Rightarrow> Some (Panic p)
              | Return (err, l, w) \<Rightarrow> lock_loop rounds db conf err res l w)
         | Return (None, res, l, w) \<Rightarrow>
             (case must_decode res of
                Panic p \<Rightarrow> Some (Panic p)
              | Return rec \<Rightarrow>
                  if \<not> lr_Active rec then lock_loop rounds db conf None res (l\<lparr>lk_record := rec\<rparr>) w
                  else if lr_Owner rec \<noteq> InstanceID conf
                  then lock_loop rounds db conf None res (l\<lparr>lk_record := rec\<rparr>) w
                  else Some (Return (None, l\<lparr>lk_record := rec\<rparr>, w)))))"

text \<open>The waiter that is already there is handed out instead of the new one, \<open>fresh\<close>.\<close>

definition take_waiter :: "nat \<Rightarrow> mdbLockImpl \<Rightarrow> nat \<times> mdbLockImpl" where
  "take_waiter fresh l =
     (case lk_waiter l of None \<Rightarrow> (fresh, l\<lparr>lk_waiter := Some fresh\<rparr>) | Some nw \<Rightarrow> (nw, l))"

definition nil_context :: go_error where
  "nil_context = Errf ''cannot create context from nil parent'' []"

definition Lock ::
    "nat \<Rightarrow> 'w driver \<Rightarrow> nat \<Rightarrow> mdbLockImpl \<Rightarrow> 'w \<Rightarrow> (nat \<times> mdbLockImpl \<times> 'w) outcome option" where
  "Lock rounds db fresh l w =
     (if \<not> lk_ctx l then Some (Panic nil_context)
      else
        (case collection (lk_srv l) of
           Panic p \<Rightarrow> Some (Panic p)
         | Return conf \<Rightarrow>
             (case updateLockView db l w of
                Panic p \<Rightarrow> Some (Panic p)
              | Return (err, l, w) \<Rightarrow>
                  (case lock_loop rounds db conf err None l w of
                     None \<Rightarrow> None
                   | Some (Panic p) \<Rightarrow> Some (Panic p)
                   | Some (Return (_, l, w)) \<Rightarrow>
                       (case take_waiter fresh l of (waiter, l) \<Rightarrow> Some (Return (waiter, l, w)))))))"

section \<open>Keeping the lock\<close>

definition ping_query :: "LockRecord \<Rightarrow> int \<Rightarrow> bson" where
  "ping_query rec timeout = B_Doc
     [(''_id'', B_String (lr_Name rec)),
      (''$or'', B_Array
        [B_Doc [(''owner'', B_String (lr_Owner rec)), (''mod_time'', B_Doc [(''$gt'', B_Time timeout)]),
                (''mod_count'', B_Doc [(''$in'', B_Array [B_Int (lr_ModCount rec), B_Int (lr_ModCount rec - 1)])])],
         B_Doc [(''mod_time'', B_Doc [(''$lte'', B_Time timeout)])]])]"

definition ping_update :: "int \<Rightarrow> bson" where
  "ping_update now = B_Doc [(''mod_count'', B_Doc [(''$inc'', B_Int 1)]), (''mod_time'', B_Time now)]"

text \<open>Whether the goroutine goes on after a tick.\<close>

definition ping_tick :: "'w driver \<Rightarrow> Configuration \<Rightarrow> LockRecord \<Rightarrow> 'w \<Rightarrow> bool \<times> 'w" where
  "ping_tick db conf rec w =
     (let now = round_ms (clock db w); timeout = now - TTL conf
      in case update_one db (ping_query rec timeout) (ping_update now) w of
           (Inl err, w) \<Rightarrow> (False, w)
         | (Inr modified, w) \<Rightarrow> (modified = 1, w))"

text \<open>The goroutine: it sees ticks, and the end of the context that the lock was taken with. The result is
  whether it has closed its signal.\<close>

datatype ping_event = Ping_Tick | Ping_Cancelled

fun startBackgroundLockPing ::
    "'w driver \<Rightarrow> Configuration \<Rightarrow> LockRecord \<Rightarrow> ping_event list \<Rightarrow> 'w \<Rightarrow> bool \<times> 'w" where
  "startBackgroundLockPing db conf rec [] w = (False, w)"
| "startBackgroundLockPing db conf rec (Ping_Cancelled # events) w = (True, w)"
| "startBackgroundLockPing db conf rec (Ping_Tick # events) w =
     (case ping_tick db conf rec w of
        (True, w) \<Rightarrow> startBackgroundLockPing db conf rec events w
      | (False, w) \<Rightarrow> (True, w))"

text \<open>A waiter runs until its context is done or the signal is closed, and then is no longer the waiter
  of the lock; until then it blocks (\<open>None\<close>).\<close>

definition run_waiter :: "nat \<Rightarrow> bool \<Rightarrow> bool \<Rightarrow> mdbLockImpl \<Rightarrow> mdbLockImpl option" where
  "run_waiter waiter ctx_done signal l =
     (if ctx_done \<or> signal
      then Some (if lk_waiter l = Some waiter then l\<lparr>lk_waiter := None\<rparr> else l) else None)"

text \<open>\<open>Unlock\<close> runs the waiter with a context that is never done.\<close>

definition Unlock :: "bool \<Rightarrow> mdbLockImpl \<Rightarrow> mdbLockImpl option" where
  "Unlock signal l =
     (case lk_waiter l of None \<Rightarrow> Some l | Some waiter \<Rightarrow> run_waiter waiter False signal l)"

section \<open>What locking amounts to\<close>

lemma round_ms_bounds:
  "round_ms t mod 1000000 = 0 \<and> abs (round_ms t - t) \<le> 500000"
proof -
  define r where "r = t mod 1000000"
  have r: "0 \<le> r" "r < 1000000" by (simp_all add: r_def)
  have t: "(t - r) mod 1000000 = 0" by (simp add: r_def)
  moreover have "(t + (1000000 - r)) mod 1000000 = 0"
    using t by (metis add.commute add_diff_eq diff_add_eq mod_add_self1)
  ultimately show ?thesis
    using r by (auto simp: round_ms_def Let_def simp flip: r_def)
qed

text \<open>A driver that takes no document for an update unless it is made of update operators refuses
  the one that the code gives it, the lock itself.\<close>

definition refuses_records :: "'w driver \<Rightarrow> bool" where
  "refuses_records db \<longleftrightarrow>
     (\<forall>q rec w. case find_one_and_update db q rec w of (Result_Error e, _) \<Rightarrow> True | (Document _ _, _) \<Rightarrow> False)"

abbreviation no_document :: "single_result option \<Rightarrow> bool" where
  "no_document res \<equiv> \<not> (\<exists>d e. res = Some (Document d e))"

lemma refused:
  assumes "refuses_records db"
  obtains e w' where "find_one_and_update db q rec w = (Result_Error e, w')"
proof -
  obtain r w' where r: "find_one_and_update db q rec w = (r, w')" by fastforce
  then show ?thesis
    using assms that unfolding refuses_records_def by (cases r) (fastforce, metis (no_types) case_prod_conv single_result.simps(6))
qed

lemma try_take_refused:
  assumes "refuses_records db"
  obtains "err = None" "try_take db conf err res l w = Return (None, res, l, w)"
  | e l' w' where "try_take db conf err res l w = Return (Some e, Some (Result_Error e), l', w')"
proof (cases "err = None")
  case True
  then show ?thesis using that(1) by (simp add: try_take_def)
next
  case False
  define rec where "rec = (lk_record l)\<lparr>lr_Active := True, lr_Owner := InstanceID conf\<rparr>"
  obtain e w' where "find_one_and_update db (getNextQuery conf rec (lr_ModTime rec)) rec w = (Result_Error e, w')"
    using refused[OF assms] by metis
  then show ?thesis using that(2) False by (simp add: try_take_def Let_def rec_def)
qed

lemma lock_loop_refused:
  assumes "refuses_records db" "no_document res" "\<And>e. \<not> expired_context db e"
  shows "lock_loop rounds db conf err res l w = None \<or>
    (\<exists>p. lock_loop rounds db conf err res l w = Some (Panic p))"
  using assms(2)
proof (induction rounds arbitrary: err res l w)
  case (Suc rounds)
  have x: "\<not> (case err of Some e \<Rightarrow> expired_context db e | None \<Rightarrow> False)"
    using assms(3) by (simp split: option.splits)
  show ?case
  proof (cases rule: try_take_refused[OF assms(1), of err conf res l w])
    case 1
    have "\<exists>p. must_decode res = Panic p"
      using Suc.prems by (auto simp: must_decode_def split: option.splits single_result.splits)
    then show ?thesis using x 1 by auto
  next
    case (2 e l' w')
    then show ?thesis
      using x Suc.IH[of "Some (Result_Error e)"]
      by (auto split: outcome.splits)
  qed
qed simp

text \<open>Unlocking does not release a lock but waits until it is lost: for a lock with a waiter it returns only
  after the end of the context or after a tick whose update failed or changed nothing. As the
  update of a tick is not made of operators either, a driver that refuses such updates ends the
  lease at the first tick, whoever holds the lock; while no tick has passed, \<open>Unlock\<close> blocks.\<close>

fun update_operators :: "bson \<Rightarrow> bool" where
  "update_operators (B_Doc fs) \<longleftrightarrow> list_all (\<lambda>(k, v). has_prefix k ''$'') fs"
| "update_operators _ \<longleftrightarrow> False"

definition refuses_updates :: "'w driver \<Rightarrow> bool" where
  "refuses_updates db \<longleftrightarrow>
     (\<forall>q u w. \<not> update_operators u \<longrightarrow> (case update_one db q u w of (Inl e, _) \<Rightarrow> True | (Inr n, _) \<Rightarrow> False))"

lemma ping_refused: "refuses_updates db \<Longrightarrow> \<not> fst (ping_tick db conf rec w)"
proof -
  assume r: "refuses_updates db"
  define now where "now = round_ms (clock db w)"
  have "\<not> update_operators (ping_update now)" by (simp add: ping_update_def has_prefix_def)
  then have "case update_one db (ping_query rec (now - TTL conf)) (ping_update now) w of
      (Inl e, _) \<Rightarrow> True | (Inr n, _) \<Rightarrow> False"
    using r unfolding refuses_updates_def by (elim allE impE) assumption+
  then show ?thesis by (auto simp: ping_tick_def now_def split: prod.splits sum.splits)
qed

theorem unlock_waits_for_loss:
  assumes "lk_waiter l = Some waiter"
  shows "Unlock (fst (startBackgroundLockPing db conf rec events w)) l \<noteq> None \<Longrightarrow>
      Ping_Cancelled \<in> set events \<or> (\<exists>w'. \<not> fst (ping_tick db conf rec w'))"
    and "refuses_updates db \<Longrightarrow>
      Unlock (fst (startBackgroundLockPing db conf rec events w)) l =
      (if events = [] then None else Some (l\<lparr>lk_waiter := None\<rparr>))"
proof -
  have "fst (startBackgroundLockPing db conf rec events w) \<Longrightarrow>
      Ping_Cancelled \<in> set events \<or> (\<exists>w'. \<not> fst (ping_tick db conf rec w'))"
    by (induction db conf rec events w rule: startBackgroundLockPing.induct)
      (auto split: prod.splits bool.splits, metis fst_conv)
  then show "Unlock (fst (startBackgroundLockPing db conf rec events w)) l \<noteq> None \<Longrightarrow>
      Ping_Cancelled \<in> set events \<or> (\<exists>w'. \<not> fst (ping_tick db conf rec w'))"
    using assms by (auto simp: Unlock_def run_waiter_def split: if_splits)
  show "Unlock (fst (startBackgroundLockPing db conf rec events w)) l =
      (if events = [] then None else Some (l\<lparr>lk_waiter := None\<rparr>))" if "refuses_updates db"
  proof (cases "(db, conf, rec, events, w)" rule: startBackgroundLockPing.cases)
    case (3 db' conf' rec' es w')
    have "\<not> fst (ping_tick db conf rec w)" using ping_refused[OF that] .
    then show ?thesis using 3 assms by (auto simp: Unlock_def run_waiter_def split: prod.splits bool.splits)
  qed (use assms in \<open>auto simp: Unlock_def run_waiter_def\<close>)
qed

text \<open>The lock is never taken. A lock that the service of the package makes has no context, and
  taking it panics, as does asking whether it is there, whatever the configuration. A lock set up
  by hand fares no better: the driver refuses the record that the code writes, which has no update
  operator, so that, while the context has not expired, \<open>Lock\<close> either panics or is still trying
  after any number of rounds; and when the lock is free at first sight, it panics at once.\<close>

theorem lock_never_taken:
  assumes "refuses_records db" "\<And>e. \<not> expired_context db e"
  shows "Lock rounds db fresh (GetLock (NewLockService conf) name) w = Some (Panic nil_context) \<and>
    CheckLock db (NewLockService conf) name w = Panic nil_deref \<and>
    (Lock rounds db fresh l w = None \<or> (\<exists>p. Lock rounds db fresh l w = Some (Panic p))) \<and>
    (case updateLockView db l w of
       Return (None, _, _) \<Rightarrow> lk_ctx l \<longrightarrow> Lock (Suc rounds) db fresh l w = Some (Panic nil_deref)
     | _ \<Rightarrow> True)"
proof -
  have n: "no_document None" by simp
  have "Lock rounds db fresh l w = None \<or> (\<exists>p. Lock rounds db fresh l w = Some (Panic p))"
  proof (cases "collection (lk_srv l)")
    case (Return conf)
    show ?thesis
    proof (cases "updateLockView db l w")
      case u: (Return r)
      obtain err l1 w1 where r: "r = (err, l1, w1)" by (cases r) auto
      show ?thesis
        using lock_loop_refused[OF assms(1) n assms(2), of rounds conf err l1 w1] Return u
        by (auto simp: Lock_def r)
    qed (use Return in \<open>simp add: Lock_def\<close>)
  qed (simp add: Lock_def)
  moreover have "lk_ctx l \<longrightarrow> Lock (Suc rounds) db fresh l w = Some (Panic nil_deref)"
    if u: "updateLockView db l w = Return (None, l', w')" for l' w'
  proof -
    obtain conf where "collection (lk_srv l) = Return conf"
      using u by (cases "collection (lk_srv l)") (simp_all add: updateLockView_def)
    then show ?thesis using u by (simp add: Lock_def try_take_def must_decode_def)
  qed
  then have "case updateLockView db l w of
       Return (None, _, _) \<Rightarrow> lk_ctx l \<longrightarrow> Lock (Suc rounds) db fresh l w = Some (Panic nil_deref)
     | _ \<Rightarrow> True"
    by (auto split: outcome.split prod.split option.split)
  moreover have "Lock rounds db fresh (GetLock (NewLockService conf) name) w = Some (Panic nil_context)"
    "CheckLock db (NewLockService conf) name w = Panic nil_deref"
    by (simp_all add: Lock_def CheckLock_def GetLock_def NewLockService_def collection_def)
  ultimately show ?thesis by blast
qed

text \<open>A collection in which every look finds nothing, and every update is refused.\<close>

definition empty_db :: "nat driver" where
  "empty_db = \<lparr>find_one = (\<lambda>q w. (Result_Error (Errf ''no documents'' []), w + 1)),
     find_one_and_update = (\<lambda>q r w. (Result_Error (Errf ''update document must contain key beginning with $'' []), w + 1)),
     update_one = (\<lambda>q u w. (Inr 0, w)), count_documents = (\<lambda>q w. (Inr 0, w)), clock = int,
     expired_context = (\<lambda>e. False)\<rparr>"

definition demo_lock :: mdbLockImpl where
  "demo_lock = (GetLock \<lparr>sv_conf = Some \<lparr>URI = [], Database = ''db'', Collection = ''locks'', InstanceID = ''me'',
     Prefix = [], TTL = 1000\<rparr>, sv_client = True\<rparr> ''job'')\<lparr>lk_ctx := True\<rparr>"

theorem lock_never_taken_witness:
  "Lock 3 empty_db 0 demo_lock 0 = None \<and>
   (Lock 3 empty_db 0 demo_lock 0 = None \<or> (\<exists>p. Lock 3 empty_db 0 demo_lock 0 = Some (Panic p)))"
proof -
  have r: "refuses_records empty_db" "\<And>e. \<not> expired_context empty_db e"
    by (simp_all add: refuses_records_def empty_db_def)
  have "Lock 3 empty_db 0 demo_lock 0 = None"
    by (simp add: Lock_def empty_db_def demo_lock_def GetLock_def collection_def updateLockView_def Let_def
        try_take_def eval_nat_numeral)
  then show ?thesis using lock_never_taken[OF r, of 3 0 None "[]" 0 demo_lock] by blast
qed

end
