(* ===== verification/Linked_Queue.thy ===== *)
theory Linked_Queue
  imports Go_Prelude
begin

text \<open>
  The linked queue of \<open>cmd/queue/main.go\<close>: items in a heap that point to the next one, a pointer to
  the first and one to the last. An address is an index of the heap, which only grows; each method
  holds the lock of the queue throughout, so that they run one after another. What a queue holds
  is the list of the values on the way from its head.
\<close>

record 'a item =
  it_value :: 'a
  it_next :: "nat option"

record 'a Queue =
  q_size :: int
  q_head :: "nat option"
  q_tail :: "nat option"
  q_heap :: "'a item list"

definition Size :: "'a Queue \<Rightarrow> int" where "Size q = q_size q"

definition IsEmpty :: "'a Queue \<Rightarrow> bool" where "IsEmpty q \<longleftrightarrow> Size q = 0"

definition Peek :: "'a Queue \<Rightarrow> 'a option" where
  "Peek q = (case q_head q of Some r \<Rightarrow> Some (it_value (q_heap q ! r)) | None \<Rightarrow> None)"

text \<open>The queue after a panic is the one that the statements before it have left.\<close>

definition Dequeue :: "'a Queue \<Rightarrow> 'a option outcome \<times> 'a Queue" where
  "Dequeue q =
     (case q_head q of
        None \<Rightarrow> (Return None, q)
      | Some r \<Rightarrow>
          let q = q\<lparr>q_size := q_size q - 1\<rparr>;
              out = it_value (q_heap q ! r);
              q = q\<lparr>q_head := it_next (q_heap q ! r)\<rparr>
          in case q_head q of
               None \<Rightarrow> (Panic nil_deref, q)
             | Some h \<Rightarrow>
                 (Return (Some out), if it_next (q_heap q ! h) = None then q\<lparr>q_tail := None\<rparr> else q))"

definition Enqueue :: "'a \<Rightarrow> 'a Queue \<Rightarrow> unit outcome \<times> 'a Queue" where
  "Enqueue val q =
     (let it = length (q_heap q);
          q = q\<lparr>q_heap := q_heap q @ [\<lparr>it_value = val, it_next = None\<rparr>], q_size := q_size q + 1\<rparr>
      in if q_head q = None then (Return (), q\<lparr>q_head := Some it, q_tail := Some it\<rparr>)
         else
           (case q_tail q of
              None \<Rightarrow> (Panic nil_deref, q)
            | Some t \<Rightarrow>
                (Return (), q\<lparr>q_heap := (q_heap q)[t := (q_heap q ! t)\<lparr>it_next := Some it\<rparr>],
                              q_tail := Some it\<rparr>)))"

definition new_Queue :: "'a Queue" where
  "new_Queue = \<lparr>q_size = 0, q_head = None, q_tail = None, q_heap = []\<rparr>"

section \<open>What a queue holds\<close>

fun chain :: "'a item list \<Rightarrow> nat option \<Rightarrow> nat list \<Rightarrow> bool" where
  "chain h p [] \<longleftrightarrow> p = None"
| "chain h p (r # rs) \<longleftrightarrow> p = Some r \<and> r < length h \<and> chain h (it_next (h ! r)) rs"

definition holds :: "'a Queue \<Rightarrow> 'a list \<Rightarrow> bool" where
  "holds q xs \<longleftrightarrow> (\<exists>rs. chain (q_heap q) (q_head q) rs \<and> distinct rs \<and>
     xs = map (\<lambda>r. it_value (q_heap q ! r)) rs \<and> q_size q = int (length rs) \<and>
     (rs \<noteq> [] \<longrightarrow> q_tail q = Some (last rs)))"

lemma chain_bound: "chain h p rs \<Longrightarrow> r \<in> set rs \<Longrightarrow> r < length h"
  by (induction rs arbitrary: p) auto

lemma chain_alloc: "chain h p rs \<Longrightarrow> chain (h @ [it]) p rs"
  by (induction rs arbitrary: p) (auto simp: nth_append)

lemma chain_update_other: "t \<notin> set rs \<Longrightarrow> chain (h[t := c]) p rs \<longleftrightarrow> chain h p rs"
  by (induction rs arbitrary: p) auto

lemma chain_link:
  assumes "chain h p (rs @ [t])" "distinct (rs @ [t])" "n < length h" "it_next (h ! n) = None"
    "n \<notin> set (rs @ [t])"
  shows "chain (h[t := (h ! t)\<lparr>it_next := Some n\<rparr>]) p (rs @ [t, n])"
  using assms by (induction rs arbitrary: p) auto

lemma holds_new: "holds new_Queue []"
  by (simp add: holds_def new_Queue_def)

lemma Enqueue_holds:
  assumes "holds q xs"
  shows "\<exists>q'. Enqueue v q = (Return (), q') \<and> holds q' (xs @ [v])"
proof -
  obtain rs where rs: "chain (q_heap q) (q_head q) rs" "distinct rs"
    "xs = map (\<lambda>r. it_value (q_heap q ! r)) rs" "q_size q = int (length rs)"
    "rs \<noteq> [] \<longrightarrow> q_tail q = Some (last rs)"
    using assms by (auto simp: holds_def)
  define n where "n = length (q_heap q)"
  define h where "h = q_heap q @ [\<lparr>it_value = v, it_next = None\<rparr>]"
  have b: "r \<in> set rs \<Longrightarrow> r < n" for r using chain_bound[OF rs(1)] by (simp add: n_def)
  then have fresh: "n \<notin> set rs" by blast
  have vals: "map (\<lambda>r. it_value (h ! r)) rs = xs"
    using b rs(3) by (auto simp: h_def n_def nth_append)
  show ?thesis
  proof (cases rs rule: rev_cases)
    case Nil
    then have "holds (q\<lparr>q_heap := h, q_size := q_size q + 1, q_head := Some n, q_tail := Some n\<rparr>) (xs @ [v])"
      using rs by (auto simp: holds_def h_def n_def intro!: exI[of _ "[n]"])
    then show ?thesis using rs(1) Nil by (simp add: Enqueue_def Let_def h_def n_def)
  next
    case (snoc rs' t)
    define h' where "h' = h[t := (h ! t)\<lparr>it_next := Some n\<rparr>]"
    have c: "chain h (q_head q) (rs' @ [t])"
      using chain_alloc[OF rs(1)] by (simp add: h_def snoc)
    have n: "n < length h" "it_next (h ! n) = None" by (simp_all add: h_def n_def)
    have "chain h' (q_head q) (rs' @ [t, n])"
      unfolding h'_def using chain_link[OF c _ n] rs(2) fresh by (simp add: snoc)
    moreover have "map (\<lambda>r. it_value (h' ! r)) (rs' @ [t, n]) = xs @ [v]"
    proof -
      have "it_value (h' ! r) = it_value (h ! r)" if "r < length h" for r
        using that by (cases "r = t") (auto simp: h'_def nth_list_update)
      moreover have "r \<in> set rs \<Longrightarrow> r < length h" for r using b n(1) by fastforce
      ultimately show ?thesis using vals n(1) by (auto simp: snoc h_def n_def)
    qed
    ultimately have "holds (q\<lparr>q_size := q_size q + 1, q_heap := h', q_tail := Some n\<rparr>) (xs @ [v])"
      using rs(2,4) fresh unfolding holds_def
      by (intro exI[of _ "rs' @ [t, n]"]) (auto simp: snoc)
    moreover have "\<exists>r. q_head q = Some r" using rs(1) snoc by (cases rs') auto
    ultimately show ?thesis
      using rs(5) by (auto simp: snoc Enqueue_def Let_def h_def n_def h'_def)
  qed
qed

text \<open>What the linked queue promises and where it breaks. On a queue that holds a list, adding
  appends to the list, and looking gives its first value and its length. Removing from an empty
  queue answers nothing, and from three values or more removes the first. From one value it
  panics, and leaves the queue empty, with the value lost; from two it answers the first but
  forgets the tail, so that the next addition panics.\<close>

theorem queue_dequeue_by_length:
  assumes "holds q xs"
  shows "(\<exists>q'. Enqueue v q = (Return (), q') \<and> holds q' (xs @ [v])) \<and>
    Peek q = (case xs of [] \<Rightarrow> None | x # _ \<Rightarrow> Some x) \<and>
    Size q = int (length xs) \<and> (IsEmpty q \<longleftrightarrow> xs = []) \<and>
    (case xs of
       [] \<Rightarrow> Dequeue q = (Return None, q)
     | [x] \<Rightarrow> (\<exists>q'. Dequeue q = (Panic nil_deref, q') \<and> holds q' [])
     | [x, y] \<Rightarrow> (\<exists>q'. Dequeue q = (Return (Some x), q') \<and> fst (Enqueue v q') = Panic nil_deref)
     | x # ys \<Rightarrow> (\<exists>q'. Dequeue q = (Return (Some x), q') \<and> holds q' ys))"
proof -
  obtain rs where rs: "chain (q_heap q) (q_head q) rs" "distinct rs"
    "xs = map (\<lambda>r. it_value (q_heap q ! r)) rs" "q_size q = int (length rs)"
    "rs \<noteq> [] \<longrightarrow> q_tail q = Some (last rs)"
    using assms by (auto simp: holds_def)
  have "Peek q = (case xs of [] \<Rightarrow> None | x # _ \<Rightarrow> Some x)"
    using rs(1,3) by (cases rs) (auto simp: Peek_def)
  moreover have "Size q = int (length xs)" "IsEmpty q \<longleftrightarrow> xs = []"
    using rs(3,4) by (auto simp: Size_def IsEmpty_def)
  moreover have "case xs of
       [] \<Rightarrow> Dequeue q = (Return None, q)
     | [x] \<Rightarrow> (\<exists>q'. Dequeue q = (Panic nil_deref, q') \<and> holds q' [])
     | [x, y] \<Rightarrow> (\<exists>q'. Dequeue q = (Return (Some x), q') \<and> fst (Enqueue v q') = Panic nil_deref)
     | x # ys \<Rightarrow> (\<exists>q'. Dequeue q = (Return (Some x), q') \<and> holds q' ys)"
  proof (cases rs)
    case Nil
    then show ?thesis using rs(1,3) by (simp add: Dequeue_def)
  next
    case r: (Cons r rs1)
    show ?thesis
    proof (cases rs1)
      case Nil
      then show ?thesis using rs r by (auto simp: Dequeue_def holds_def Let_def)
    next
      case s: (Cons s rs2)
      show ?thesis
      proof (cases rs2)
        case Nil
        then show ?thesis using rs r s by (auto simp: Dequeue_def Enqueue_def Let_def)
      next
        case (Cons t rs3)
        then show ?thesis using rs r s
          by (auto simp: Dequeue_def holds_def Let_def intro!: exI[of _ "s # t # rs3"])
      qed
    qed
  qed
  ultimately show ?thesis using Enqueue_holds[OF assms] by blast
qed

theorem queue_dequeue_by_length_witness:
  "holds (snd (Enqueue (1 :: nat) new_Queue)) [1] \<and>
   fst (Dequeue (snd (Enqueue (1 :: nat) new_Queue))) = Panic nil_deref"
proof -
  have h: "holds (snd (Enqueue (1 :: nat) new_Queue)) [1]"
    using Enqueue_holds[OF holds_new, of "1 :: nat"] by auto
  show ?thesis using h queue_dequeue_by_length[OF h, of 0] by auto
qed

end
