(* ===== verification/Command_Tree.thy ===== *)
theory Command_Tree
  imports Go_Path
begin

text \<open>
  \<open>operations/\<close>: the commands that the program declares to its command line library. A command has
  names, flags and commands below it; its action comes with what is parsed from the command line and
  with the middleware that puts loggers, the configuration and the process manager into the context.
  What an action does is modelled in \<open>Operations\<close>, \<open>Menu\<close>, \<open>Exec_Menu\<close> and \<open>Gadget_Run\<close>; here an
  action is the list of what it takes out of the context.
\<close>

section \<open>Commands\<close>

text \<open>What a context carries. \<open>In_Configuration\<close> is the configuration of \<open>context.go\<close>, \<open>In_Jasper\<close> the
  process manager, the others are the loggers of \<open>srv/logging.go\<close> and the services of the root.\<close>

datatype ctx_value =
    In_Configuration | In_Jasper | In_AppLogger | In_RemoteNotify | In_DesktopNotify
  | In_WorkerPool | In_Cleanup

datatype flag_default = Default_Bool bool | Default_String string | Default_Int int | Default_Duration int

datatype flag = Flag (flag_default: flag_default) (flag_names: "string list") (flag_usage: string)

text \<open>How many values \<open>addOpCommand\<close> reads for its argument.\<close>

datatype arg_type = One_String | Many_Strings

datatype input =
    Raw_Command | Parsed_Configuration | Parsed_With_Arg string arg_type | Parsed_Message
  | Parsed_Gadget_Options | Parsed_Dupe_Options

text \<open>An action: its input, the middleware of its specification, what it takes from the context.\<close>

datatype action = Action (act_input: input) (act_middleware: "ctx_value list") (act_reads: "ctx_value list")

datatype command =
  Command (cmd_name: string) (cmd_aliases: "string list") (cmd_usage: string) (cmd_flags: "flag list")
    (cmd_middleware: "ctx_value list") (cmd_action: "action option") (cmd_subs: "command list")

text \<open>The process that the flags take their defaults from.\<close>

record process_env =
  pe_home :: string
  pe_cwd :: string
  pe_cpus :: int

section \<open>Specifications of actions\<close>

definition standard_middleware :: "ctx_value list" where
  "standard_middleware = [In_Configuration, In_Jasper, In_AppLogger, In_RemoteNotify]"

definition StandardSardisOperationSpec :: "ctx_value list \<Rightarrow> action" where
  "StandardSardisOperationSpec reads = Action Parsed_Configuration standard_middleware reads"

text \<open>The command is given the flag \<open>annotate\<close>; the flag that the argument is named after is not
  declared.\<close>

definition addOpCommand :: "command \<Rightarrow> string \<Rightarrow> arg_type \<Rightarrow> ctx_value list \<Rightarrow> command" where
  "addOpCommand cmd name ty reads =
     (case cmd of Command n as u fs mw act subs \<Rightarrow>
        Command n as u (fs @ [Flag (Default_Bool False) [''annotate''] ''enable additional annotations'']) mw
          (Some (Action (Parsed_With_Arg name ty)
             [In_Configuration, In_Jasper, In_AppLogger, In_RemoteNotify] reads)) subs)"

section \<open>admin.go\<close>

definition configCheck :: command where
  "configCheck =
     Command ''config'' [''conf''] ''validated configuration'' [] []
       (Some (StandardSardisOperationSpec []))
       [addOpCommand (Command ''system'' [''sys''] [] [] [] None []) ''para'' One_String []]"

definition nightly :: command where
  "nightly = Command ''nightly'' [] ''run nightly config operation'' [] []
     (Some (Action Parsed_Configuration [] [In_Jasper])) []"

definition linkOp :: command where
  "linkOp =
     Command ''links'' [''setup-links''] ''setup all configured links'' [] []
       (Some (StandardSardisOperationSpec [In_Jasper]))
       [addOpCommand (Command ''discover'' [''disco'', ''disc''] ''discover'' [] [] None [])
          ''format'' Many_Strings []]"

definition hacking :: command where
  "hacking =
     Command ''hack'' [] [] [] [] None
       [Command ''pkg'' [] [] [] [] (Some (StandardSardisOperationSpec [])) [],
        Command ''env'' [] [] [] [] (Some (StandardSardisOperationSpec [])) []]"

definition Admin :: command where
  "Admin = Command ''admin'' [] ''local systems administration scripts'' [] [] None
     [configCheck, nightly, linkOp, hacking]"

section \<open>arch.go\<close>

definition nameFlagName :: string where "nameFlagName = ''name''"

definition fetchAur :: command where
  "fetchAur = addOpCommand (Command ''fetch'' [] ''download source to build directory'' [] [] None [])
     nameFlagName Many_Strings [In_Jasper]"

definition buildPkg :: command where
  "buildPkg = addOpCommand (Command ''build'' [] ''build a package'' [] [] None [])
     nameFlagName Many_Strings [In_Jasper]"

definition installAur :: command where
  "installAur = addOpCommand
     (Command ''install'' [] ''fetch AUR package to the ABS directory, and install it'' [] [] None [])
     nameFlagName Many_Strings [In_Jasper]"

definition dumpArchPackages :: command where
  "dumpArchPackages = addOpCommand (Command ''export'' [] ''dump installed package database'' [] [] None [])
     nameFlagName One_String []"

definition setupArchLinux :: command where
  "setupArchLinux =
     Command ''setup'' [] ''bootstrap/setup system according to packages described'' [] []
       (Some (Action Parsed_Configuration [] [In_Jasper])) []"

definition ArchLinux :: command where
  "ArchLinux = Command ''arch'' [] ''arch linux management options'' [] [] None
     [fetchAur, buildPkg, installAur, dumpArchPackages, setupArchLinux]"

section \<open>blog.go, jira.go, notify.go, twitter.go and version.go\<close>

definition blogPublish :: command where
  "blogPublish = addOpCommand (Command ''publish'' [] ''run the publication operation'' [] [] None [])
     ''name'' One_String [In_Jasper, In_RemoteNotify]"

definition Blog :: command where
  "Blog = Command ''blog'' [] ''publish/manage blogging'' [] [] None [blogPublish]"

definition bulkCreateTickets :: command where
  "bulkCreateTickets = addOpCommand
     (Command ''create'' [] ''create tickets as specified in a file'' [] [] None []) ''path'' One_String []"

definition Jira :: command where
  "Jira = Command ''jira'' [] ''a collections of commands for jira management'' [] [] None [bulkCreateTickets]"

text \<open>Setting the middleware of the standard specification again replaces it.\<close>

definition notifyPipe :: command where
  "notifyPipe = Command ''pipe'' [''xmpp''] ''send the contents of standard input over xmpp'' [] []
     (Some (Action Parsed_Configuration [In_RemoteNotify] [In_RemoteNotify])) []"

definition notifySend :: command where
  "notifySend = addOpCommand (Command ''send'' [] ''send the remaining arguments over xmpp'' [] [] None [])
     ''message'' Many_Strings [In_RemoteNotify]"

definition notifyDesktop :: command where
  "notifyDesktop = Command ''desktop'' [] ''send desktop notification'' [] []
     (Some (Action Raw_Command [] [In_DesktopNotify])) []"

definition Notify :: command where
  "Notify = Command ''notify'' [''xmpp''] ''send an xmpp message'' [] [] None
     [notifyDesktop, notifyPipe, notifySend]"

definition Tweet :: command where
  "Tweet = Command ''tweet'' [] ''send a tweet'' [Flag (Default_String []) [''message'', ''m''] ''message to tweet'']
     [] (Some (Action Parsed_Message [] [In_Configuration])) []"

definition Version :: command where
  "Version = Command ''version'' [''v''] ''returns the version and build information of the binary'' [] []
     (Some (Action Raw_Command [] [])) []"

section \<open>repo.go\<close>

definition repoList :: command where
  "repoList = addOpCommand (Command ''list'' [''ls''] ''return a list of configured repos'' [] [] None [])
     ''repo'' Many_Strings []"

definition repoUpdate :: command where
  "repoUpdate = addOpCommand (Command ''update'' [''sync''] [] [] [] None []) ''repo'' Many_Strings [In_Jasper]"

definition repoCleanup :: command where
  "repoCleanup = addOpCommand (Command ''gc'' [''cleanup''] ''run repository cleanup'' [] [] None [])
     ''repo'' Many_Strings [In_Jasper]"

definition repoClone :: command where
  "repoClone = addOpCommand
     (Command ''clone'' [] ''clone a repository or all matching repositories'' [] [] None [])
     ''repo'' Many_Strings [In_Jasper]"

definition repoStatus :: command where
  "repoStatus = addOpCommand (Command ''status'' [] ''report on the status of repos'' [] [] None [])
     ''repo'' Many_Strings [In_Jasper]"

definition repoFetch :: command where
  "repoFetch = addOpCommand (Command ''fetch'' [] ''fetch one or more repos'' [] [] None [])
     ''repo'' Many_Strings [In_Jasper]"

definition repoGithubClone :: "process_env \<Rightarrow> command" where
  "repoGithubClone env =
     Command ''gh-clone'' [''gh'', ''ghc''] ''clone a repository or all matching repositories''
       [Flag (Default_String ''tychoish'') [''account'', ''a''] ''name of '',
        Flag (Default_String []) [''repo'', ''r''] ''name of repository'',
        Flag (Default_String (pe_cwd env)) [''path'', ''p''] ''path to clone repo to, defaults to pwd'']
       [] (Some (Action Raw_Command [] [In_Jasper])) []"

definition Repo :: "process_env \<Rightarrow> command" where
  "Repo env = Command ''repo'' [] ''a collections of commands to manage repositories'' [] [] None
     [repoList, repoUpdate, repoClone, repoGithubClone env, repoCleanup, repoStatus, repoFetch]"

section \<open>menu.go\<close>

definition commandFlagName :: string where "commandFlagName = ''command''"

definition listCommandsPlain :: command where
  "listCommandsPlain = Command ''plain'' [''p'', ''pl''] ''return a simple printed list of commands.'' [] []
     (Some (StandardSardisOperationSpec [])) []"

definition listCommandsWithInfo :: command where
  "listCommandsWithInfo = Command ''info'' [''extra'', ''x'', ''shell''] ''return a list of defined commands'' [] []
     (Some (StandardSardisOperationSpec [])) []"

definition listCommands :: command where
  "listCommands = addOpCommand
     (Command ''list'' [''ls'', ''l''] ''prints all commands, group, and aliases.'' [] [] None
        [listCommandsWithInfo, listCommandsPlain])
     ''group'' Many_Strings []"

definition fuzzySearch :: command where
  "fuzzySearch = addOpCommand (Command ''search'' [''find'', ''s'', ''f''] [] [] [] None [])
     ''name'' Many_Strings [In_Jasper]"

definition fuzzy :: command where
  "fuzzy = addOpCommand (Command ''fuzzy'' [''fuzz'', ''fzf'', ''fz'', ''ff''] [] [] [] None [fuzzySearch])
     ''name'' Many_Strings [In_Jasper]"

definition searchCommand :: command where
  "searchCommand = addOpCommand
     (Command ''search'' [''s'', ''find'', ''f''] ''list or run a command'' [] [] None [listCommands, fuzzy])
     ''name'' Many_Strings [In_Jasper]"

definition RunCommand :: command where
  "RunCommand = addOpCommand (Command ''run'' [''r''] ''runs a predefined command'' [] [] None [listCommands])
     commandFlagName Many_Strings [In_Jasper]"

definition SearchMenu :: command where
  "SearchMenu = addOpCommand
     (Command ''cmd'' [''c'', ''m'', ''cmds''] ''list or run a command'' [] [] None
        [fuzzy, searchCommand, listCommands])
     ''name'' Many_Strings [In_Jasper]"

definition ExecCommand :: command where
  "ExecCommand = addOpCommand (Command ''exec'' [] ''list or run a command'' [] [] None [])
     ''command'' One_String [In_Jasper]"

definition dmenuSearch :: command where
  "dmenuSearch = addOpCommand (Command ''search'' [''find'', ''s'', ''f''] [] [] [] None [])
     ''name'' One_String [In_Jasper]"

definition DMenu :: command where
  "DMenu = addOpCommand
     (Command ''dmenu'' [''d'', ''menu'']
        ''unless running a subcommand, launches a menu for specific group specific group, or attmepts to run a command directly.''
        [] [] None [dmenuSearch, listCommands, ExecCommand])
     commandFlagName Many_Strings [In_Jasper]"

section \<open>util.go and gadget.go\<close>

definition qrCode :: command where
  "qrCode = Command ''qr'' [] ''gets qrcode from x11 clipboard and renders it on the terminal'' [] []
     (Some (Action Raw_Command [] [In_Jasper])) []"

definition diffTrees :: command where
  "diffTrees = Command ''tree-diff'' [] ''Compare two trees of files, printing duplicates.''
     [Flag (Default_String []) [''target''] ''path of (mutable) target directory'',
      Flag (Default_String []) [''mirror''] ''path of imutable upstream copy'',
      Flag (Default_Bool False) [''deleteMatching'']
        ''when specified delete files from the target that are the same in the mirror'']
     [] (Some (Action Parsed_Dupe_Options [] [])) []"

definition Utilities :: command where
  "Utilities = Command ''utility'' [''util''] ''short utility commands'' [] [] None [diffTrees, qrCode]"

definition Gadget :: "process_env \<Rightarrow> command" where
  "Gadget env =
     Command ''gadget'' []
       (''runs go test (+lint +coverage) on a workspace '' @
        ''all non-flag arguments are passed directly to go test'')
       [Flag (Default_String ''./'') [''module-path'', ''m'']
          ''path of top-level workpace for gadget to look for go.mod'',
        Flag (Default_String ''...'') [''path'', ''p''] ''path to pass to go test without leading slashes.'',
        Flag (Default_Bool False) [''recursive'', ''r'']
          (''run recursively in all nested modules. Also ensures the --path ends with '' @
           [CHR 0x27] @ ''...'' @ [CHR 0x27]),
        Flag (Default_Duration (10 * 1000000000)) [''timeout'', ''t'']
          ''timeout to set to each individual go test invocation'',
        Flag (Default_Bool False) [''build'', ''compile'', ''b''] ''runs no-op test build for all packages'',
        Flag (Default_Bool False) [''skip-lint''] ''skip golangci-lint'',
        Flag (Default_Bool False) [''coverage'', ''cover'', ''c''] ''runs tests with coverage reporting'',
        Flag (Default_Int (pe_cpus env)) [''workers'', ''jobs'', ''j''] ''number of parallel workers'']
       [In_Jasper] (Some (Action Parsed_Gadget_Options [] [In_Jasper])) []"

section \<open>cmdr.go\<close>

text \<open>The root command, and whether the library is told to add its own command for the completion of
  command lines below it.\<close>

record root_commander =
  rt_Completion :: bool
  rt_Command :: command

definition Commander :: "process_env \<Rightarrow> root_commander" where
  "Commander env = \<lparr>rt_Completion = True, rt_Command =
     Command ''sardis'' [] []
       [Flag (Default_Bool False) [''jsonLog''] ''format logs as json'',
        Flag (Default_Bool False) [''colorJsonLog''] ''colorized json logs'',
        Flag (Default_Bool False) [''quietStdOut'']
          (''don'' @ [CHR 0x27] @ ''t log to standard out''),
        Flag (Default_Bool False) [''quietSyslog'', ''qs''] (''don'' @ [CHR 0x27] @ ''t log to syslog''),
        Flag (Default_String (path_join [pe_home env, ''.sardis.yaml''])) [''conf'', ''c'']
          ''configuration file path'',
        Flag (Default_String ''info'') [''level'']
          ''specify logging threshold: emergency|alert|critical|error|warning|notice|info|debug'']
       [In_DesktopNotify, In_WorkerPool, In_Cleanup] (Some (Action Raw_Command [] []))
       [Admin, ArchLinux, Blog, DMenu, Gadget env, Jira, Notify, Repo env, ExecCommand, RunCommand,
        Tweet, Utilities, Version, SearchMenu]\<rparr>"

section \<open>What a command line can reach\<close>

text \<open>A word of the command line names a command by its name or one of its aliases.\<close>

definition names_of :: "command \<Rightarrow> string list" where
  "names_of c = cmd_name c # cmd_aliases c"

fun lookup_path :: "command \<Rightarrow> string list \<Rightarrow> command option" where
  "lookup_path c [] = Some c"
| "lookup_path c (w # ws) =
     (case find (\<lambda>s. w \<in> set (names_of s)) (cmd_subs c) of
        None \<Rightarrow> None
      | Some s \<Rightarrow> lookup_path s ws)"

text \<open>All commands below a command, with their paths and the middleware on the way.\<close>

fun reachable :: "string list \<Rightarrow> ctx_value list \<Rightarrow> command \<Rightarrow> (string list \<times> ctx_value list \<times> command) list" where
  "reachable path mws (Command n as u fs mw act subs) =
     (path @ [n], mws @ mw, Command n as u fs mw act subs) #
       concat (map (reachable (path @ [n]) (mws @ mw)) subs)"

definition missing_reads :: "ctx_value list \<Rightarrow> command \<Rightarrow> ctx_value list" where
  "missing_reads mws c =
     (case cmd_action c of
        None \<Rightarrow> []
      | Some a \<Rightarrow> filter (\<lambda>v. v \<notin> set (mws @ act_middleware a)) (act_reads a))"

definition starved :: "command \<Rightarrow> (string list \<times> ctx_value list) list" where
  "starved c =
     map (\<lambda>(path, mws, c). (path, missing_reads mws c))
       (filter (\<lambda>(path, mws, c). missing_reads mws c \<noteq> []) (reachable [] [] c))"

definition unambiguous :: "command \<Rightarrow> bool" where
  "unambiguous c \<longleftrightarrow> distinct (concat (map names_of (cmd_subs c))) \<and> distinct (concat (map flag_names (cmd_flags c)))"

definition runs_or_groups :: "command \<Rightarrow> bool" where
  "runs_or_groups c \<longleftrightarrow> cmd_action c \<noteq> None \<or> cmd_subs c \<noteq> []"

text \<open>Words of a command line that may name a command below another, in whatever order the
  commands were declared.\<close>

inductive spells :: "command \<Rightarrow> string list \<Rightarrow> command \<Rightarrow> bool" where
  Here: "spells c [] c"
| Below: "s \<in> set (cmd_subs c) \<Longrightarrow> w \<in> set (names_of s) \<Longrightarrow> spells s ws d \<Longrightarrow> spells c (w # ws) d"

inductive_simps spells_Nil: "spells c [] d"
inductive_simps spells_Cons: "spells c (w # ws) d"

section \<open>Facts\<close>

definition commands_of :: "command \<Rightarrow> command list" where
  "commands_of c = map (snd \<circ> snd) (reachable [] [] c)"

lemma reachable_commands:
  "map (snd \<circ> snd) (reachable path mws c) = map (snd \<circ> snd) (reachable path' mws' c)"
proof (induction c arbitrary: path mws path' mws')
  case (Command n as u fs mw act subs)
  have "map (\<lambda>a. snd (snd a)) (reachable (path @ [n]) (mws @ mw) s) =
      map (\<lambda>a. snd (snd a)) (reachable (path' @ [n]) (mws' @ mw) s)" if "s \<in> set subs" for s
    using Command[OF that] by (simp add: comp_def)
  then show ?case by (simp add: map_concat comp_def cong: map_cong)
qed

lemma commands_of_subs:
  assumes "s \<in> set (cmd_subs c)"
  shows "set (commands_of s) \<subseteq> set (commands_of c)" and "c \<in> set (commands_of c)"
proof -
  obtain n as u fs mw act subs where c: "c = Command n as u fs mw act subs" by (cases c)
  have "set (map (snd \<circ> snd) (reachable [n] mw s)) \<subseteq> set (commands_of c)"
    using assms by (auto simp: c commands_of_def image_Un image_UN)
  then show "set (commands_of s) \<subseteq> set (commands_of c)"
    unfolding commands_of_def reachable_commands[of "[]" "[]" s "[n]" mw] .
  show "c \<in> set (commands_of c)" by (simp add: c commands_of_def)
qed

lemma find_named:
  assumes "distinct (concat (map names_of subs))" and "s \<in> set subs" and "w \<in> set (names_of s)"
  shows "find (\<lambda>s. w \<in> set (names_of s)) subs = Some s"
  using assms
proof (induction subs)
  case (Cons t subs)
  show ?case
  proof (cases "w \<in> set (names_of t)")
    case True
    with Cons.prems have "s \<notin> set subs" by auto
    with Cons.prems True show ?thesis by simp
  qed (use Cons in auto)
qed simp

lemma spells_lookup:
  assumes "list_all unambiguous (commands_of c)"
  shows "spells c ws d \<longleftrightarrow> lookup_path c ws = Some d"
  using assms
proof (induction ws arbitrary: c)
  case (Cons w ws)
  have dist: "distinct (concat (map names_of (cmd_subs c)))" if "s \<in> set (cmd_subs c)" for s
    using commands_of_subs(2)[OF that] Cons.prems by (auto simp: list_all_iff unambiguous_def)
  have below: "list_all unambiguous (commands_of s)" if "s \<in> set (cmd_subs c)" for s
    using commands_of_subs(1)[OF that] Cons.prems unfolding list_all_iff by blast
  show ?case
  proof (cases "find (\<lambda>s. w \<in> set (names_of s)) (cmd_subs c)")
    case None
    then have "\<not> (\<exists>s. s \<in> set (cmd_subs c) \<and> w \<in> set (names_of s))" by (simp add: find_None_iff)
    with None show ?thesis by (auto simp: spells_Cons)
  next
    case (Some s)
    then have s: "s \<in> set (cmd_subs c)" "w \<in> set (names_of s)" by (auto simp: find_Some_iff)
    have "t = s" if "t \<in> set (cmd_subs c)" "w \<in> set (names_of t)" for t
      using find_named[OF dist[OF that(1)] that] Some by simp
    then have "spells c (w # ws) d \<longleftrightarrow> spells s ws d" using s unfolding spells_Cons by blast
    then show ?thesis using Some Cons.IH[OF below[OF s(1)]] by simp
  qed
qed (auto simp: spells_Nil)

fun tree_all :: "(command \<Rightarrow> bool) \<Rightarrow> command \<Rightarrow> bool" where
  "tree_all P (Command n as u fs mw act subs) \<longleftrightarrow> P (Command n as u fs mw act subs) \<and> list_all (tree_all P) subs"

lemma tree_all_commands: "tree_all P c \<Longrightarrow> list_all P (commands_of c)"
proof (induction c)
  case (Command n as u fs mw act subs)
  have "list_all P (map (snd \<circ> snd) (reachable [n] mw s))" if "s \<in> set subs" for s
    using Command that unfolding reachable_commands[of "[n]" mw s "[]" "[]"] commands_of_def[symmetric]
    by (simp add: list_all_iff)
  with Command.prems show ?case by (auto simp: commands_of_def list_all_iff)
qed

lemma Commander_unambiguous: "list_all unambiguous (commands_of (rt_Command (Commander env)))"
  by (rule tree_all_commands) code_simp

lemma Commander_runs_or_groups: "list_all runs_or_groups (commands_of (rt_Command (Commander env)))"
  by (rule tree_all_commands) code_simp

text \<open>C37: Every command line names at most one command, whatever aliases it is spelled with and
  in whatever order the commands are declared: taking the first command that answers to a
  word finds the command, and no other command could have been meant. Flags of a command do not share
  names either, and every command runs an action or groups others.\<close>

theorem command_lines_name_one_command:
  "(spells (rt_Command (Commander env)) ws c \<longleftrightarrow> lookup_path (rt_Command (Commander env)) ws = Some c) \<and>
   list_all unambiguous (commands_of (rt_Command (Commander env))) \<and>
   list_all runs_or_groups (commands_of (rt_Command (Commander env)))"
  using spells_lookup[OF Commander_unambiguous] Commander_unambiguous Commander_runs_or_groups by simp

text \<open>The middleware on the way to a command provides what its action takes out of the context,
  with five exceptions: the nightly run, the set up of Arch Linux, the clone from GitHub and the
  code of the clipboard start processes without the manager that the other commands
  attach, and the tweet reads a configuration that nothing puts into its context.\<close>

theorem commands_get_what_they_read:
  "starved (rt_Command (Commander env)) =
     [([''sardis'', ''admin'', ''nightly''], [In_Jasper]),
      ([''sardis'', ''arch'', ''setup''], [In_Jasper]),
      ([''sardis'', ''repo'', ''gh-clone''], [In_Jasper]),
      ([''sardis'', ''tweet''], [In_Configuration]),
      ([''sardis'', ''utility'', ''qr''], [In_Jasper])]"
  by code_simp

end
