(* ===== verification/Output_Buffers.thy ===== *)
theory Output_Buffers
  imports Go_Prelude
begin

text \<open>
  \<open>subexec/util.go\<close>: the buffers that collect the output of a process. A buffer is an address in a
  store, since the pool hands the same buffer out again after it was closed; the pool may
  also make a new one. A reader or writer of an output is the address of its buffer, which the caller may
  keep. What is shown is that the sharing cannot be observed as long as no reader or writer is
  used after its output was closed, and that it is observed when one is.
\<close>

section \<open>The store and the pool\<close>

text \<open>Addresses below \<open>bs_fresh\<close> have been allocated; \<open>bs_free\<close> is what \<open>bufpool\<close> holds.\<close>

record buffer_store =
  bs_heap :: "nat \<Rightarrow> string"
  bs_free :: "nat list"
  bs_fresh :: nat

record OutputBuf =
  ob_name :: string
  ob_buffer :: "nat option"

text \<open>\<open>bufpool.Get()\<close>: one of the free buffers, or a new, empty one.\<close>

definition pool_get :: "nat option \<Rightarrow> buffer_store \<Rightarrow> nat \<times> buffer_store" where
  "pool_get pick st =
     (case pick of
        Some a \<Rightarrow> (a, st\<lparr>bs_free := remove1 a (bs_free st)\<rparr>)
      | None \<Rightarrow> (bs_fresh st, st\<lparr>bs_heap := (bs_heap st)(bs_fresh st := []), bs_fresh := bs_fresh st + 1\<rparr>))"

definition NewOutputBuf :: "nat option \<Rightarrow> string \<Rightarrow> buffer_store \<Rightarrow> OutputBuf \<times> buffer_store" where
  "NewOutputBuf pick oid st =
     (case pool_get pick st of (a, st) \<Rightarrow> (\<lparr>ob_name = oid, ob_buffer = Some a\<rparr>, st))"

text \<open>A nil buffer prints as such.\<close>

definition OutputBuf_String :: "OutputBuf \<Rightarrow> buffer_store \<Rightarrow> string" where
  "OutputBuf_String b st = (case ob_buffer b of None \<Rightarrow> ''<nil>'' | Some a \<Rightarrow> bs_heap st a)"

text \<open>\<open>Reader()\<close> and \<open>Writer()\<close> return the pointer to the buffer itself, which \<open>None\<close> is when it is nil.\<close>

definition OutputBuf_Reader :: "OutputBuf \<Rightarrow> nat option" where
  "OutputBuf_Reader b = ob_buffer b"

definition OutputBuf_Writer :: "OutputBuf \<Rightarrow> nat option" where
  "OutputBuf_Writer b = ob_buffer b"

text \<open>\<open>Write\<close> and \<open>Read\<close> of \<open>bytes.Buffer\<close>: they panic on a nil pointer; reading takes bytes off the
  front.\<close>

definition Buffer_Write :: "string \<Rightarrow> nat option \<Rightarrow> buffer_store \<Rightarrow> buffer_store outcome" where
  "Buffer_Write p h st =
     (case h of
        None \<Rightarrow> Panic nil_deref
      | Some a \<Rightarrow> Return (st\<lparr>bs_heap := (bs_heap st)(a := bs_heap st a @ p)\<rparr>))"

definition Buffer_Read :: "nat \<Rightarrow> nat option \<Rightarrow> buffer_store \<Rightarrow> (string \<times> buffer_store) outcome" where
  "Buffer_Read n h st =
     (case h of
        None \<Rightarrow> Panic nil_deref
      | Some a \<Rightarrow> Return (take n (bs_heap st a), st\<lparr>bs_heap := (bs_heap st)(a := drop n (bs_heap st a))\<rparr>))"

definition OutputBuf_Close :: "OutputBuf \<Rightarrow> buffer_store \<Rightarrow> errors \<times> OutputBuf \<times> buffer_store" where
  "OutputBuf_Close b st =
     (case ob_buffer b of
        None \<Rightarrow> ([], b, st)
      | Some a \<Rightarrow> ([], b\<lparr>ob_buffer := None\<rparr>, st\<lparr>bs_heap := (bs_heap st)(a := []), bs_free := a # bs_free st\<rparr>))"

text \<open>Whether a message should be logged is the logging library's answer.\<close>

definition OutputBuf_Send :: "bool \<Rightarrow> string \<Rightarrow> OutputBuf \<Rightarrow> buffer_store \<Rightarrow> buffer_store outcome" where
  "OutputBuf_Send should_log m b st =
     (if should_log then
        (case Buffer_Write m (ob_buffer b) st of
           Panic p \<Rightarrow> Panic p
         | Return st \<Rightarrow> Buffer_Write [CHR 0x0A] (ob_buffer b) st)
      else Return st)"

section \<open>Many buffers at work\<close>

text \<open>The processes at work have opened the outputs \<open>so_outs\<close>; \<open>so_unread\<close> is what each has received, and
  what was written through its writers, and has not been read yet. \<open>so_handles\<close> are the readers and
  writers that were asked for, each with the output it was asked of; \<open>so_misused\<close> notes that one was used
  whose output does not have that buffer any more.\<close>

record outputs =
  so_store :: buffer_store
  so_outs :: "OutputBuf list"
  so_unread :: "string list"
  so_handles :: "(nat \<times> nat option) list"
  so_misused :: bool

definition outputs_init :: "outputs \<Rightarrow> bool" where
  "outputs_init s \<longleftrightarrow> bs_free (so_store s) = [] \<and> so_outs s = [] \<and> so_unread s = [] \<and>
     so_handles s = [] \<and> \<not> so_misused s"

inductive outputs_step :: "outputs \<Rightarrow> outputs \<Rightarrow> bool" where
  Open: "(case pick of None \<Rightarrow> True | Some a \<Rightarrow> a \<in> set (bs_free (so_store s))) \<Longrightarrow>
     NewOutputBuf pick oid (so_store s) = (b, st) \<Longrightarrow>
     outputs_step s (s\<lparr>so_store := st, so_outs := so_outs s @ [b], so_unread := so_unread s @ [[]]\<rparr>)"
| Send: "i < length (so_outs s) \<Longrightarrow> OutputBuf_Send should_log m (so_outs s ! i) (so_store s) = Return st \<Longrightarrow>
     outputs_step s (s\<lparr>so_store := st,
       so_unread := (so_unread s)[i := so_unread s ! i @ (if should_log then m @ [CHR 0x0A] else [])]\<rparr>)"
| Writer: "i < length (so_outs s) \<Longrightarrow>
     outputs_step s (s\<lparr>so_handles := so_handles s @ [(i, OutputBuf_Writer (so_outs s ! i))]\<rparr>)"
| Reader: "i < length (so_outs s) \<Longrightarrow>
     outputs_step s (s\<lparr>so_handles := so_handles s @ [(i, OutputBuf_Reader (so_outs s ! i))]\<rparr>)"
| Write: "(i, h) \<in> set (so_handles s) \<Longrightarrow> Buffer_Write p h (so_store s) = Return st \<Longrightarrow>
     outputs_step s (s\<lparr>so_store := st, so_unread := (so_unread s)[i := so_unread s ! i @ p],
       so_misused := (so_misused s \<or> ob_buffer (so_outs s ! i) \<noteq> h)\<rparr>)"
| Read: "(i, h) \<in> set (so_handles s) \<Longrightarrow> Buffer_Read n h (so_store s) = Return (p, st) \<Longrightarrow>
     outputs_step s (s\<lparr>so_store := st, so_unread := (so_unread s)[i := drop n (so_unread s ! i)],
       so_misused := (so_misused s \<or> ob_buffer (so_outs s ! i) \<noteq> h)\<rparr>)"
| Close: "i < length (so_outs s) \<Longrightarrow> OutputBuf_Close (so_outs s ! i) (so_store s) = (err, b, st) \<Longrightarrow>
     outputs_step s (s\<lparr>so_store := st, so_outs := (so_outs s)[i := b]\<rparr>)"

inductive_cases outputs_stepE: "outputs_step s t"

text \<open>A buffer belongs to one opener or to the pool; in the pool it is empty.\<close>

definition buffer_at :: "outputs \<Rightarrow> nat \<Rightarrow> nat option" where
  "buffer_at s i = (if i < length (so_outs s) then ob_buffer (so_outs s ! i) else None)"

definition owned :: "outputs \<Rightarrow> nat \<Rightarrow> nat \<Rightarrow> bool" where
  "owned s i a \<longleftrightarrow> a < bs_fresh (so_store s) \<and> a \<notin> set (bs_free (so_store s)) \<and>
     bs_heap (so_store s) a = so_unread s ! i"

definition pooled :: "outputs \<Rightarrow> nat \<Rightarrow> bool" where
  "pooled s a \<longleftrightarrow> a < bs_fresh (so_store s) \<and> bs_heap (so_store s) a = []"

definition outputs_inv :: "outputs \<Rightarrow> bool" where
  "outputs_inv s \<longleftrightarrow>
     length (so_unread s) = length (so_outs s) \<and> distinct (bs_free (so_store s)) \<and>
     (\<forall>a \<in> set (bs_free (so_store s)). pooled s a) \<and>
     (\<forall>(i, h) \<in> set (so_handles s). i < length (so_outs s)) \<and>
     (\<forall>i a. buffer_at s i = Some a \<longrightarrow> owned s i a) \<and>
     (\<forall>i j a. buffer_at s i = Some a \<longrightarrow> buffer_at s j = Some a \<longrightarrow> i = j)"

text \<open>After a reader or writer was used for too long, nothing is claimed.\<close>

definition outputs_ok :: "outputs \<Rightarrow> bool" where
  "outputs_ok s \<longleftrightarrow> so_misused s \<or> outputs_inv s"

section \<open>Facts\<close>

lemma outputs_inv_init: "outputs_init s \<Longrightarrow> outputs_inv s"
  by (simp add: outputs_init_def outputs_inv_def buffer_at_def)

lemma outputs_invI:
  assumes "length (so_unread s) = length (so_outs s)" and "distinct (bs_free (so_store s))"
    and "\<And>a. a \<in> set (bs_free (so_store s)) \<Longrightarrow> pooled s a"
    and "\<And>i h. (i, h) \<in> set (so_handles s) \<Longrightarrow> i < length (so_outs s)"
    and "\<And>i a. buffer_at s i = Some a \<Longrightarrow> owned s i a"
    and "\<And>i j a. buffer_at s i = Some a \<Longrightarrow> buffer_at s j = Some a \<Longrightarrow> i = j"
  shows "outputs_inv s"
  using assms unfolding outputs_inv_def by blast

lemma outputs_invD:
  assumes "outputs_inv s"
  shows "length (so_unread s) = length (so_outs s)" and "distinct (bs_free (so_store s))"
    and "a \<in> set (bs_free (so_store s)) \<Longrightarrow> pooled s a"
    and "buffer_at s i = Some a \<Longrightarrow> owned s i a"
    and "buffer_at s i = Some a \<Longrightarrow> buffer_at s j = Some a \<Longrightarrow> i = j"
    and "buffer_at s i = Some a \<Longrightarrow> i < length (so_outs s)"
    and "(i, h) \<in> set (so_handles s) \<Longrightarrow> i < length (so_outs s)"
  using assms unfolding outputs_inv_def buffer_at_def
  by (blast, blast, blast, blast, blast, meson option.distinct(1), blast)

lemma OutputBuf_Send_eq:
  "OutputBuf_Send should_log m b st =
     (if should_log then Buffer_Write (m @ [CHR 0x0A]) (ob_buffer b) st else Return st)"
  by (simp add: OutputBuf_Send_def Buffer_Write_def split: option.split)

text \<open>Only the flag of misuse and the handles are different.\<close>

lemma outputs_inv_handles:
  assumes "outputs_inv s" and "\<And>i h. (i, h) \<in> set hs \<Longrightarrow> i < length (so_outs s)"
  shows "outputs_inv (s\<lparr>so_handles := hs, so_misused := m\<rparr>)"
proof -
  have "buffer_at (s\<lparr>so_handles := hs, so_misused := m\<rparr>) = buffer_at s"
    "owned (s\<lparr>so_handles := hs, so_misused := m\<rparr>) = owned s"
    "pooled (s\<lparr>so_handles := hs, so_misused := m\<rparr>) = pooled s"
    by (simp_all add: buffer_at_def owned_def pooled_def fun_eq_iff)
  with assms show ?thesis by (auto simp: outputs_inv_def)
qed

text \<open>Changing what one open buffer holds, and what was noted for it, keeps the invariant.\<close>

lemma outputs_inv_change:
  assumes inv: "outputs_inv s" and i: "buffer_at s i = Some a"
  shows "outputs_inv (s\<lparr>so_store := (so_store s)\<lparr>bs_heap := (bs_heap (so_store s))(a := p)\<rparr>,
    so_unread := (so_unread s)[i := p]\<rparr>)" (is "outputs_inv ?t")
proof (rule outputs_invI)
  note D = outputs_invD[OF inv]
  have at: "buffer_at ?t = buffer_at s" by (simp add: buffer_at_def fun_eq_iff)
  have a: "owned s i a" by (rule D(4)[OF i])
  show "length (so_unread ?t) = length (so_outs ?t)" "distinct (bs_free (so_store ?t))"
    using D(1,2) by simp_all
  show "pooled ?t c" if "c \<in> set (bs_free (so_store ?t))" for c
    using D(3)[of c] that a by (auto simp: pooled_def owned_def)
  show "i < length (so_outs ?t)" if "(i, h) \<in> set (so_handles ?t)" for i h
    using D(7)[of i h] that by simp
  show "owned ?t j c" if "buffer_at ?t j = Some c" for j c
  proof (cases "j = i")
    case True
    then show ?thesis using that i a D(1) D(6)[OF i] unfolding at by (simp add: owned_def)
  next
    case False
    then have "c \<noteq> a" using that D(5)[OF i] unfolding at by blast
    then show ?thesis using D(4)[of j c] that False unfolding at by (simp add: owned_def)
  qed
  show "j = k" if "buffer_at ?t j = Some c" "buffer_at ?t k = Some c" for j k c
    using D(5) that unfolding at by blast
qed

lemma outputs_inv_write:
  assumes "outputs_inv s" and "i < length (so_outs s)"
    and "Buffer_Write p (ob_buffer (so_outs s ! i)) (so_store s) = Return st"
  shows "outputs_inv (s\<lparr>so_store := st, so_unread := (so_unread s)[i := so_unread s ! i @ p]\<rparr>)"
proof -
  obtain a where a: "ob_buffer (so_outs s ! i) = Some a"
    and st: "st = (so_store s)\<lparr>bs_heap := (bs_heap (so_store s))(a := bs_heap (so_store s) a @ p)\<rparr>"
    using assms(3) by (auto simp: Buffer_Write_def split: option.splits)
  then have at: "buffer_at s i = Some a" using assms(2) by (simp add: buffer_at_def)
  then have "bs_heap (so_store s) a = so_unread s ! i" using outputs_invD(4)[OF assms(1)] by (simp add: owned_def)
  then show ?thesis using outputs_inv_change[OF assms(1) at, of "so_unread s ! i @ p"] st by simp
qed

lemma outputs_inv_read:
  assumes "outputs_inv s" and "i < length (so_outs s)"
    and "Buffer_Read n (ob_buffer (so_outs s ! i)) (so_store s) = Return (p, st)"
  shows "outputs_inv (s\<lparr>so_store := st, so_unread := (so_unread s)[i := drop n (so_unread s ! i)]\<rparr>)"
proof -
  obtain a where a: "ob_buffer (so_outs s ! i) = Some a"
    and st: "st = (so_store s)\<lparr>bs_heap := (bs_heap (so_store s))(a := drop n (bs_heap (so_store s) a))\<rparr>"
    using assms(3) by (auto simp: Buffer_Read_def split: option.splits)
  then have at: "buffer_at s i = Some a" using assms(2) by (simp add: buffer_at_def)
  then have "bs_heap (so_store s) a = so_unread s ! i" using outputs_invD(4)[OF assms(1)] by (simp add: owned_def)
  then show ?thesis using outputs_inv_change[OF assms(1) at, of "drop n (so_unread s ! i)"] st by simp
qed

lemma outputs_inv_open:
  assumes inv: "outputs_inv s" and pick: "case pick of None \<Rightarrow> True | Some a \<Rightarrow> a \<in> set (bs_free (so_store s))"
    and new: "NewOutputBuf pick oid (so_store s) = (b, st)"
  shows "outputs_inv (s\<lparr>so_store := st, so_outs := so_outs s @ [b], so_unread := so_unread s @ [[]]\<rparr>)"
    (is "outputs_inv ?t")
proof -
  note D = outputs_invD[OF inv]
  obtain a where b: "ob_buffer b = Some a" and get: "pool_get pick (so_store s) = (a, st)"
    using new by (auto simp: NewOutputBuf_def split: prod.splits)
  have at: "buffer_at ?t j = (if j = length (so_outs s) then Some a else buffer_at s j)" for j
    by (simp add: buffer_at_def nth_append b)
  have all: "(a < bs_fresh st \<and> a \<notin> set (bs_free st) \<and> bs_heap st a = [] \<and> distinct (bs_free st)) \<and>
      (\<forall>j. buffer_at s j \<noteq> Some a) \<and>
      (\<forall>c. c \<noteq> a \<longrightarrow> bs_heap st c = bs_heap (so_store s) c \<and>
        (c \<in> set (bs_free st)) = (c \<in> set (bs_free (so_store s)))) \<and>
      bs_fresh (so_store s) \<le> bs_fresh st"
  proof (cases pick)
    case None
    with get have aeq: "a = bs_fresh (so_store s)"
      and st: "st = (so_store s)\<lparr>bs_heap := (bs_heap (so_store s))(a := []), bs_fresh := a + 1\<rparr>"
      by (auto simp: pool_get_def)
    have "buffer_at s j \<noteq> Some a" for j using D(4)[of j a] aeq by (auto simp: owned_def)
    moreover have "a \<notin> set (bs_free (so_store s))" using D(3)[of a] aeq by (auto simp: pooled_def)
    ultimately show ?thesis using D(2) st aeq by simp
  next
    case (Some c)
    with get pick have ain: "a \<in> set (bs_free (so_store s))"
      and st: "st = (so_store s)\<lparr>bs_free := remove1 a (bs_free (so_store s))\<rparr>"
      by (auto simp: pool_get_def)
    have "buffer_at s j \<noteq> Some a" for j using D(4)[of j a] ain by (auto simp: owned_def)
    then show ?thesis using D(2) D(3)[OF ain] st ain by (simp add: pooled_def)
  qed
  then have a: "a < bs_fresh st" "a \<notin> set (bs_free st)" "bs_heap st a = []" "distinct (bs_free st)"
    and other: "\<And>j. buffer_at s j \<noteq> Some a" and grow: "bs_fresh (so_store s) \<le> bs_fresh st"
    and keep: "\<And>c. c \<noteq> a \<Longrightarrow> bs_heap st c = bs_heap (so_store s) c \<and>
      (c \<in> set (bs_free st) \<longleftrightarrow> c \<in> set (bs_free (so_store s)))"
    by blast+
  show ?thesis
  proof (rule outputs_invI)
    show "length (so_unread ?t) = length (so_outs ?t)" "distinct (bs_free (so_store ?t))"
      using D(1) a(4) by simp_all
    show "pooled ?t c" if "c \<in> set (bs_free (so_store ?t))" for c
    proof -
      have "c \<noteq> a" using that a(2) by auto
      then show ?thesis using that D(3)[of c] keep[of c] grow by (simp add: pooled_def)
    qed
    show "i < length (so_outs ?t)" if "(i, h) \<in> set (so_handles ?t)" for i h
      using D(7)[of i h] that by simp
    show "owned ?t j c" if "buffer_at ?t j = Some c" for j c
    proof (cases "j = length (so_outs s)")
      case True
      then show ?thesis using that a D(1) unfolding at by (simp add: owned_def nth_append)
    next
      case False
      then have j: "buffer_at s j = Some c" using that unfolding at by simp
      then have "c \<noteq> a" using other by blast
      then show ?thesis using D(1) D(4)[OF j] D(6)[OF j] keep[of c] grow
        by (simp add: owned_def nth_append)
    qed
    show "j = k" if "buffer_at ?t j = Some c" "buffer_at ?t k = Some c" for j k c
      using that D(5)[of j c k] other[of j] other[of k] unfolding at by (simp split: if_splits)
  qed
qed

lemma outputs_inv_close:
  assumes inv: "outputs_inv s" and i: "i < length (so_outs s)"
    and cl: "OutputBuf_Close (so_outs s ! i) (so_store s) = (err, b, st)"
  shows "outputs_inv (s\<lparr>so_store := st, so_outs := (so_outs s)[i := b]\<rparr>)" (is "outputs_inv ?t")
proof (cases "ob_buffer (so_outs s ! i)")
  case None
  then show ?thesis using cl inv by (auto simp: OutputBuf_Close_def)
next
  case (Some a)
  note D = outputs_invD[OF inv]
  have b: "ob_buffer b = None" and st: "st = (so_store s)\<lparr>bs_heap := (bs_heap (so_store s))(a := []),
      bs_free := a # bs_free (so_store s)\<rparr>"
    using cl Some by (auto simp: OutputBuf_Close_def)
  have at: "buffer_at ?t j = (if j = i then None else buffer_at s j)" for j
    using b i by (simp add: buffer_at_def nth_list_update)
  have ia: "buffer_at s i = Some a" using Some i by (simp add: buffer_at_def)
  have a: "owned s i a" by (rule D(4)[OF ia])
  show ?thesis
  proof (rule outputs_invI)
    show "length (so_unread ?t) = length (so_outs ?t)" "distinct (bs_free (so_store ?t))"
      using D(1,2) a st by (simp_all add: owned_def)
    show "pooled ?t c" if "c \<in> set (bs_free (so_store ?t))" for c
      using that D(3)[of c] a st by (auto simp: pooled_def owned_def)
    show "i < length (so_outs ?t)" if "(i, h) \<in> set (so_handles ?t)" for i h
      using D(7)[of i h] that by simp
    show "owned ?t j c" if "buffer_at ?t j = Some c" for j c
    proof -
      have j: "j \<noteq> i" "buffer_at s j = Some c" using that unfolding at by (auto split: if_splits)
      then have "c \<noteq> a" using D(5)[OF ia] by blast
      then show ?thesis using D(4)[OF j(2)] st by (simp add: owned_def)
    qed
    show "j = k" if "buffer_at ?t j = Some c" "buffer_at ?t k = Some c" for j k c
      using that D(5)[of j c k] unfolding at by (simp split: if_splits)
  qed
qed

text \<open>A handle that still is the buffer of its output is used as the output itself.\<close>

lemma outputs_ok_step:
  assumes step: "outputs_step s t" and ok: "outputs_ok s"
  shows "outputs_ok t"
proof (cases "so_misused s")
  case True
  then show ?thesis using step by (auto simp: outputs_ok_def elim: outputs_stepE)
next
  case False
  then have inv: "outputs_inv s" using ok by (simp add: outputs_ok_def)
  note D7 = outputs_invD(7)[OF inv]
  from step show ?thesis
  proof cases
    case (Open pick oid b st)
    then show ?thesis using outputs_inv_open[OF inv] by (simp add: outputs_ok_def)
  next
    case (Send i should_log m st)
    then show ?thesis using outputs_inv_write[OF inv, of i "m @ [CHR 0x0A]" st] inv
      by (cases should_log) (auto simp: OutputBuf_Send_eq outputs_ok_def)
  next
    case (Writer i)
    then show ?thesis using outputs_inv_handles[OF inv, of "so_handles s @ [(i, OutputBuf_Writer (so_outs s ! i))]" "so_misused s"] D7
      by (auto simp: outputs_ok_def)
  next
    case (Reader i)
    then show ?thesis using outputs_inv_handles[OF inv, of "so_handles s @ [(i, OutputBuf_Reader (so_outs s ! i))]" "so_misused s"] D7
      by (auto simp: outputs_ok_def)
  next
    case (Write i h p st)
    let ?t = "s\<lparr>so_store := st, so_unread := (so_unread s)[i := so_unread s ! i @ p]\<rparr>"
    have "outputs_inv (?t\<lparr>so_handles := so_handles ?t, so_misused := m\<rparr>)"
      if "ob_buffer (so_outs s ! i) = h" for m
      using outputs_inv_handles[OF outputs_inv_write[OF inv D7[OF Write(2)], of p st], of "so_handles ?t" m] Write D7 that
      by auto
    then show ?thesis using Write False by (cases "ob_buffer (so_outs s ! i) = h") (simp_all add: outputs_ok_def)
  next
    case (Read i h n p st)
    let ?t = "s\<lparr>so_store := st, so_unread := (so_unread s)[i := drop n (so_unread s ! i)]\<rparr>"
    have "outputs_inv (?t\<lparr>so_handles := so_handles ?t, so_misused := m\<rparr>)"
      if "ob_buffer (so_outs s ! i) = h" for m
      using outputs_inv_handles[OF outputs_inv_read[OF inv D7[OF Read(2)], of n p st], of "so_handles ?t" m] Read D7 that
      by auto
    then show ?thesis using Read False by (cases "ob_buffer (so_outs s ! i) = h") (simp_all add: outputs_ok_def)
  next
    case (Close i err b st)
    then show ?thesis using outputs_inv_close[OF inv] by (simp add: outputs_ok_def)
  qed
qed

interpretation outputs: step_invariant outputs_init outputs_step outputs_ok
  by unfold_locales (simp add: outputs_ok_def outputs_inv_init, rule outputs_ok_step)

text \<open>C14: Buffers that come back from the pool are not shared, as long as no reader or writer is used
  after its output was closed: in every state that openers, senders, readers and closers can reach
  in any order without that, an open output holds exactly what was sent to it and written through
  its writers and not read since it was opened, whatever others sent before or meanwhile; sending
  to it changes no other open output, and closing it again does nothing.\<close>

theorem output_buffers_isolated:
  assumes "reach outputs_init outputs_step s" and "i < length (so_outs s)"
    and "ob_buffer (so_outs s ! i) \<noteq> None" and "\<not> so_misused s"
  shows "OutputBuf_String (so_outs s ! i) (so_store s) = so_unread s ! i \<and>
    (\<forall>m st. OutputBuf_Send True m (so_outs s ! i) (so_store s) = Return st \<longrightarrow>
       OutputBuf_String (so_outs s ! i) st = so_unread s ! i @ m @ [CHR 0x0A] \<and>
       (\<forall>j < length (so_outs s). j \<noteq> i \<and> ob_buffer (so_outs s ! j) \<noteq> None \<longrightarrow>
          OutputBuf_String (so_outs s ! j) st = so_unread s ! j)) \<and>
    (case OutputBuf_Close (so_outs s ! i) (so_store s) of (err, b, st) \<Rightarrow>
       err = [] \<and> OutputBuf_Close b st = ([], b, st))"
proof -
  have inv: "outputs_inv s" using outputs.inv_reach[OF assms(1)] assms(4) by (simp add: outputs_ok_def)
  have str: "OutputBuf_String (so_outs t ! j) (so_store t) = so_unread t ! j"
    if "outputs_inv t" "j < length (so_outs t)" "ob_buffer (so_outs t ! j) \<noteq> None" for t j
    using outputs_invD(4)[OF that(1), of j] that(2,3) by (auto simp: owned_def OutputBuf_String_def buffer_at_def)
  have "OutputBuf_String (so_outs s ! i) st = so_unread s ! i @ m @ [CHR 0x0A] \<and>
       (\<forall>j < length (so_outs s). j \<noteq> i \<and> ob_buffer (so_outs s ! j) \<noteq> None \<longrightarrow>
          OutputBuf_String (so_outs s ! j) st = so_unread s ! j)"
    if "OutputBuf_Send True m (so_outs s ! i) (so_store s) = Return st" for m st
  proof -
    let ?t = "s\<lparr>so_store := st, so_unread := (so_unread s)[i := so_unread s ! i @ m @ [CHR 0x0A]]\<rparr>"
    have "outputs_inv ?t"
      using outputs_inv_write[OF inv assms(2), of "m @ [CHR 0x0A]" st] that by (simp add: OutputBuf_Send_eq)
    from str[OF this] show ?thesis using assms outputs_invD(1)[OF inv] by (simp add: nth_list_update)
  qed
  moreover have "case OutputBuf_Close (so_outs s ! i) (so_store s) of (err, b, st) \<Rightarrow>
       err = [] \<and> OutputBuf_Close b st = ([], b, st)"
    by (auto simp: OutputBuf_Close_def split: option.splits)
  ultimately show ?thesis using str[OF inv assms(2,3)] by blast
qed

theorem output_buffers_isolated_witness:
  "\<exists>s. reach outputs_init outputs_step s \<and> so_unread s = [''secret'' @ [CHR 0x0A], []] \<and>
     ob_buffer (so_outs s ! 1) = Some 0 \<and> OutputBuf_String (so_outs s ! 1) (so_store s) = []"
proof -
  define b :: OutputBuf where "b = \<lparr>ob_name = ''first'', ob_buffer = Some 0\<rparr>"
  define c :: OutputBuf where "c = \<lparr>ob_name = ''second'', ob_buffer = Some 0\<rparr>"
  define s0 :: outputs where
    "s0 = \<lparr>so_store = \<lparr>bs_heap = \<lambda>_. [], bs_free = [], bs_fresh = 0\<rparr>, so_outs = [], so_unread = [],
      so_handles = [], so_misused = False\<rparr>"
  define s1 where "s1 = s0\<lparr>so_store := (so_store s0)\<lparr>bs_heap := (\<lambda>_. [])(0 := []), bs_fresh := 1\<rparr>,
    so_outs := [b], so_unread := [[]]\<rparr>"
  define s2 where "s2 = s1\<lparr>so_store := (so_store s1)\<lparr>bs_heap := (\<lambda>_. [])(0 := ''secret'' @ [CHR 0x0A])\<rparr>,
    so_unread := [''secret'' @ [CHR 0x0A]]\<rparr>"
  define s3 where "s3 = s2\<lparr>so_store := (so_store s2)\<lparr>bs_heap := (\<lambda>_. [])(0 := []), bs_free := [0]\<rparr>,
    so_outs := [b\<lparr>ob_buffer := None\<rparr>]\<rparr>"
  define s4 where "s4 = s3\<lparr>so_store := (so_store s3)\<lparr>bs_free := []\<rparr>, so_outs := [b\<lparr>ob_buffer := None\<rparr>, c],
    so_unread := [''secret'' @ [CHR 0x0A], []]\<rparr>"
  have "reach outputs_init outputs_step s0" by (rule reach_init) (simp add: outputs_init_def s0_def)
  moreover have "outputs_step s0 s1"
    using Open[where pick = None and s = s0 and oid = "''first''"]
    by (simp add: NewOutputBuf_def pool_get_def s1_def s0_def b_def)
  moreover have "outputs_step s1 s2"
    using Send[where i = 0 and s = s1 and should_log = True and m = "''secret''"]
    by (simp add: OutputBuf_Send_def Buffer_Write_def s2_def s1_def s0_def b_def)
  moreover have "outputs_step s2 s3"
    using Close[where i = 0 and s = s2] by (simp add: OutputBuf_Close_def s3_def s2_def s1_def s0_def b_def)
  moreover have "outputs_step s3 s4"
    using Open[where pick = "Some 0" and s = s3 and oid = "''second''"]
    by (simp add: NewOutputBuf_def pool_get_def s4_def s3_def s2_def s1_def s0_def b_def c_def)
  ultimately have r: "reach outputs_init outputs_step s4" by (meson reach_step)
  have s4: "so_outs s4 ! 1 = c" "length (so_outs s4) = 2" "so_unread s4 = [''secret'' @ [CHR 0x0A], []]"
      "\<not> so_misused s4"
    by (simp_all add: s4_def s3_def s2_def s1_def s0_def)
  have "OutputBuf_String (so_outs s4 ! 1) (so_store s4) = so_unread s4 ! 1"
    using output_buffers_isolated[OF r, of 1] s4 by (simp add: c_def)
  with r s4 show ?thesis by (intro exI[of _ s4]) (simp add: c_def)
qed

text \<open>A writer that is kept after its output was closed writes into the output of whoever opened next: the
  second output, to which nothing was sent, shows the text.\<close>

theorem kept_writer_writes_elsewhere:
  "\<exists>s. reach outputs_init outputs_step s \<and> length (so_outs s) = 2 \<and>
     ob_buffer (so_outs s ! 0) = None \<and> so_unread s ! 1 = [] \<and>
     OutputBuf_String (so_outs s ! 1) (so_store s) = ''late''"
proof -
  define st :: "string \<Rightarrow> nat list \<Rightarrow> nat \<Rightarrow> buffer_store" where
    "st = (\<lambda>p free n. \<lparr>bs_heap = (\<lambda>_. [])(0 := p), bs_free = free, bs_fresh = n\<rparr>)"
  define first :: "nat option \<Rightarrow> OutputBuf" where "first = (\<lambda>a. \<lparr>ob_name = ''first'', ob_buffer = a\<rparr>)"
  define second :: OutputBuf where "second = \<lparr>ob_name = ''second'', ob_buffer = Some 0\<rparr>"
  define at :: "buffer_store \<Rightarrow> OutputBuf list \<Rightarrow> string list \<Rightarrow> (nat \<times> nat option) list \<Rightarrow> bool \<Rightarrow> outputs" where
    "at = (\<lambda>u os un hs m. \<lparr>so_store = u, so_outs = os, so_unread = un, so_handles = hs, so_misused = m\<rparr>)"
  note defs = st_def first_def second_def at_def
  have "reach outputs_init outputs_step (at (st [] [] 0) [] [] [] False)"
    by (rule reach_init) (simp add: outputs_init_def defs)
  moreover have "outputs_step (at (st [] [] 0) [] [] [] False) (at (st [] [] 1) [first (Some 0)] [[]] [] False)"
    using Open[where pick = None and s = "at (st [] [] 0) [] [] [] False" and oid = "''first''"]
    by (simp add: NewOutputBuf_def pool_get_def defs)
  moreover have "outputs_step (at (st [] [] 1) [first (Some 0)] [[]] [] False)
      (at (st [] [] 1) [first (Some 0)] [[]] [(0, Some 0)] False)"
    using Writer[where i = 0 and s = "at (st [] [] 1) [first (Some 0)] [[]] [] False"]
    by (simp add: OutputBuf_Writer_def defs)
  moreover have "outputs_step (at (st [] [] 1) [first (Some 0)] [[]] [(0, Some 0)] False)
      (at (st [] [0] 1) [first None] [[]] [(0, Some 0)] False)"
    using Close[where i = 0 and s = "at (st [] [] 1) [first (Some 0)] [[]] [(0, Some 0)] False"]
    by (simp add: OutputBuf_Close_def defs)
  moreover have "outputs_step (at (st [] [0] 1) [first None] [[]] [(0, Some 0)] False)
      (at (st [] [] 1) [first None, second] [[], []] [(0, Some 0)] False)"
    using Open[where pick = "Some 0" and s = "at (st [] [0] 1) [first None] [[]] [(0, Some 0)] False" and oid = "''second''"]
    by (simp add: NewOutputBuf_def pool_get_def defs)
  moreover have "outputs_step (at (st [] [] 1) [first None, second] [[], []] [(0, Some 0)] False)
      (at (st ''late'' [] 1) [first None, second] [''late'', []] [(0, Some 0)] True)"
    using Write[where i = 0 and h = "Some 0" and p = "''late''"
      and s = "at (st [] [] 1) [first None, second] [[], []] [(0, Some 0)] False"]
    by (simp add: Buffer_Write_def defs)
  ultimately have "reach outputs_init outputs_step
      (at (st ''late'' [] 1) [first None, second] [''late'', []] [(0, Some 0)] True)"
    by (meson reach_step)
  then show ?thesis
    by (intro exI[of _ "at (st ''late'' [] 1) [first None, second] [''late'', []] [(0, Some 0)] True"])
      (simp add: defs OutputBuf_String_def)
qed

end
