(* ===== verification/Host_Info.thy ===== *)
theory Host_Info
  imports Jasper
begin

text \<open>
  What the program knows of itself and its host: the names of \<open>global/global.go\<close>, the build
  information of \<open>global/version.go\<close> and \<open>environment.go\<close>, the cached host name and the timers of
  \<open>util/\<close>, and the process managers that \<open>subexec/jasper.go\<close> makes for a context.
\<close>

section \<open>global.go\<close>

definition ApplicationName :: string where "ApplicationName = ''sardis''"

definition EnvVarSSHAgentSocket :: string where "EnvVarSSHAgentSocket = ''SSH_AUTH_SOCK''"
definition EnvVarAlacrittySocket :: string where "EnvVarAlacrittySocket = ''ALACRITTY_SOCKET''"
definition EnvVarSardisLogQuietStdOut :: string where "EnvVarSardisLogQuietStdOut = ''SARDIS_LOG_QUIET_STDOUT''"
definition EnvVarSardisLogQuietSyslog :: string where "EnvVarSardisLogQuietSyslog = ''SARDIS_LOG_QUIET_SYSLOG''"
definition EnvVarSardisLogFormatJSON :: string where "EnvVarSardisLogFormatJSON = ''SARDIS_LOG_FORMAT_JSON''"
definition EnvVarSardisLogJSONColor :: string where "EnvVarSardisLogJSONColor = ''SARDIS_LOG_COLOR_JSON''"
definition EnvVarSardisAnnotate :: string where "EnvVarSardisAnnotate = ''SARDIS_ANNOTATE_OUTPUT''"

definition ContextDesktopLogger :: string where "ContextDesktopLogger = ''desktop''"
definition ContextRemoteLogger :: string where "ContextRemoteLogger = ''remote''"
definition ContextTwitterLogger :: string where "ContextTwitterLogger = ''twitter''"

definition MenuCommanderDefaultAnnotationSeparator :: string where
  "MenuCommanderDefaultAnnotationSeparator = [CHR 0x09]"

section \<open>version.go and environment.go\<close>

text \<open>The linker sets \<open>global.buildRevision\<close> and \<open>global.buildTimeString\<close>. What the command \<open>version\<close>
  prints is a variable of the root package of the same name, which nothing sets.\<close>

definition global_BuildRevision :: "string \<Rightarrow> string" where
  "global_BuildRevision buildRevision = Default [] buildRevision ''<UNKNOWN>''"

definition global_BuildTime :: "(string \<Rightarrow> string \<Rightarrow> go_error + 't) \<Rightarrow> string \<Rightarrow> 't outcome" where
  "global_BuildTime time_Parse buildTimeString =
     (case time_Parse ''2006-01-02 15:04:05'' buildTimeString of
        Inl err \<Rightarrow> Panic err
      | Inr t \<Rightarrow> Return t)"

definition sardis_BuildRevision :: string where "sardis_BuildRevision = []"

definition Version_fields :: "string \<Rightarrow> string \<Rightarrow> (string \<times> string) list" where
  "Version_fields name version =
     [(''name'', name), (''build'', sardis_BuildRevision), (''version'', version)]"

section \<open>hostname.go\<close>

text \<open>The host name is looked up once; the answer of the first call is kept.\<close>

definition hostname_constructor :: "go_error + string \<Rightarrow> string" where
  "hostname_constructor os_Hostname =
     (case os_Hostname of Inl err \<Rightarrow> ''UNKNOWN_HOSTNAME'' | Inr name \<Rightarrow> name)"

definition GetHostname :: "go_error + string \<Rightarrow> string option \<Rightarrow> string \<times> string option" where
  "GetHostname os_Hostname cache =
     (case cache of
        Some name \<Rightarrow> (name, cache)
      | None \<Rightarrow> (hostname_constructor os_Hostname, Some (hostname_constructor os_Hostname)))"

fun hostname_calls :: "(go_error + string) list \<Rightarrow> string option \<Rightarrow> string list" where
  "hostname_calls [] cache = []"
| "hostname_calls (os # oss) cache =
     (case GetHostname os cache of (name, cache) \<Rightarrow> name # hostname_calls oss cache)"

section \<open>diagnostics.go\<close>

text \<open>Times and durations are nanoseconds; the difference of two times is cut off at the limits of a
  duration. An operation changes the world, in which the clock is, and may panic.\<close>

record Interval =
  iv_Start :: int
  iv_End :: int

definition time_Sub :: "int \<Rightarrow> int \<Rightarrow> int" where
  "time_Sub t u = max (- (2 ^ 63)) (min (2 ^ 63 - 1) (t - u))"

definition Interval_Span :: "Interval \<Rightarrow> int" where
  "Interval_Span itr = time_Sub (iv_End itr) (iv_Start itr)"

definition DoWithTiming ::
    "('w \<Rightarrow> int) \<Rightarrow> ('w \<Rightarrow> 'a outcome \<times> 'w) \<Rightarrow> 'w \<Rightarrow> ('a \<times> Interval) outcome \<times> 'w" where
  "DoWithTiming now op w =
     (case op w of
        (Panic p, w') \<Rightarrow> (Panic p, w')
      | (Return val, w') \<Rightarrow> (Return (val, \<lparr>iv_Start = now w, iv_End = now w'\<rparr>), w'))"

definition CallWithTiming :: "('w \<Rightarrow> int) \<Rightarrow> ('w \<Rightarrow> unit outcome \<times> 'w) \<Rightarrow> 'w \<Rightarrow> Interval outcome \<times> 'w" where
  "CallWithTiming now op w =
     (case op w of
        (Panic p, w') \<Rightarrow> (Panic p, w')
      | (Return _, w') \<Rightarrow> (Return \<lparr>iv_Start = now w, iv_End = now w'\<rparr>, w'))"

text \<open>The message is sent also when the operation panics.\<close>

definition LogTiming ::
    "('w \<Rightarrow> int) \<Rightarrow> (string \<Rightarrow> int \<Rightarrow> 'w \<Rightarrow> 'w) \<Rightarrow> string \<Rightarrow> ('w \<Rightarrow> unit outcome \<times> 'w) \<Rightarrow> 'w \<Rightarrow> unit outcome \<times> 'w" where
  "LogTiming now send name op w =
     (case op w of (res, w') \<Rightarrow> (res, send name (time_Sub (now w') (now w)) w'))"

section \<open>jasper.go\<close>

text \<open>A manager is the environment it gives to its processes; a context has a manager and named
  ones. Attaching a named manager gives a new context, and the code drops it.\<close>

record jasper_ctx =
  jx_manager :: "(string \<times> string) list option"
  jx_named :: "(string \<times> (string \<times> string) list) list"
  jx_cleanup :: nat

definition WithContextManager :: "string \<Rightarrow> (string \<times> string) list \<Rightarrow> jasper_ctx \<Rightarrow> jasper_ctx" where
  "WithContextManager name m ctx = ctx\<lparr>jx_named := (name, m) # jx_named ctx\<rparr>"

definition WithManager :: "(string \<times> string) list \<Rightarrow> jasper_ctx \<Rightarrow> jasper_ctx" where
  "WithManager m ctx = ctx\<lparr>jx_manager := Some m\<rparr>"

definition WithJasper :: "string \<Rightarrow> string \<Rightarrow> jasper_ctx \<Rightarrow> jasper_ctx" where
  "WithJasper alacritty ssh_agent ctx =
     (let jpm = [(EnvVarAlacrittySocket, alacritty), (EnvVarSSHAgentSocket, ssh_agent)];
          ctx = ctx\<lparr>jx_cleanup := jx_cleanup ctx + 1\<rparr>;
          noStdOut = [(EnvVarAlacrittySocket, alacritty), (EnvVarSSHAgentSocket, ssh_agent),
                      (EnvVarSardisLogQuietStdOut, ''true'')];
          ctx = ctx\<lparr>jx_cleanup := jx_cleanup ctx + 1\<rparr>;
          dropped = WithContextManager ''without-std-out'' noStdOut ctx
      in WithManager jpm ctx)"

section \<open>Facts\<close>

lemma hostname_calls_cached: "hostname_calls oss (Some name) = replicate (length oss) name"
  by (induction oss) (auto simp: GetHostname_def)

text \<open>Every call of the host name gets the answer of the first, whatever the system answers later:
  a failure of the first lookup is kept too.\<close>

theorem hostname_is_stable:
  "hostname_calls (os # oss) None = replicate (Suc (length oss)) (hostname_constructor os)"
  by (simp add: GetHostname_def hostname_calls_cached)

text \<open>A timed operation on a clock that does not go back takes a time that is not negative, and
  timing changes neither its result nor the world; timing it for the log sends one message with that
  time, a panic included.\<close>

theorem timing_is_transparent:
  assumes "op w = (res, w')" and "now w \<le> now w'" and "now w' - now w < 2 ^ 63"
  shows "(case res of
       Panic p \<Rightarrow> DoWithTiming now op w = (Panic p, w')
     | Return val \<Rightarrow> \<exists>itr. DoWithTiming now op w = (Return (val, itr), w') \<and>
         Interval_Span itr = now w' - now w \<and> 0 \<le> Interval_Span itr)"
  using assms by (auto simp: DoWithTiming_def Interval_Span_def time_Sub_def split: outcome.split)

text \<open>The manager of the context gets both sockets and is closed at the end; the manager that
  keeps the output of processes away from the terminal is made and closed and never in the
  context, since the context that has it is dropped.\<close>

theorem jasper_without_std_out_is_lost:
  "jx_manager (WithJasper alacritty ssh ctx) =
     Some [(EnvVarAlacrittySocket, alacritty), (EnvVarSSHAgentSocket, ssh)] \<and>
   jx_named (WithJasper alacritty ssh ctx) = jx_named ctx \<and>
   jx_cleanup (WithJasper alacritty ssh ctx) = jx_cleanup ctx + 2 \<and>
   (let dropped = WithContextManager ''without-std-out'' m ctx in
    map_of (jx_named dropped) ''without-std-out'' = Some m)"
  by (simp add: WithJasper_def WithManager_def WithContextManager_def Let_def)

text \<open>The version that is printed is empty for every build, also for one whose revision was set.\<close>

theorem version_prints_no_revision:
  "map_of (Version_fields name version) ''build'' = Some [] \<and> global_BuildRevision [] = ''<UNKNOWN>'' \<and>
   (buildRevision \<noteq> [] \<longrightarrow> global_BuildRevision buildRevision = buildRevision)"
  by (simp add: Version_fields_def sardis_BuildRevision_def global_BuildRevision_def Default_def)

end
