(* ===== verification/Dbtools.thy ===== *)
theory Dbtools
  imports Go_Prelude
begin

text \<open>
  \<open>tools/dbtools.go\<close>: a database for a test, and the function that takes it down again. The driver is
  a parameter: connecting, executing a statement and closing, over a world of any type.
\<close>

section \<open>The driver\<close>

record ('h, 'w) driver =
  dv_connect :: "string \<Rightarrow> 'w \<Rightarrow> (go_error + 'h) \<times> 'w"
  dv_exec :: "'h \<Rightarrow> string \<Rightarrow> string list \<Rightarrow> 'w \<Rightarrow> go_error option \<times> 'w"
  dv_close :: "'h \<Rightarrow> 'w \<Rightarrow> go_error option \<times> 'w"
  dv_configure :: "'h \<Rightarrow> int \<Rightarrow> int \<Rightarrow> 'w \<Rightarrow> 'w"
  dv_pq_code :: "go_error \<Rightarrow> string option"

section \<open>dbtools.go\<close>

definition ScopeName :: string where "ScopeName = ''dbf''"

definition concat_strs :: "string list \<Rightarrow> string" where
  "concat_strs strs = foldl (@) [] strs"

definition db_name :: "string \<Rightarrow> string" where
  "db_name name = concat_strs [ScopeName, ''_testing_'', name]"

text \<open>The function that closes: the errors that are not nil, in order. The error about the connections is
  built whether or not killing them failed; that a database is missing is a warning, but an
  error as well.\<close>

definition closer :: "('h, 'w) driver \<Rightarrow> 'h \<Rightarrow> 'h \<Rightarrow> string \<Rightarrow> 'w \<Rightarrow> errors \<times> 'w" where
  "closer dv tdb db dbName w =
     (case dv_close dv db w of (e1, w) \<Rightarrow>
      case dv_exec dv tdb ''SELECT pg_terminate_backend(pid) FROM pg_stat_activity WHERE datname = $1;'' [dbName] w of
        (_, w) \<Rightarrow>
      case dv_exec dv tdb (concat_strs [''DROP DATABASE '', dbName]) [] w of (e3, w) \<Rightarrow>
      let e3' = (case e3 of
            None \<Rightarrow> []
          | Some err \<Rightarrow>
              if dv_pq_code dv err = Some ''3D000'' then [Wrapf [err] ''warning: %w'' []] else [err]);
          killing = [Errf ''problem killing connections'' []]
      in case dv_close dv tdb w of (e4, w) \<Rightarrow> (opt_err e1 @ killing @ e3' @ opt_err e4, w))"

definition MakeTestDatabase ::
    "('h, 'w) driver \<Rightarrow> string \<Rightarrow> 'w \<Rightarrow> (go_error + ('h \<times> ('w \<Rightarrow> errors \<times> 'w))) \<times> 'w" where
  "MakeTestDatabase dv name w =
     (let dbName = db_name name in
      case dv_connect dv (concat_strs [''user='', ScopeName, '' database=postgres sslmode=disable'']) w of
        (Inl err, w) \<Rightarrow> (Inl err, w)
      | (Inr tdb, w) \<Rightarrow>
      (case dv_exec dv tdb (concat_strs [''CREATE DATABASE '', dbName]) [] w of (_, w) \<Rightarrow>
       case dv_connect dv (concat_strs [''user='', ScopeName, '' database='', dbName, '' sslmode=disable'']) w of
         (Inl err, w) \<Rightarrow> (Inl err, w)
       | (Inr db, w) \<Rightarrow> (Inr (db, closer dv tdb db dbName), dv_configure dv db 128 8 w)))"

text \<open>The test stops (here, a panic) when the database cannot be made, and when it cannot be closed.\<close>

definition GetTestDatabase ::
    "('h, 'w) driver \<Rightarrow> (unit \<Rightarrow> string) \<Rightarrow> 'w \<Rightarrow> ('h \<times> ('w \<Rightarrow> unit outcome \<times> 'w)) outcome \<times> 'w" where
  "GetTestDatabase dv new_uuid w =
     (case MakeTestDatabase dv (take 7 (new_uuid ())) w of
        (Inl err, w) \<Rightarrow> (Panic err, w)
      | (Inr (db, close), w) \<Rightarrow>
          (Return (db, \<lambda>w. (case close w of (err, w) \<Rightarrow> (if err = [] then Return () else Panic (Wrapf err ''fatal'' []), w))), w))"

section \<open>Facts\<close>

lemma concat_strs_eq: "concat_strs strs = concat strs"
proof -
  have "foldl (@) acc strs = acc @ concat strs" for acc by (induction strs arbitrary: acc) auto
  then show ?thesis by (simp add: concat_strs_def)
qed

lemma closer_fails: "fst (closer dv tdb db dbName w) \<noteq> []"
  by (simp add: closer_def Let_def split: prod.splits)

text \<open>The statements that take the database down are run in order (the connections to it are ended
  before it is dropped) and every error is reported, but closing never succeeds: a test
  that gets a database and closes it always fails, also when every call of the driver succeeds.\<close>

theorem test_database_close_always_fails:
  assumes "GetTestDatabase dv new_uuid w = (Return (db, close), w')"
  shows "\<exists>err w3. close w2 = (Panic (Wrapf err ''fatal'' []), w3) \<and> err \<noteq> []"
proof -
  obtain cl where "MakeTestDatabase dv (take 7 (new_uuid ())) w = (Inr (db, cl), w')"
    and close: "close = (\<lambda>w. (case cl w of (err, w) \<Rightarrow>
      (if err = [] then Return () else Panic (Wrapf err ''fatal'' []), w)))"
    using assms by (auto simp: GetTestDatabase_def split: prod.splits sum.splits)
  then obtain tdb dbName where "cl = closer dv tdb db dbName"
    by (auto simp: MakeTestDatabase_def Let_def split: prod.splits sum.splits)
  then show ?thesis using closer_fails[of dv tdb db dbName w2] close
    by (cases "cl w2") auto
qed

end
