(* ===== verification/Funlint_Rules.thy ===== *)
theory Funlint_Rules
  imports Go_Prelude
begin

text \<open>
  \<open>cmd/funlint\<close>: the linter rules, as the data the rule functions build. A rule lists the
  alternative patterns it matches, the conditions on what the variables of the pattern capture,
  the text it suggests instead and what it reports. The matching itself belongs to the ruleguard
  library; what is shown is what the rules must respect for it to work.
\<close>

section \<open>Rules\<close>

datatype capture_filter = Text_Is string string | Type_Is string string

datatype rule = Rule (patterns: "string list") (filters: "capture_filter list")
  (suggestion: "string option") (report: string)

datatype rule_group = Group (group_name: string) (group_imports: "string list") (rules: "rule list")

definition quoted :: "string \<Rightarrow> string" where "quoted s = CHR 0x22 # s @ [CHR 0x22]"

section \<open>rules/assertions.go, rules/strcat.go and mapcopy.go\<close>

definition convertTestifyRequireToFunAssert :: rule_group where
  "convertTestifyRequireToFunAssert =
     Group ''convertTestifyRequireToFunAssert'' [''github.com/stretchr/testify/require'', ''github.com/tychoish/fun/assert''] [
       Rule [''$pkg.NoError($t, $err)'', ''$pkg.NoError($t, $err, $*args)''] [Text_Is ''pkg'' ''require'']
         (Some ''assert.NotError($t, $err)'')
         ''Use assert.NotError from fun/assert instead of testify require.NoError'',
       Rule [''$pkg.Error($t, $err)'', ''$pkg.Error($t, $err, $*args)''] [Text_Is ''pkg'' ''require'']
         (Some ''assert.Error($t, $err)'')
         ''Use assert.Error from fun/assert instead of testify require.Error'',
       Rule [''$pkg.True($t, $cond)'', ''$pkg.True($t, $cond, $*args)''] [Text_Is ''pkg'' ''require'']
         (Some ''assert.True($t, $cond)'')
         ''Use assert.True from fun/assert instead of testify require.True'',
       Rule [''$pkg.False($t, $cond)'', ''$pkg.False($t, $cond, $*args)''] [Text_Is ''pkg'' ''require'']
         (Some ''assert.True($t, !$cond)'')
         ''Use assert.True from fun/assert instead of testify require.False'',
       Rule [''$pkg.Equal($t, $expected, $actual)'', ''$pkg.Equal($t, $expected, $actual, $*args)''] [Text_Is ''pkg'' ''require'']
         (Some ''assert.Equal($t, $expected, $actual)'')
         ''Use assert.Equal from fun/assert instead of testify require.Equal'',
       Rule [''$pkg.NotEqual($t, $expected, $actual)'',
          ''$pkg.NotEqual($t, $expected, $actual, $*args)''] [Text_Is ''pkg'' ''require'']
         (Some ''assert.True($t, $expected != $actual)'')
         ''Use assert.True with != from fun/assert instead of testify require.NotEqual'',
       Rule [''$pkg.Nil($t, $val)'', ''$pkg.Nil($t, $val, $*args)''] [Text_Is ''pkg'' ''require'']
         (Some ''assert.Zero($t, $val)'')
         ''Use assert.Zero from fun/assert instead of testify require.Nil'',
       Rule [''$pkg.NotNil($t, $val)'', ''$pkg.NotNil($t, $val, $*args)''] [Text_Is ''pkg'' ''require'']
         (Some ''assert.True($t, $val != nil)'')
         ''Use assert.True with != nil from fun/assert instead of testify require.NotNil'',
       Rule [''$pkg.Len($t, $obj, $length)'', ''$pkg.Len($t, $obj, $length, $*args)''] [Text_Is ''pkg'' ''require'']
         (Some ''assert.Equal($t, $length, len($obj))'')
         ''Use assert.Equal with len() from fun/assert instead of testify require.Len'',
       Rule [''$pkg.Empty($t, $obj)'', ''$pkg.Empty($t, $obj, $*args)''] [Text_Is ''pkg'' ''require'']
         (Some ''assert.Zero($t, len($obj))'')
         ''Use assert.Zero with len() from fun/assert instead of testify require.Empty'',
       Rule [''$pkg.NotEmpty($t, $obj)'', ''$pkg.NotEmpty($t, $obj, $*args)''] [Text_Is ''pkg'' ''require'']
         (Some ''assert.True($t, len($obj) > 0)'')
         ''Use assert.True with len() > 0 from fun/assert instead of testify require.NotEmpty'',
       Rule [''$pkg.Contains($t, $container, $element)'',
          ''$pkg.Contains($t, $container, $element, $*args)''] [Text_Is ''pkg'' ''require'']
         None
         ''Manually convert Contains from testify to fun/assert/check - use appropriate check for container type'',
       Rule [''$pkg.Panics($t, $fn)'', ''$pkg.Panics($t, $fn, $*args)''] [Text_Is ''pkg'' ''require'']
         (Some ''assert.Panic($t, $fn)'')
         ''Use assert.Panic from fun/assert instead of testify Panics'',
       Rule [''$pkg.NotPanics($t, $fn)'', ''$pkg.NotPanics($t, $fn, $*args)''] [Text_Is ''pkg'' ''require'']
         (Some ''assert.NotPanic($t, $fn)'')
         ''Use check.NotPanic from fun/assert/check instead of testify NotPanics'',
       Rule [''$pkg.ErrorIs($t, $err, $target)'', ''$pkg.ErrorIs($t, $err, $target, $*args)''] [Text_Is ''pkg'' ''require'']
         (Some ''assert.ErrorIs($t, $err, $target)'')
         ''Use assert.ErrorIs from fun/assert instead of testify ErrorIs'',
       Rule [''$pkg.Zero($t, $val)'', ''$pkg.Zero($t, $val, $*args)''] [Text_Is ''pkg'' ''require'']
         (Some ''assert.Zero($t, $val)'')
         ''Use assert.Zero from fun/assert instead of testify require.Zero'',
       Rule [''$pkg.Greater($t, $a, $b)'', ''$pkg.Greater($t, $a, $b, $*args)''] [Text_Is ''pkg'' ''require'']
         (Some ''assert.True($t, $a > $b)'')
         ''Use assert.True with > from fun/assert instead of testify require.Greater'',
       Rule [''$pkg.GreaterOrEqual($t, $a, $b)'', ''$pkg.GreaterOrEqual($t, $a, $b, $*args)''] [Text_Is ''pkg'' ''require'']
         (Some ''assert.True($t, $a >= $b)'')
         ''Use assert.True with >= from fun/assert instead of testify require.GreaterOrEqual'',
       Rule [''$pkg.Less($t, $a, $b)'', ''$pkg.Less($t, $a, $b, $*args)''] [Text_Is ''pkg'' ''require'']
         (Some ''assert.True($t, $a < $b)'')
         ''Use assert.True with < from fun/assert instead of testify require.Less'',
       Rule [''$pkg.LessOrEqual($t, $a, $b)'', ''$pkg.LessOrEqual($t, $a, $b, $*args)''] [Text_Is ''pkg'' ''require'']
         (Some ''assert.True($t, $a <= $b)'')
         ''Use assert.True with <= from fun/assert instead of testify require.LessOrEqual'',
       Rule [''$pkg.Positive($t, $val)'', ''$pkg.Positive($t, $val, $*args)''] [Text_Is ''pkg'' ''require'']
         (Some ''assert.True($t, $val > 0)'')
         ''Use assert.True with > 0 from fun/assert instead of testify require.Positive'',
       Rule [''$pkg.Negative($t, $val)'', ''$pkg.Negative($t, $val, $*args)''] [Text_Is ''pkg'' ''require'']
         (Some ''assert.True($t, $val < 0)'')
         ''Use assert.True with < 0 from fun/assert instead of testify require.Negative'',
       Rule [''$pkg.NotZero($*_)'', ''$pkg.NotContains($*_)'', ''$pkg.WithinDuration($*_)'',
          ''$pkg.InDelta($*_)'', ''$pkg.InEpsilon($*_)'', ''$pkg.IsType($*_)'',
          ''$pkg.Implements($*_)'', ''$pkg.Same($*_)'', ''$pkg.NotSame($*_)'',
          ''$pkg.Subset($*_)'', ''$pkg.NotSubset($*_)'', ''$pkg.ElementsMatch($*_)'',
          ''$pkg.Eventually($*_)'', ''$pkg.Never($*_)'', ''$pkg.JSONEq($*_)'',
          ''$pkg.YAMLEq($*_)'', ''$pkg.FileExists($*_)'', ''$pkg.DirExists($*_)'',
          ''$pkg.Regexp($*_)'', ''$pkg.NotRegexp($*_)'', ''$pkg.PanicsWithValue($*_)'',
          ''$pkg.PanicsWithError($*_)'', ''$pkg.ErrorContains($*_)'', ''$pkg.ErrorAs($*_)'',
          ''$pkg.Condition($*_)'', ''$pkg.InDeltaSlice($*_)'', ''$pkg.InDeltaMapValues($*_)'',
          ''$pkg.NoFileExists($*_)'', ''$pkg.NoDirExists($*_)''] [Text_Is ''pkg'' ''require'']
         None
         ''This testify assertion requires manual conversion to fun/assert - check documentation'',
       Rule [''$pkg.HTTPSuccess($*_)'', ''$pkg.HTTPRedirect($*_)'', ''$pkg.HTTPError($*_)'',
          ''$pkg.HTTPStatusCode($*_)'', ''$pkg.HTTPBody($*_)'', ''$pkg.HTTPBodyContains($*_)'',
          ''$pkg.HTTPBodyNotContains($*_)''] [Text_Is ''pkg'' ''require'']
         None
         ''HTTP assertions are not supported in fun/assert - implement custom HTTP checks'',
       Rule [quoted ''github.com/stretchr/testify/assert''] []
         (Some ''github.com/tychoish/fun/assert/check'')
         ''update import statement, for testify.assert, to fun/assert/check'',
       Rule [quoted ''github.com/stretchr/testify/require''] []
         (Some ''github.com/tychoish/fun/assert'')
         ''update import statement, for testify.require, to fun/assert/check'']"

definition convertTestifyAssertToFunCheck :: rule_group where
  "convertTestifyAssertToFunCheck =
     Group ''convertTestifyAssertToFunCheck'' [''github.com/stretchr/testify/assert'', ''github.com/tychoish/fun/assert/check''] [
       Rule [''$pkg.NoError($t, $err)'', ''$pkg.NoError($t, $err, $*args)''] [Text_Is ''pkg'' ''assert'']
         (Some ''check.NotError($t, $err)'')
         ''Use assert.NotError from fun/assert instead of testify assert.NoError'',
       Rule [''$pkg.Error($t, $err)'', ''$pkg.Error($t, $err, $*args)''] [Text_Is ''pkg'' ''assert'']
         (Some ''check.Error($t, $err)'')
         ''Use assert.Error from fun/assert instead of testify assert.Error'',
       Rule [''$pkg.True($t, $cond)'', ''$pkg.True($t, $cond, $*args)''] [Text_Is ''pkg'' ''assert'']
         (Some ''check.True($t, $cond)'')
         ''Use assert.True from fun/assert instead of testify assert.True'',
       Rule [''$pkg.False($t, $cond)'', ''$pkg.False($t, $cond, $*args)''] [Text_Is ''pkg'' ''assert'']
         (Some ''check.True($t, !$cond)'')
         ''Use assert.True from fun/assert instead of testify assert.False'',
       Rule [''$pkg.Equal($t, $expected, $actual)'', ''$pkg.Equal($t, $expected, $actual, $*args)''] [Text_Is ''pkg'' ''assert'']
         (Some ''check.Equal($t, $expected, $actual)'')
         ''Use assert.Equal from fun/assert instead of testify assert.Equal'',
       Rule [''$pkg.NotEqual($t, $expected, $actual)'',
          ''$pkg.NotEqual($t, $expected, $actual, $*args)''] [Text_Is ''pkg'' ''assert'']
         (Some ''check.True($t, $expected != $actual)'')
         ''Use assert.True with != from fun/assert instead of testify assert.NotEqual'',
       Rule [''$pkg.Nil($t, $val)'', ''$pkg.Nil($t, $val, $*args)''] [Text_Is ''pkg'' ''assert'']
         (Some ''check.Zero($t, $val)'')
         ''Use assert.Zero from fun/assert instead of testify assert.Nil'',
       Rule [''$pkg.NotNil($t, $val)'', ''$pkg.NotNil($t, $val, $*args)''] [Text_Is ''pkg'' ''assert'']
         (Some ''check.True($t, $val != nil)'')
         ''Use assert.True with != nil from fun/assert instead of testify assert.NotNil'',
       Rule [''$pkg.Len($t, $obj, $length)'', ''$pkg.Len($t, $obj, $length, $*args)''] [Text_Is ''pkg'' ''assert'']
         (Some ''check.Equal($t, $length, len($obj))'')
         ''Use assert.Equal with len() from fun/assert instead of testify assert.Len'',
       Rule [''$pkg.Empty($t, $obj)'', ''$pkg.Empty($t, $obj, $*args)''] [Text_Is ''pkg'' ''assert'']
         (Some ''check.Zero($t, len($obj))'')
         ''Use assert.Zero with len() from fun/assert instead of testify assert.Empty'',
       Rule [''$pkg.NotEmpty($t, $obj)'', ''$pkg.NotEmpty($t, $obj, $*args)''] [Text_Is ''pkg'' ''assert'']
         (Some ''check.True($t, len($obj) > 0)'')
         ''Use assert.True with len() > 0 from fun/assert instead of testify assert.NotEmpty'',
       Rule [''$pkg.Contains($t, $container, $element)'',
          ''$pkg.Contains($t, $container, $element, $*args)''] [Text_Is ''pkg'' ''assert'']
         None
         ''Manually convert Contains from testify to fun/assert - use appropriate check for container type'',
       Rule [''$pkg.Panics($t, $fn)'', ''$pkg.Panics($t, $fn, $*args)''] [Text_Is ''pkg'' ''assert'']
         (Some ''check.Panic($t, $fn)'')
         ''Use assert.Panic from fun/assert instead of testify Panics'',
       Rule [''$pkg.NotPanics($t, $fn)'', ''$pkg.NotPanics($t, $fn, $*args)''] [Text_Is ''pkg'' ''assert'']
         (Some ''check.NotPanic($t, $fn)'')
         ''Use check.NotPanic from fun/assert/check instead of testify NotPanics'',
       Rule [''$pkg.ErrorIs($t, $err, $target)'', ''$pkg.ErrorIs($t, $err, $target, $*args)''] [Text_Is ''pkg'' ''assert'']
         (Some ''check.ErrorIs($t, $err, $target)'')
         ''Use assert.ErrorIs from fun/assert instead of testify ErrorIs'',
       Rule [''$pkg.Zero($t, $val)'', ''$pkg.Zero($t, $val, $*args)''] [Text_Is ''pkg'' ''assert'']
         (Some ''check.Zero($t, $val)'')
         ''Use check.Zero from fun/assert/check instead of testify assert.Zero'',
       Rule [''$pkg.Greater($t, $a, $b)'', ''$pkg.Greater($t, $a, $b, $*args)''] [Text_Is ''pkg'' ''assert'']
         (Some ''check.True($t, $a > $b)'')
         ''Use check.True with > from fun/assert/check instead of testify assert.Greater'',
       Rule [''$pkg.GreaterOrEqual($t, $a, $b)'', ''$pkg.GreaterOrEqual($t, $a, $b, $*args)''] [Text_Is ''pkg'' ''assert'']
         (Some ''check.True($t, $a >= $b)'')
         ''Use check.True with >= from fun/assert/check instead of testify assert.GreaterOrEqual'',
       Rule [''$pkg.Less($t, $a, $b)'', ''$pkg.Less($t, $a, $b, $*args)''] [Text_Is ''pkg'' ''assert'']
         (Some ''check.True($t, $a < $b)'')
         ''Use check.True with < from fun/assert/check instead of testify assert.Less'',
       Rule [''$pkg.LessOrEqual($t, $a, $b)'', ''$pkg.LessOrEqual($t, $a, $b, $*args)''] [Text_Is ''pkg'' ''assert'']
         (Some ''check.True($t, $a <= $b)'')
         ''Use check.True with <= from fun/assert/check instead of testify assert.LessOrEqual'',
       Rule [''$pkg.Positive($t, $val)'', ''$pkg.Positive($t, $val, $*args)''] [Text_Is ''pkg'' ''assert'']
         (Some ''check.True($t, $val > 0)'')
         ''Use check.True with > 0 from fun/assert/check instead of testify assert.Positive'',
       Rule [''$pkg.Negative($t, $val)'', ''$pkg.Negative($t, $val, $*args)''] [Text_Is ''pkg'' ''assert'']
         (Some ''check.True($t, $val < 0)'')
         ''Use check.True with < 0 from fun/assert/check instead of testify assert.Negative'',
       Rule [''$pkg.NotZero($*_)'', ''$pkg.NotContains($*_)'', ''$pkg.WithinDuration($*_)'',
          ''$pkg.InDelta($*_)'', ''$pkg.InEpsilon($*_)'', ''$pkg.IsType($*_)'',
          ''$pkg.Implements($*_)'', ''$pkg.Same($*_)'', ''$pkg.NotSame($*_)'',
          ''$pkg.Subset($*_)'', ''$pkg.NotSubset($*_)'', ''$pkg.ElementsMatch($*_)'',
          ''$pkg.Eventually($*_)'', ''$pkg.Never($*_)'', ''$pkg.JSONEq($*_)'',
          ''$pkg.YAMLEq($*_)'', ''$pkg.FileExists($*_)'', ''$pkg.DirExists($*_)'',
          ''$pkg.Regexp($*_)'', ''$pkg.NotRegexp($*_)'', ''$pkg.PanicsWithValue($*_)'',
          ''$pkg.PanicsWithError($*_)'', ''$pkg.ErrorContains($*_)'', ''$pkg.ErrorAs($*_)'',
          ''$pkg.Condition($*_)'', ''$pkg.InDeltaSlice($*_)'', ''$pkg.InDeltaMapValues($*_)'',
          ''$pkg.NoFileExists($*_)'', ''$pkg.NoDirExists($*_)''] [Text_Is ''pkg'' ''assert'']
         None
         ''This testify assertion requires manual conversion to fun/assert/check - check documentation'',
       Rule [''$pkg.HTTPSuccess($*_)'', ''$pkg.HTTPRedirect($*_)'', ''$pkg.HTTPError($*_)'',
          ''$pkg.HTTPStatusCode($*_)'', ''$pkg.HTTPBody($*_)'', ''$pkg.HTTPBodyContains($*_)'',
          ''$pkg.HTTPBodyNotContains($*_)''] [Text_Is ''pkg'' ''assert'']
         None
         ''HTTP assertions are not supported in fun/assert - implement custom HTTP checks'']"

definition stringConcat :: rule_group where
  "stringConcat =
     Group ''stringConcat'' [] [
       Rule [''$a += $b''] [Type_Is ''a'' ''string'']
         None
         ''avoid += with strings; prefer strings.Builder, utils.Concat, or itertools.JoinStrings'',
       Rule [''for $*_ { $*_; $s += $_; $*_ }''] [Type_Is ''s'' ''string'']
         None
         ''avoid string concatenation in loops; prefer strings.Builder or itertools.JoinStrings'']"

definition unnecessaryOrderedMapCopy :: rule_group where
  "unnecessaryOrderedMapCopy =
     Group ''unnecessaryOrderedMapCopy'' [] [
       Rule [''$m := irt.Collect2($orderedMap.Iterator())''] []
         (Some ''consider using map directly instead of OrderedMap if insertion order is not needed'')
         ''unnecessary ordered map: using Collect2 to convert to standard map'',
       Rule [
          ''$result := make(map[$k]$v); for $key, $val := range $orderedMap.Iterator() { $result[$key] = $val }''] []
         (Some ''consider using map[$k]$v directly if insertion order is not needed'')
         ''unnecessary ordered map: content copied to standard map $result'']"

definition inefficientMapIteration :: rule_group where
  "inefficientMapIteration =
     Group ''inefficientMapIteration'' [] [
       Rule [''for $k := range $m.Keys() { $*_; $v := $m.Get($k); $*_ }''] []
         (Some ''for $k, $v := range $m.Iterator() { ... }'')
         ''inefficient map iteration: use Iterator() instead of Keys() + Get()'',
       Rule [''$values := irt.Collect($m.Values()); if len($values) > 0 { $*_ }'',
          ''$values := irt.Collect($m.Values()); if len($values) == 0 { $*_ }''] []
         (Some ''use $m.Len() > 0 or $m.Len() == 0 instead'')
         ''inefficient: collecting all values just to check if map is non-empty'']"

definition mapLenCheck :: rule_group where
  "mapLenCheck =
     Group ''mapLenCheck'' [] [
       Rule [''len(irt.Collect($m.Keys()))'', ''len(irt.Collect($m.Values()))''] []
         (Some ''use $m.Len() instead'')
         ''inefficient: collecting all items just to check map length'']"

definition inefficientMapPopulation :: rule_group where
  "inefficientMapPopulation =
     Group ''inefficientMapPopulation'' [] [
       Rule [''for $k, $v := range $src { $dst.Set($k, $v) }'',
          ''for $k, $v := range $src { $dst.Store($k, $v) }''] []
         (Some ''$dst.Extend($src)'')
         ''consider using Extend() method for bulk insertions from iterators'']"

definition heapWithoutComparator :: rule_group where
  "heapWithoutComparator =
     Group ''heapWithoutComparator'' [] [
       Rule [''$h := &dt.Heap[$t]{}; $h.Push($x)'', ''$h := dt.Heap[$t]{}; $h.Push($x)''] []
         (Some ''initialize Heap with CF: &dt.Heap[$t]{CF: cmp.Compare[$t]}'')
         ''Heap.Push will panic without CF comparator function'']"

definition ringCapacityNotSet :: rule_group where
  "ringCapacityNotSet =
     Group ''ringCapacityNotSet'' [] [
       Rule [''$r := &dt.Ring[$t]{}; $r.Push($x)'', ''$r := dt.Ring[$t]{}; $r.Push($x)''] []
         (Some ''initialize Ring with Capacity: &dt.Ring[$t]{Capacity: $n}'')
         ''Ring capacity not set: will not store any elements'']"

definition doubleCheck :: rule_group where
  "doubleCheck =
     Group ''doubleCheck'' [] [
       Rule [''if $m.Check($key) { $val := $m.Get($key); $*_ }''] []
         (Some ''if $val, ok := $m.Load($key); ok { ... }'')
         ''redundant Check before Get: use Load() for single lookup'']"

text \<open>The file declares the second group twice, with the same body.\<close>

definition convertTestifyAssertToFunCheck_again :: rule_group where
  "convertTestifyAssertToFunCheck_again = convertTestifyAssertToFunCheck"

definition assertions_go :: "rule_group list" where
  "assertions_go = [convertTestifyRequireToFunAssert, convertTestifyAssertToFunCheck,
     convertTestifyAssertToFunCheck_again]"

definition mapcopy_go :: "rule_group list" where
  "mapcopy_go = [unnecessaryOrderedMapCopy, inefficientMapIteration, mapLenCheck,
     inefficientMapPopulation, heapWithoutComparator, ringCapacityNotSet, doubleCheck]"

section \<open>Variables of the templates\<close>

text \<open>A pattern captures \<open>$name\<close> or the list \<open>$*name\<close>; \<open>_\<close> captures nothing. A suggestion and a
  report refer to what the pattern has captured.\<close>

definition ident_char :: "char \<Rightarrow> bool" where
  "ident_char c \<longleftrightarrow> c \<in> set ''abcdefghijklmnopqrstuvwxyzABCDEFGHIJKLMNOPQRSTUVWXYZ0123456789_''"

definition template_var :: "string \<Rightarrow> string list" where
  "template_var s =
     (let name = takeWhile ident_char (if take 1 s = ''*'' then drop 1 s else s)
      in if name = [] \<or> name = ''_'' then [] else [name])"

fun template_vars :: "string \<Rightarrow> string list" where
  "template_vars [] = []"
| "template_vars (c # s) = (if c = CHR ''$'' then template_var s else []) @ template_vars s"

fun filter_var :: "capture_filter \<Rightarrow> string" where
  "filter_var (Text_Is v t) = v"
| "filter_var (Type_Is v t) = v"

text \<open>Every variable that a rule uses is captured by each of its patterns.\<close>

definition used_vars :: "rule \<Rightarrow> string list" where
  "used_vars r = template_vars (case suggestion r of None \<Rightarrow> [] | Some s \<Rightarrow> s) @
     template_vars (report r) @ map filter_var (filters r)"

definition well_scoped :: "rule \<Rightarrow> bool" where
  "well_scoped r \<longleftrightarrow> list_all (\<lambda>p. list_all (\<lambda>v. List.member (template_vars p) v) (used_vars r)) (patterns r)"

text \<open>The method of a package that a pattern of the assertion rules matches a call of.\<close>

definition pattern_method :: "string \<Rightarrow> string list" where
  "pattern_method p =
     (if take 5 p = ''$pkg.'' then [takeWhile (\<lambda>c. c \<noteq> CHR ''('') (drop 5 p)] else [])"

definition rule_methods :: "rule \<Rightarrow> string list" where
  "rule_methods r = remdups (concat (map pattern_method (patterns r)))"

definition handled_by :: "rule_group \<Rightarrow> string \<Rightarrow> rule list" where
  "handled_by g m = filter (\<lambda>r. m \<in> set (rule_methods r)) (rules g)"

text \<open>The conversion of \<open>require\<close> aborts the test, the one of \<open>assert\<close> goes on: the same suggestion
  with the other package.\<close>

definition as_check :: "string \<Rightarrow> string" where
  "as_check s = ''check.'' @ drop (length ''assert.'') s"

section \<open>Facts\<close>

lemma distinct_concat_filter_le_1:
  "distinct (concat (map f xs)) \<Longrightarrow> length (filter (\<lambda>x. y \<in> set (f x)) xs) \<le> 1"
proof (induction xs)
  case (Cons x xs)
  have "filter (\<lambda>z. y \<in> set (f z)) xs = []" if "y \<in> set (f x)"
    using that Cons.prems by (auto simp: filter_empty_conv)
  with Cons show ?case by auto
qed simp

lemma require_methods_distinct:
  "distinct (concat (map rule_methods (rules convertTestifyRequireToFunAssert)))"
  by code_simp

lemma require_parallel_check:
  "map (\<lambda>r. (rule_methods r, patterns r, map_option as_check (suggestion r)))
     (filter (\<lambda>r. rule_methods r \<noteq> []) (rules convertTestifyRequireToFunAssert)) =
   map (\<lambda>r. (rule_methods r, patterns r, suggestion r)) (rules convertTestifyAssertToFunCheck)"
  by code_simp

lemma filter_map_fst:
  "filter (\<lambda>x. P (fst x)) (map (\<lambda>r. (f r, g r)) xs) = map (\<lambda>r. (f r, g r)) (filter (\<lambda>r. P (f r)) xs)"
  by (induction xs) auto

lemma handled_parallel:
  "map (\<lambda>r. (rule_methods r, patterns r, suggestion r)) (handled_by convertTestifyAssertToFunCheck m) =
   map (\<lambda>r. (rule_methods r, patterns r, map_option as_check (suggestion r)))
     (handled_by convertTestifyRequireToFunAssert m)"
proof -
  have "handled_by convertTestifyRequireToFunAssert m =
      filter (\<lambda>r. m \<in> set (rule_methods r))
        (filter (\<lambda>r. rule_methods r \<noteq> []) (rules convertTestifyRequireToFunAssert))"
    by (auto simp: handled_by_def intro!: filter_cong)
  then show ?thesis
    using filter_map_fst[of "\<lambda>ms. m \<in> set ms" rule_methods
        "\<lambda>r. (patterns r, map_option as_check (suggestion r))"
        "filter (\<lambda>r. rule_methods r \<noteq> []) (rules convertTestifyRequireToFunAssert)"]
      filter_map_fst[of "\<lambda>ms. m \<in> set ms" rule_methods "\<lambda>r. (patterns r, suggestion r)"
        "rules convertTestifyAssertToFunCheck"]
    by (simp add: require_parallel_check handled_by_def)
qed

lemma assertion_rules_scoped:
  "list_all well_scoped (rules convertTestifyRequireToFunAssert)"
  "list_all well_scoped (rules convertTestifyAssertToFunCheck)"
  by code_simp+

text \<open>The two conversions of testify assertions agree. A rule only uses variables that
  each of its patterns captures; a call of any assertion is matched by the rules of one entry at
  most, so that it gets one suggestion; and \<open>assert\<close> is converted by the same patterns to the
  same suggestion as \<open>require\<close>, of package \<open>check\<close> instead of \<open>assert\<close>.\<close>

theorem assertion_rules_agree:
  "list_all well_scoped (rules convertTestifyRequireToFunAssert) \<and>
   list_all well_scoped (rules convertTestifyAssertToFunCheck) \<and>
   length (handled_by convertTestifyRequireToFunAssert m) \<le> 1 \<and>
   map (\<lambda>r. (patterns r, suggestion r)) (handled_by convertTestifyAssertToFunCheck m) =
     map (\<lambda>r. (patterns r, map_option as_check (suggestion r)))
       (handled_by convertTestifyRequireToFunAssert m)"
  using assertion_rules_scoped distinct_concat_filter_le_1[OF require_methods_distinct, of m]
    arg_cong[OF handled_parallel[of m], of "map snd"]
  by (simp add: handled_by_def comp_def)

text \<open>What does not hold: the file declares a rule group twice, and the suggestion for a ring
  without capacity names a capacity that no pattern captures; the other rules of \<open>mapcopy.go\<close>
  and of \<open>strcat.go\<close> are well scoped.\<close>

theorem rules_that_cannot_work:
  "\<not> distinct (map group_name assertions_go) \<and>
   filter (\<lambda>r. \<not> well_scoped r) (concat (map rules (stringConcat # mapcopy_go))) = rules ringCapacityNotSet"
proof -
  have "filter (\<lambda>r. \<not> well_scoped r) (concat (map rules (stringConcat # mapcopy_go))) = rules ringCapacityNotSet"
    by code_simp
  then show ?thesis by (simp add: assertions_go_def convertTestifyAssertToFunCheck_again_def)
qed

end
