(* ===== verification/Interview.thy ===== *)
theory Interview
  imports Go_Prelude "HOL-Library.Word" "HOL-Library.Signed_Division"
begin

text \<open>
  \<open>cmd/interview-one/main.go\<close>: an exercise that parses an expression into a linked list of operations
  and evaluates it by walking the list once per operator. A walk can end, panic, or not end at all;
  the arithmetic is that of 64 bit integers.
\<close>

section \<open>Operations\<close>

datatype operation =
  Operation (op_Left: int) (op_Operator: string) (op_Value: int) (op_Right: "operation option")

definition Operation0 :: operation where "Operation0 = Operation 0 [] 0 None"

text \<open>The arithmetic is that of the machine's words.\<close>

lemma wrap64_word: "wrap64 i = sint (word_of_int i :: 64 word)"
  by (simp add: wrap64_def sint_sbintrunc' signed_take_bit_eq_take_bit_shift take_bit_eq_mod)

definition divide_by_zero :: go_error where "divide_by_zero = Errf ''integer divide by zero'' []"

definition op_mul :: "int \<Rightarrow> int \<Rightarrow> int outcome" where "op_mul a b = Return (wrap64 (a * b))"
definition op_add :: "int \<Rightarrow> int \<Rightarrow> int outcome" where "op_add a b = Return (wrap64 (a + b))"
definition op_sub :: "int \<Rightarrow> int \<Rightarrow> int outcome" where "op_sub a b = Return (wrap64 (a - b))"
definition op_div :: "int \<Rightarrow> int \<Rightarrow> int outcome" where
  "op_div a b = (if b = 0 then Panic divide_by_zero else Return (wrap64 (a sdiv b)))"

section \<open>evaluate\<close>

text \<open>How a loop comes out.\<close>

datatype 'a run = Ends 'a | Panics go_error | Diverges

fun run_map :: "('a \<Rightarrow> 'b) \<Rightarrow> 'a run \<Rightarrow> 'b run" where
  "run_map f (Ends x) = Ends (f x)"
| "run_map f (Panics p) = Panics p"
| "run_map f Diverges = Diverges"

fun run_bind :: "'a run \<Rightarrow> ('a \<Rightarrow> 'b run) \<Rightarrow> 'b run" where
  "run_bind (Ends x) f = f x"
| "run_bind (Panics p) f = Panics p"
| "run_bind Diverges f = Diverges"

text \<open>One walk: an operation of the operator takes the operand of the next one, which it unlinks. The
  operation that stands for equality goes round without moving.\<close>

fun walk_pass :: "string \<Rightarrow> (int \<Rightarrow> int \<Rightarrow> int outcome) \<Rightarrow> operation \<Rightarrow> operation run" where
  "walk_pass x f (Operation l oper v r) =
     (if oper = ''='' then Diverges
      else if oper = x then
        (case r of
           None \<Rightarrow> Panics nil_deref
         | Some (Operation l2 oper2 v2 r2) \<Rightarrow>
             (case f l l2 of
                Panic p \<Rightarrow> Panics p
              | Return v' \<Rightarrow>
                  (case r2 of
                     None \<Rightarrow> Ends (Operation l oper v' None)
                   | Some q \<Rightarrow> run_map (\<lambda>q'. Operation l oper v' (Some q')) (walk_pass x f q))))
      else
        (case r of
           None \<Rightarrow> Ends (Operation l oper v None)
         | Some q \<Rightarrow> run_map (\<lambda>q'. Operation l oper v (Some q')) (walk_pass x f q)))"

text \<open>The last walk stays at the head: a product takes all operands that are left, and any other
  operation with one after it is looked at for ever.\<close>

fun last_pass :: "operation \<Rightarrow> operation run" where
  "last_pass (Operation l oper v r) =
     (if oper = ''='' then Diverges
      else if oper = ''*'' then
        (case r of
           None \<Rightarrow> Panics nil_deref
         | Some (Operation l2 oper2 v2 None) \<Rightarrow> Ends (Operation l oper (wrap64 (l * l2)) None)
         | Some (Operation l2 oper2 v2 (Some q)) \<Rightarrow> last_pass (Operation l oper (wrap64 (l * l2)) (Some q)))
      else (case r of None \<Rightarrow> Ends (Operation l oper v None) | Some q \<Rightarrow> Diverges))"

definition of_outcome :: "'a outcome \<Rightarrow> 'a run" where
  "of_outcome r = (case r of Return x \<Rightarrow> Ends x | Panic p \<Rightarrow> Panics p)"

definition impossible :: go_error where "impossible = Errf (''shouldn'' @ [CHR 0x27] @ ''t be possible'') []"

definition result_of :: "operation \<Rightarrow> int run" where
  "result_of oper =
     (case oper of Operation l oper v r \<Rightarrow>
        if oper = ''='' then Ends v
        else if oper = ''-'' then of_outcome (op_sub l v)
        else if oper = ''+'' then of_outcome (op_add l v)
        else if oper = ''/'' then of_outcome (op_div l v)
        else if oper = ''*'' then of_outcome (op_mul l v)
        else Panics impossible)"

definition evaluate :: "operation \<Rightarrow> int run" where
  "evaluate oper =
     run_bind (walk_pass ''*'' op_mul oper) (\<lambda>oper.
     run_bind (walk_pass ''/'' op_div oper) (\<lambda>oper.
     run_bind (walk_pass ''+'' op_add oper) (\<lambda>oper.
     run_bind (walk_pass ''-'' op_sub oper) (\<lambda>oper.
     run_bind (last_pass oper) result_of))))"

section \<open>parse\<close>

definition is_operator :: "char \<Rightarrow> bool" where
  "is_operator c \<longleftrightarrow> c = CHR ''/'' \<or> c = CHR ''*'' \<or> c = CHR ''+'' \<or> c = CHR ''-''"

text \<open>A digit is appended as the decimal number of its code, and the loop goes on over what the
  recursive call has parsed.\<close>

fun parse_loop :: "string \<Rightarrow> operation \<Rightarrow> string \<Rightarrow> operation outcome" where
  "parse_loop [] output previous = Return output"
| "parse_loop (c # rest) output previous =
     (if is_digit c then parse_loop rest output (previous @ show_nat (of_char c))
      else if is_operator c then
        (case parse_int64 previous of
           Inl err \<Rightarrow> Panic err
         | Inr val \<Rightarrow>
             (case output of Operation l oper v r \<Rightarrow>
                if rest = [] then Return (Operation val [c] v (Some (Operation 0 ''='' 0 None)))
                else
                  (case parse_loop rest Operation0 [] of
                     Panic p \<Rightarrow> Panic p
                   | Return next_op \<Rightarrow> parse_loop rest (Operation val [c] v (Some next_op)) previous)))
      else parse_loop rest output previous)"

definition parse :: "string \<Rightarrow> operation outcome" where
  "parse input = parse_loop input Operation0 []"

definition run_calculator :: "string \<Rightarrow> int run" where
  "run_calculator input = (case parse input of Panic p \<Rightarrow> Panics p | Return oper \<Rightarrow> evaluate oper)"

section \<open>Facts\<close>

text \<open>The number that the digits of an operand are read as.\<close>

definition code_digits :: "string \<Rightarrow> string" where
  "code_digits ds = concat (map (\<lambda>c. show_nat (of_char c)) ds)"

lemma parse_loop_digits:
  "list_all is_digit ds \<Longrightarrow> parse_loop (ds @ rest) out prev = parse_loop rest out (prev @ code_digits ds)"
  by (induction ds arbitrary: prev) (auto simp: code_digits_def)

lemma code_digits_all: "list_all is_digit (code_digits ds)"
  by (induction ds) (auto simp: code_digits_def)

lemma code_digits_Nil: "code_digits ds = [] \<longleftrightarrow> ds = []"
  by (cases ds) (auto simp: code_digits_def)

lemma length_code_digits: "list_all is_digit ds \<Longrightarrow> length (code_digits ds) = 2 * length ds"
proof (induction ds)
  case (Cons c ds)
  have "length (show_nat n) = 2" if "48 \<le> n" "n \<le> 57" for n
    using that by (subst show_nat.simps, subst show_nat.simps) auto
  with Cons show ?case by (simp add: code_digits_def is_digit_def)
qed (simp add: code_digits_def)

lemma digits_val_less: "list_all is_digit s \<Longrightarrow> digits_val s < 10 ^ length s"
proof (induction s rule: rev_induct)
  case (snoc c s)
  then have "is_digit c" by simp
  then have "digit_val c \<le> 9" unfolding is_digit_def digit_val_def by linarith
  with snoc show ?case by (simp add: digits_val_snoc)
qed (simp add: digits_val_def)

lemma parse_codes:
  assumes "list_all is_digit ds" and "ds \<noteq> []" and "length ds \<le> 9"
  shows "parse_int64 (code_digits ds) = Inr (int (digits_val (code_digits ds)))"
    and "digits_val (code_digits ds) < 2 ^ 62"
proof -
  have "digits_val (code_digits ds) < 10 ^ (2 * length ds)"
    using digits_val_less[OF code_digits_all[of ds]] length_code_digits[OF assms(1)] by simp
  also have "(10 :: nat) ^ (2 * length ds) \<le> 10 ^ 18" using assms(3) by (intro power_increasing) auto
  also have "(10 :: nat) ^ 18 < 2 ^ 62" by simp
  finally show b: "digits_val (code_digits ds) < 2 ^ 62" .
  obtain c r where cr: "code_digits ds = c # r" using assms(2) by (cases "code_digits ds") (auto simp: code_digits_Nil)
  then have "is_digit c" using code_digits_all[of ds] by simp
  then have "c \<noteq> CHR ''-''" "c \<noteq> CHR ''+''" by auto
  moreover have "parse_digits (code_digits ds) = Some (digits_val (code_digits ds))"
    using code_digits_all[of ds] cr by (simp add: parse_digits_def)
  ultimately show "parse_int64 (code_digits ds) = Inr (int (digits_val (code_digits ds)))"
    using b cr by (auto simp: parse_int64_def Let_def)
qed

text \<open>What the calculator answers for two operands: the second is never read, and the first is
  the number written with the codes of its digits. A sum is twice that number, a difference is
  zero, a quotient divides by zero and a product runs off the list.\<close>

theorem calculator_answers:
  assumes a: "list_all is_digit a" "a \<noteq> []" "length a \<le> 9" and b: "list_all is_digit b" "b \<noteq> []"
  shows "run_calculator (a @ ''+'' @ b) = Ends (2 * int (digits_val (code_digits a))) \<and>
    run_calculator (a @ ''-'' @ b) = Ends 0 \<and>
    run_calculator (a @ ''/'' @ b) = Panics divide_by_zero \<and>
    run_calculator (a @ ''*'' @ b) = Panics nil_deref"
proof -
  let ?n = "int (digits_val (code_digits a))"
  have n: "0 \<le> ?n" "?n < 2 ^ 62" using parse_codes(2)[OF a] by auto
  have operand: "parse_loop b out p = Return out" for out p
    using parse_loop_digits[OF b(1), of "[]" out p] by simp
  have parse: "parse (a @ [c] @ b) = Return (Operation ?n [c] 0 (Some Operation0))"
    if "is_operator c" "\<not> is_digit c" for c
    using that b(2) operand parse_codes(1)[OF a] by (simp add: parse_def parse_loop_digits[OF a(1)] Operation0_def)
  have w: "wrap64 ?n = ?n" "wrap64 (?n + ?n) = 2 * ?n" "wrap64 0 = 0"
    using n by (simp_all add: wrap64_id)
  have "run_calculator (a @ ''+'' @ b) = Ends (2 * ?n)"
    using parse[of "CHR ''+''"] w
    by (simp add: run_calculator_def is_operator_def evaluate_def Operation0_def op_add_def
        result_of_def of_outcome_def)
  moreover have "run_calculator (a @ ''-'' @ b) = Ends 0"
    using parse[of "CHR ''-''"] w
    by (simp add: run_calculator_def is_operator_def evaluate_def Operation0_def op_sub_def
        result_of_def of_outcome_def)
  moreover have "run_calculator (a @ ''/'' @ b) = Panics divide_by_zero"
    using parse[of "CHR ''/''"]
    by (simp add: run_calculator_def is_operator_def is_digit_def evaluate_def Operation0_def op_div_def)
  moreover have "run_calculator (a @ ''*'' @ b) = Panics nil_deref"
    using parse[of "CHR ''*''"]
    by (simp add: run_calculator_def is_operator_def is_digit_def evaluate_def Operation0_def op_mul_def)
  ultimately show ?thesis by blast
qed

lemma calculator_answers_witness: "run_calculator ''1+2'' = Ends 98"
proof -
  have "run_calculator (''1'' @ ''+'' @ ''2'') = Ends (2 * int (digits_val (code_digits ''1'')))"
    using calculator_answers[of "''1''" "''2''"] by (simp add: is_digit_def)
  moreover have "digits_val (code_digits ''1'') = 49" by code_simp
  ultimately show ?thesis by simp
qed

end
