(* ===== verification/Examples.thy ===== *)
theory Examples
  imports Util
begin

text \<open>
  The small programs of \<open>cmd/\<close>: the web service of \<open>cmd/example/main.go\<close>, whose orchestrator and command
  library are parameters, and the printout of \<open>cmd/checker.go\<close>.
\<close>

section \<open>cmd/example/main.go\<close>

record ServiceConfig =
  sc_Message :: string
  sc_Timeout :: int

text \<open>The handler counts the requests and writes the message.\<close>

definition serve :: "ServiceConfig \<Rightarrow> int \<Rightarrow> string \<times> int" where
  "serve conf counter = (sc_Message conf, counter + 1)"

fun serve_all :: "ServiceConfig \<Rightarrow> nat \<Rightarrow> int \<Rightarrow> string list \<times> int" where
  "serve_all conf 0 counter = ([], counter)"
| "serve_all conf (Suc n) counter =
     (case serve conf counter of (body, counter) \<Rightarrow>
        case serve_all conf n counter of (bodies, counter) \<Rightarrow> (body # bodies, counter))"

text \<open>The service is handed to the orchestrator of the context, after its cleanup was registered.\<close>

definition StartService ::
    "('w \<Rightarrow> 'w) \<Rightarrow> (string \<Rightarrow> string \<Rightarrow> (int \<Rightarrow> string \<times> int) \<Rightarrow> 'w \<Rightarrow> errors \<times> 'w) \<Rightarrow> ServiceConfig \<Rightarrow> 'w \<Rightarrow> errors \<times> 'w" where
  "StartService add_cleanup orchestrator_add conf w =
     orchestrator_add ''hello-world'' ''127.0.0.1:9001'' (serve conf) (add_cleanup w)"

text \<open>The configuration that is built from the command line has a message and no timeout, although the
  flag for the timeout is declared with an hour; the middleware sets the deadline of the context.\<close>

definition service_conf :: "string \<Rightarrow> ServiceConfig" where
  "service_conf message = \<lparr>sc_Message = message, sc_Timeout = 0\<rparr>"

definition service_deadline :: "int \<Rightarrow> ServiceConfig \<Rightarrow> int" where
  "service_deadline now conf = now + sc_Timeout conf"

definition service_flags :: "(string list \<times> string) list" where
  "service_flags = [([''message'', ''m''], ''message returned by handler''),
     ([''timeout'', ''t''], ''timeout for service lifecycle'')]"

section \<open>cmd/checker.go\<close>

datatype printed = Print_Int nat | Print_List "string list" | Print_Text string

definition NewList :: "'a list \<Rightarrow> 'a list" where "NewList items = items"

definition alter :: "string list \<Rightarrow> string list \<times> printed list" where
  "alter ls =
     (let ls' = ls @ [''seven''] in (ls', [Print_Text ''alter -->'', Print_List ls', Print_Int (length ls'), Print_Text ''<-- alter'']))"

definition checker_main :: "printed list" where
  "checker_main =
     (let dots = [[], ''..'', ''  ''];
          l = NewList [''one'', ''two'', ''three''] @ [''four''];
          (l', out) = alter l;
          l'' = l' @ [''seven'']
      in map (\<lambda>s. Print_Int (length (DotSplit s))) dots @ map (\<lambda>s. Print_List (DotSplit s)) dots @
         map (\<lambda>s. Print_List (MakeSparse [] (DotSplit s))) dots @
         [Print_List l, Print_Int (length l)] @ out @ [Print_List l'', Print_Int (length l'')])"

section \<open>Facts\<close>

text \<open>Every request is answered with the message and counted once. The context of the service has
  expired when the service starts, whatever the flag for the timeout says.\<close>

theorem example_service:
  "serve_all conf n counter = (replicate n (sc_Message conf), counter + int n) \<and>
   service_deadline now (service_conf message) = now"
proof -
  have "serve_all conf n counter = (replicate n (sc_Message conf), counter + int n)"
    by (induction n arbitrary: counter) (auto simp: serve_def)
  then show ?thesis by (simp add: service_deadline_def service_conf_def)
qed

lemma checker_prints:
  "checker_main =
     [Print_Int 1, Print_Int 3, Print_Int 1, Print_List [[]], Print_List [[], [], []], Print_List [''  ''],
      Print_List [], Print_List [], Print_List [''  ''],
      Print_List [''one'', ''two'', ''three'', ''four''], Print_Int 4, Print_Text ''alter -->'',
      Print_List [''one'', ''two'', ''three'', ''four'', ''seven''], Print_Int 5, Print_Text ''<-- alter'',
      Print_List [''one'', ''two'', ''three'', ''four'', ''seven'', ''seven''], Print_Int 6]"
  by code_simp

end
