(* ===== verification/Spec2Isabelle.thy ===== *)
theory Spec2Isabelle
  imports Build_Order Gadget_Run Router_Dispatch Router_Peer Subexec_Index Subexec_Slices Index_Json Repo_Jobs Sardis_Conf
    Loaded_Conf Menu Cmdr Postal_Envelope Dblock Linked_Queue Command_Tree Output_Buffers Host_Info Dbtools
    Funlint_Rules Interview Examples
begin

text \<open>
  Verification of sardis, a personal automation service written in Go: it reads a configuration
  (possibly spread over several files), keeps the machine's repositories, links, packages and
  services in the state that the configuration describes, and offers everything else as named
  commands in groups.

  The parts and how they interact.

  \<^item> \<open>Sardis_Conf\<close> models \<open>conf.go\<close> and \<open>context.go\<close>. A configuration holds the settings
    (\<open>Srv\<close>: \<open>srv/srv.go\<close>, \<open>srv/logging.go\<close>, \<open>srv/network.go\<close>), the repositories (\<open>Repo\<close>), the system
    (\<open>Sysmgmt\<close>) and the operations (\<open>Subexec_Conf\<close>). \<open>LoadConfiguration\<close> reads a file, joins the files
    it links to, generates the task groups of the repositories and of the services, puts them
    among the operations and validates each part.
  \<^item> \<open>Sysmgmt\<close> models \<open>sysmgmt/sysmgmt.go\<close> and joins \<open>Systemd\<close> (\<open>systemd.go\<close>: services, their set up
    worker, their task groups), \<open>Links\<close> (\<open>links.go\<close>, \<open>discovery.go\<close>: symbolic links and the search
    for them) and \<open>Arch\<close> (\<open>arch.go\<close>: the packages of Arch Linux, whose builds use the fetch jobs of
    \<open>Repo_Jobs\<close>).
  \<^item> \<open>Repo\<close> models \<open>repo/conf.go\<close>, \<open>repo/repo.go\<close>, \<open>repo/blog.go\<close> and \<open>repo/subexec.go\<close>: repositories,
    projects, the indexes of names and tags, and the task groups made from them. \<open>Repo_Jobs\<close> models
    \<open>repo/jobs.go\<close>: the fetch, clone, update, sync, cleanup and status jobs over a world of files
    and processes.
  \<^item> \<open>Subexec_Command\<close> (\<open>subexec/commands.go\<close>, \<open>subexec/util.go\<close>), \<open>Subexec_Group\<close> (\<open>group.go\<close>),
    \<open>Subexec_Conf\<close> (\<open>subexec.go\<close>, \<open>list.go\<close>) and \<open>Subexec_Index\<close> (\<open>index.go\<close>): commands and their
    workers, groups and the templates they fill in, the merging and selection of groups, and the
    tree that finds a command by its dotted name. \<open>Subexec_Slices\<close> repeats the merging over the arrays
    that hold the commands, which groups and their aliases share. \<open>Index_Json\<close> prints the tree.
    \<open>Go_Stable\<close> is the algorithm of \<open>slices.SortStableFunc\<close>, on which the order of the groups depends,
    since their comparison is no order.
  \<^item> \<open>Operations\<close>, \<open>Menu\<close>, \<open>Exec_Menu\<close> and \<open>Cmdr\<close> model \<open>operations/\<close>, the commands of the program.
    \<open>Cmdr\<close> (\<open>helpers.go\<close>, \<open>util.go\<close>, \<open>gadget.go\<close>, the validators of \<open>cmdr.go\<close>) holds the values of
    flags and arguments; \<open>Operations\<close> (\<open>cmdr.go\<close>, \<open>repo.go\<close>, \<open>arch.go\<close>, \<open>admin.go\<close>, \<open>blog.go\<close>, \<open>jira.go\<close>,
    \<open>twitter.go\<close>, \<open>notify.go\<close>) loads the configuration, puts the options over it and hands the jobs
    of the parts to a pool; \<open>Menu\<close> and \<open>Exec_Menu\<close> (\<open>menu.go\<close>) walk the tree of \<open>Subexec_Index\<close> and the
    groups of \<open>Subexec_Conf\<close> with the answers of a menu, and run what was selected. \<open>Command_Tree\<close>
    is the declaration of all these commands to the command line library: their names, flags, what
    the middleware puts into the context of an action and what the action takes out of it.
    \<open>Loaded_Conf\<close> holds the well-formedness of every configuration that loading accepts.
  \<^item> \<open>Tools\<close> models the small tools: \<open>tools/dupe\<close>, \<open>tools/depgraph\<close> and \<open>tools/execpath\<close>.
  \<^item> \<open>Daggen\<close> (\<open>tools/gadget/daggen.go\<close>), \<open>Build_Order\<close> (\<open>gendget.go\<close>), \<open>Gadget\<close> and \<open>Gadget_Run\<close>
    (\<open>gadget.go\<close>, \<open>generate.go\<close>, \<open>cache.go\<close>): the package graph of a Go module, the order in which
    its packages can be generated, running tests and generators, and the reports about them.
  \<^item> \<open>Router_Model\<close> (\<open>x/router/model.go\<close>, \<open>rand.go\<close>), \<open>Router_Dispatch\<close> (\<open>dispatcher.go\<close>) and
    \<open>Router_Peer\<close> (\<open>peer.go\<close>): messages and their identifiers, the pipeline of interceptors,
    middleware and handlers with the services that run it, and the loops of a connection. The services
    take messages, refuse them when a bounded queue is full, close their queues and end; the goroutines
    that send for the peers of a router share its counter of envelopes.
  \<^item> \<open>Postal\<close> (\<open>x/postal/meta.go\<close>) and \<open>Postal_Envelope\<close> (\<open>codecs.go\<close>, \<open>postal.go\<close>): the schemas and
    locks of jobs that are sent, and the envelopes that carry them through a codec. \<open>Dblock\<close>
    (\<open>x/dblock/lock.go\<close>): a lock in a database, over a driver that is a parameter. \<open>Linked_Queue\<close>
    (\<open>cmd/queue/main.go\<close>): a queue of items in a heap and the list that it holds.
  \<^item> \<open>Util\<close> (\<open>util/\<close>): dotted names, home directories, sequences, marshaling and the searches for
    sockets. \<open>Jasper\<close> is the record of a command that the process manager runs, and
    \<open>Output_Buffers\<close> (\<open>subexec/util.go\<close>) the buffers that collect the output of processes and are
    shared through a pool. \<open>Host_Info\<close> (\<open>global/\<close>, \<open>environment.go\<close>, \<open>subexec/jasper.go\<close>): the names
    of variables, the build information, the cached host name and the process managers of a context.
  \<^item> \<open>Dbtools\<close> (\<open>tools/dbtools.go\<close>): a database for a test and its removal. The other programs of
    \<open>cmd/\<close>: \<open>Funlint_Rules\<close> (\<open>funlint/\<close>: the rules of the linter, as the data they build),
    \<open>Interview\<close> (\<open>interview-one/\<close>: an evaluator of expressions over 64 bit integers) and \<open>Examples\<close>
    (\<open>example/\<close>, \<open>checker.go\<close>).
  \<^item> \<open>Go_Prelude\<close> and \<open>Go_Path\<close>: errors, panics, optional values, the string, sorting and map
    functions of the Go library, its file paths, and the rule for invariants of step relations.

  How the program is represented. A struct is a record and a pointer that may be nil an option;
  an error out of a collector is the list of the errors pushed, in order; an operation that can
  panic returns an \<open>outcome\<close>; a map is an association list without duplicate keys, whose order stands
  for the order of one iteration. A method that changes its receiver returns it. Interfaces to the
  file system, to processes and to third-party packages are arguments; where an operation acts
  on the outside world, the world is an argument and a result of arbitrary type. A goroutine that
  loops over events is a function of the list of events it sees, and the services of the
  dispatcher, which run concurrently, are a step relation whose steps are the atomic actions of
  the workers. The start of the dispatcher's services, the senders of a router and the life of the
  output buffers are step relations as well, each with an invariant shown through the locale of
  \<open>Go_Prelude\<close>. What an output hands out to be read or written is the address of its pooled buffer, so
  that it can be kept after the output is closed. Logging is left out unless it is the effect that
  the code exists for.

  What the lemmas show. Each theory ends with the properties of its part, each with a text that states
  it. The main ones: the build order is a partition of the packages in which every dependency comes
  earlier, and it is found exactly when there is no cycle; merging groups in their arrays is merging
  them as values, and keeps for every full name the commands that the groups which are kept and their
  aliases give it, as long as no array with room is shared;
  commands are found under the last definition of their name and listed once; lookups of
  repositories are sound for the names, tags and groups; every message that a service takes is
  in exactly one place, among them those that a full queue refused or the end of the services dropped;
  the envelopes of all senders have different, increasing numbers; the identifiers of messages can be
  parsed back; joined settings are those of the last file that defines them, but for the history of
  the shell; the linked files are joined in order, and
  what is loaded is well formed; a search through the menus asks no more often than the tree of
  commands is high and runs the commands along the path that was selected, up to one that fails; a job that was put into
  an envelope comes out of it, and the clock of its lock counts its updates; an output buffer
  shows what was written to it and nothing that another wrote, as long as nobody uses a reader or
  writer kept after closing; a command line names at most
  one command; a message is executed only by a dispatcher whose services run. Several properties
  state what the code does where it is not what it means to do; these are the ones listed as
  findings in the manifest.

  Fuel and termination. The loop of the build order terminates by a lexicographic measure on its
  queue and the iterations left. The traversal of the command tree terminates by the size of its
  queue. The jobs of repositories call each other (a fetch of a missing repository is a clone,
  and the other way round): three calls are enough, which is proved for every world when the home
  directory is an absolute path and what other processes do between two calls keeps the path of the
  repository there or keeps it away; when they alternate, no number of calls is enough.
  Looking up a repository by name may rebuild its indexes once: two rounds are enough.
  The searches of the menus take as many rounds as the tree of commands is high, which is proved to
  be enough. Three loops need not end and say so: the menu over groups asks again while the answers
  name groups, the encoding of an envelope calls itself through its library, and the loop that
  takes the lock of \<open>Dblock\<close> goes on while the database refuses it; their fuel is an argument, and
  for the last two no fuel is enough.

  The interview exercise walks a list that it rewires while it walks, and a walk that comes back to
  its own node goes on for ever: its result says whether it ended, panicked or did not end.

  Not modelled. The entry points (\<open>cmd/sardis\<close>), which hand the commands to the
  library; \<open>cmd/interview-one/other.go\<close>, a copy of \<open>cmd/example/main.go\<close> without its entry point;
  \<open>x/ghboop\<close>, which registers handlers that do nothing. The code of
  third-party senders, drivers and remote hosts is a parameter where its result matters; how the
  library schedules goroutines is left open, which the step relations stand for.
\<close>

end
